theory Spec2Isabelle
  imports Complex_Main "HOL-Library.Log_Nat"
begin

section \<open>JavaScript values\<close>

text \<open>
  A JavaScript string is modelled as the list of its UTF-16 code units, which is what
  \<open>length\<close>, \<open>substring\<close>, \<open>startsWith\<close>, \<open>replace\<close> and \<open>padStart\<close> count.
  ASCII units are written as characters. A code unit outside ASCII (the box-drawing rules,
  the icons) is written as a placeholder unit above \<open>0x7F\<close>: one placeholder per
  code unit, so every length is the one the program sees (an icon of the supplementary
  planes is a surrogate pair, two units).

  A JavaScript number is an IEEE 754 double: \<open>NaN\<close>, one of the two infinities, or a
  finite value. The numbers the program reads, stores and prints are whole (the number of
  an id, an issue number, points, a percentage), so a \<open>jsnum\<close> carries an integer; the
  fractions inside the two percentage computations are \<open>rat number\<close>. The finite value
  of a number that the program holds is a double (\<open>number n = Num n\<close> below). The two
  zeros of IEEE 754 are both \<open>Num 0\<close>: the program never divides by a zero, and it tests,
  counts and prints the two alike.
\<close>

datatype 'a number = NaN | Num 'a | Infinity | NegInfinity

type_synonym jsnum = "int number"

fun truthy_num :: "jsnum \<Rightarrow> bool" where
  "truthy_num NaN = False"
| "truthy_num (Num n) = (n \<noteq> 0)"
| "truthy_num Infinity = True"
| "truthy_num NegInfinity = True"

text \<open>An optional field: \<open>None\<close> is \<open>undefined\<close> or \<open>null\<close>.\<close>

fun truthy_str :: "string option \<Rightarrow> bool" where
  "truthy_str None = False"
| "truthy_str (Some s) = (s \<noteq> [])"

fun truthy_issue :: "jsnum option \<Rightarrow> bool" where
  "truthy_issue None = False"
| "truthy_issue (Some n) = truthy_num n"

datatype exception = RangeError | TypeError | Error string

text \<open>
  What the program takes from the JavaScript engine it runs on, and which the language
  leaves to the engine or to the way the engine is started:

  \<^item> \<open>object_prototype\<close>: the keys every plain object inherits from \<open>Object.prototype\<close>
    (\<open>constructor\<close>, \<open>toString\<close>, \<open>hasOwnProperty\<close>, the accessor \<open>__proto__\<close> when the
    engine has it, and so on). All the values found under these keys are functions or
    objects, hence truthy, and none of them has a \<open>push\<close> method. The key is mapped to
    the text a template literal gives for the value.
  \<^item> \<open>array_prototype\<close>: the keys of \<open>Array.prototype\<close> (\<open>push\<close>, \<open>map\<close>, ...), all of
    them functions.
  \<^item> \<open>max_string_length\<close>: the length of the longest string the engine builds; an
    operation whose result would be longer throws a \<open>RangeError\<close>.
  \<^item> \<open>max_arguments\<close>: the largest number of arguments a call can spread an array
    into; a call with more throws a \<open>RangeError\<close>.
\<close>

record engine =
  object_prototype :: "string \<Rightarrow> string option"
  array_prototype :: "string \<Rightarrow> bool"
  max_string_length :: int
  max_arguments :: int

definition lower_letters :: string where
  "lower_letters = ''abcdefghijklmnopqrstuvwxyz''"

definition upper_letters :: string where
  "upper_letters = ''ABCDEFGHIJKLMNOPQRSTUVWXYZ''"

text \<open>Letter case is that of the ASCII letters, which the ids and prefixes are made of.\<close>

definition toUpperCase :: "string \<Rightarrow> string" where
  "toUpperCase s =
     map (\<lambda>c. case map_of (zip lower_letters upper_letters) c of Some u \<Rightarrow> u | None \<Rightarrow> c) s"

definition toLowerCase :: "string \<Rightarrow> string" where
  "toLowerCase s =
     map (\<lambda>c. case map_of (zip upper_letters lower_letters) c of Some l \<Rightarrow> l | None \<Rightarrow> c) s"

definition startsWith :: "string \<Rightarrow> string \<Rightarrow> bool" where
  "startsWith s p = (take (length p) s = p)"

text \<open>\<open>s.replace(pat, rep)\<close> with a string pattern: the first occurrence only.\<close>

fun js_replace :: "string \<Rightarrow> string \<Rightarrow> string \<Rightarrow> string" where
  "js_replace pat rep [] = (if pat = [] then rep else [])"
| "js_replace pat rep (c # cs) =
     (if take (length pat) (c # cs) = pat then rep @ drop (length pat) (c # cs)
      else c # js_replace pat rep cs)"

fun join :: "string \<Rightarrow> string list \<Rightarrow> string" where
  "join sep [] = []"
| "join sep [x] = x"
| "join sep (x # y # ys) = x @ sep @ join sep (y # ys)"

definition isoDate :: "string \<Rightarrow> string" where
  \<comment> \<open>\<open>new Date().toISOString().split('T')[0]\<close>, for the timestamp read from the clock\<close>
  "isoDate now = takeWhile (\<lambda>c. c \<noteq> CHR ''T'') now"

definition padStart :: "nat \<Rightarrow> char \<Rightarrow> string \<Rightarrow> string" where
  "padStart len c s = replicate (len - length s) c @ s"

section \<open>Double-precision arithmetic\<close>

text \<open>
  The result of an arithmetic operation is the exact result rounded to the nearest double:
  a number with a 53-bit significand and an exponent from \<open>-1022\<close> to \<open>1023\<close>, or one
  of the subnormal numbers, the multiples of \<open>2^-1074\<close> below \<open>2^-1022\<close>; a tie goes to
  the even significand, and a result that rounds to \<open>2^1024\<close> or beyond is an infinity.
  \<open>binade x\<close> is the exponent \<open>e\<close> with \<open>2^e \<le> x < 2^(e+1)\<close>.
\<close>

definition binade :: "rat \<Rightarrow> int" where
  "binade x =
     (let (p, q) = quotient_of x; k = bitlen p - bitlen q
      in if 2 powi k \<le> x then k else k - 1)"

definition round_half_even :: "rat \<Rightarrow> int" where
  "round_half_even x =
     (let f = \<lfloor>x\<rfloor>; r = x - of_int f
      in if r < 1 / 2 then f else if 1 / 2 < r then f + 1 else if even f then f else f + 1)"

definition ulp :: "rat \<Rightarrow> rat" where
  \<comment> \<open>the unit in the last place of the doubles around \<open>x\<close>\<close>
  "ulp x = 2 powi (max (binade \<bar>x\<bar>) (- 1022) - 52)"

definition to_double :: "rat \<Rightarrow> rat" where
  \<comment> \<open>the nearest multiple of the unit in the last place\<close>
  "to_double x =
     (if x = 0 then 0 else sgn x * of_int (round_half_even (\<bar>x\<bar> / ulp x)) * ulp x)"

definition double :: "rat \<Rightarrow> rat number" where
  \<comment> \<open>a magnitude of \<open>2^1024\<close> or more is out of range\<close>
  "double x =
     (let r = to_double x
      in if r \<noteq> 0 \<and> 1024 \<le> binade \<bar>r\<bar> then (if 0 < r then Infinity else NegInfinity)
         else Num r)"

definition number :: "int \<Rightarrow> jsnum" where
  \<comment> \<open>the double of an integer value: the double nearest to a whole number is whole\<close>
  "number n =
     (case double (of_int n) of
        Num r \<Rightarrow> Num \<lfloor>r\<rfloor> | Infinity \<Rightarrow> Infinity | NegInfinity \<Rightarrow> NegInfinity | NaN \<Rightarrow> NaN)"

text \<open>
  The operators, on operands that are doubles. \<open>a + b\<close>, \<open>a - b\<close> and \<open>Math.max(a, b)\<close>
  of whole numbers are whole.
\<close>

fun js_add :: "jsnum \<Rightarrow> jsnum \<Rightarrow> jsnum" where
  "js_add (Num a) (Num b) = number (a + b)"
| "js_add NaN b = NaN"
| "js_add a NaN = NaN"
| "js_add Infinity NegInfinity = NaN"
| "js_add NegInfinity Infinity = NaN"
| "js_add Infinity b = Infinity"
| "js_add a Infinity = Infinity"
| "js_add NegInfinity b = NegInfinity"
| "js_add a NegInfinity = NegInfinity"

fun js_neg :: "jsnum \<Rightarrow> jsnum" where
  "js_neg (Num a) = Num (- a)"
| "js_neg NaN = NaN"
| "js_neg Infinity = NegInfinity"
| "js_neg NegInfinity = Infinity"

definition js_sub :: "jsnum \<Rightarrow> jsnum \<Rightarrow> jsnum" where
  "js_sub a b = js_add a (js_neg b)"

fun Math_max :: "jsnum \<Rightarrow> jsnum \<Rightarrow> jsnum" where
  "Math_max (Num a) (Num b) = Num (max a b)"
| "Math_max NaN b = NaN"
| "Math_max a NaN = NaN"
| "Math_max Infinity b = Infinity"
| "Math_max a Infinity = Infinity"
| "Math_max NegInfinity b = b"
| "Math_max a NegInfinity = a"

fun positive :: "jsnum \<Rightarrow> bool" where
  \<comment> \<open>\<open>a > 0\<close>\<close>
  "positive (Num a) = (0 < a)"
| "positive Infinity = True"
| "positive NaN = False"
| "positive NegInfinity = False"

fun js_div :: "jsnum \<Rightarrow> jsnum \<Rightarrow> rat number" where
  \<comment> \<open>\<open>a / b\<close>; a zero divisor is taken as the positive zero\<close>
  "js_div (Num a) (Num b) =
     (if b = 0 then (if a = 0 then NaN else if 0 < a then Infinity else NegInfinity)
      else double (of_int a / of_int b))"
| "js_div NaN b = NaN"
| "js_div a NaN = NaN"
| "js_div (Num a) Infinity = Num 0"
| "js_div (Num a) NegInfinity = Num 0"
| "js_div Infinity (Num b) = (if b < 0 then NegInfinity else Infinity)"
| "js_div NegInfinity (Num b) = (if b < 0 then Infinity else NegInfinity)"
| "js_div Infinity Infinity = NaN"
| "js_div Infinity NegInfinity = NaN"
| "js_div NegInfinity Infinity = NaN"
| "js_div NegInfinity NegInfinity = NaN"

fun js_mul :: "rat number \<Rightarrow> jsnum \<Rightarrow> rat number" where
  \<comment> \<open>\<open>x * b\<close>\<close>
  "js_mul (Num x) (Num b) = double (x * of_int b)"
| "js_mul NaN b = NaN"
| "js_mul x NaN = NaN"
| "js_mul (Num x) Infinity = (if x = 0 then NaN else if 0 < x then Infinity else NegInfinity)"
| "js_mul (Num x) NegInfinity = (if x = 0 then NaN else if 0 < x then NegInfinity else Infinity)"
| "js_mul Infinity (Num b) = (if b = 0 then NaN else if 0 < b then Infinity else NegInfinity)"
| "js_mul NegInfinity (Num b) = (if b = 0 then NaN else if 0 < b then NegInfinity else Infinity)"
| "js_mul Infinity Infinity = Infinity"
| "js_mul Infinity NegInfinity = NegInfinity"
| "js_mul NegInfinity Infinity = NegInfinity"
| "js_mul NegInfinity NegInfinity = Infinity"

fun Math_round :: "rat number \<Rightarrow> jsnum" where
  \<comment> \<open>the nearest integer, a tie going up\<close>
  "Math_round (Num x) = Num \<lfloor>x + 1 / 2\<rfloor>"
| "Math_round NaN = NaN"
| "Math_round Infinity = Infinity"
| "Math_round NegInfinity = NegInfinity"

fun or_zero :: "jsnum \<Rightarrow> jsnum" where
  \<comment> \<open>\<open>n || 0\<close>\<close>
  "or_zero NaN = Num 0"
| "or_zero (Num k) = Num k"
| "or_zero Infinity = Infinity"
| "or_zero NegInfinity = NegInfinity"

section \<open>Numbers and their decimal form\<close>

definition digit_chars :: string where
  "digit_chars = ''0123456789''"

definition hex_chars :: string where
  "hex_chars = ''0123456789abcdef''"

definition is_digit :: "char \<Rightarrow> bool" where
  "is_digit c = (c \<in> set digit_chars)"

definition is_hex_digit :: "char \<Rightarrow> bool" where
  "is_hex_digit c = (c \<in> set hex_chars \<or> c \<in> set ''ABCDEF'')"

definition index_of :: "char \<Rightarrow> string \<Rightarrow> nat" where
  "index_of c s = length (takeWhile (\<lambda>d. d \<noteq> c) s)"

definition digits_value :: "int \<Rightarrow> string \<Rightarrow> int" where
  \<comment> \<open>the value of a run of digits in the given radix, most significant digit first\<close>
  "digits_value radix ds =
     fold (\<lambda>c acc. acc * radix + int (index_of (hd (toLowerCase [c])) hex_chars)) ds 0"

definition is_space :: "char \<Rightarrow> bool" where
  \<comment> \<open>the white space of ASCII: space, tab, line feed, vertical tab, form feed, return\<close>
  "is_space c = (c \<in> set [CHR '' '', CHR 0x09, CHR 0x0A, CHR 0x0B, CHR 0x0C, CHR 0x0D])"

definition parseInt :: "string \<Rightarrow> jsnum" where
  \<comment> \<open>no radix argument: leading white space, an optional sign, then hexadecimal digits
      after \<open>0x\<close> or \<open>0X\<close> and decimal digits otherwise, up to the first unit that is not a
      digit; \<open>NaN\<close> when there is no digit, and otherwise the double nearest to the value
      of the digits\<close>
  "parseInt str =
     (let s1 = dropWhile is_space str;
          neg = (s1 \<noteq> [] \<and> hd s1 = CHR ''-'');
          s2 = (if s1 \<noteq> [] \<and> (hd s1 = CHR ''-'' \<or> hd s1 = CHR ''+'') then tl s1 else s1);
          hex = (take 2 s2 = ''0x'' \<or> take 2 s2 = ''0X'');
          ds = (if hex then takeWhile is_hex_digit (drop 2 s2) else takeWhile is_digit s2);
          v = digits_value (if hex then 16 else 10) ds
      in if ds = [] then NaN else number (if neg then - v else v))"

function decimal :: "int \<Rightarrow> string" where
  \<comment> \<open>the decimal digits of a natural number\<close>
  "decimal n =
     (if n < 10 then [digit_chars ! nat n] else decimal (n div 10) @ [digit_chars ! nat (n mod 10)])"
  by auto

termination decimal
  by (relation "measure nat") auto

declare decimal.simps [simp del]

text \<open>
  The text of a number (\<open>String(n)\<close>, a template literal). Of all the decimal numbers that
  the engine reads back as the double \<open>x\<close>, it is the one with the fewest significant
  digits, and among those the nearest to \<open>x\<close>: \<open>shortest x\<close>, found by trying the two
  multiples of \<open>10^j\<close> around \<open>x\<close> from the largest \<open>j\<close> down. The number is written
  with all its digits when it is below \<open>10^21\<close> and with an exponent otherwise.
\<close>

definition candidates_at :: "int \<Rightarrow> nat \<Rightarrow> int list" where
  "candidates_at x j =
     (let p = 10 ^ j; lo = (x div p) * p; hi = lo + p
      in if x - lo < hi - x \<or> (x - lo = hi - x \<and> even (x div p)) then [lo, hi] else [hi, lo])"

definition shortest :: "int \<Rightarrow> int" where
  "shortest x =
     (case find (\<lambda>v. number v = Num x)
             (concat (map (candidates_at x) (rev [0..<length (decimal x)]))) of
        Some v \<Rightarrow> v | None \<Rightarrow> x)"

definition exponent_form :: "int \<Rightarrow> string" where
  "exponent_form v =
     (let ds = decimal v;
          s = rev (dropWhile (\<lambda>c. c = CHR ''0'') (rev ds))
      in (if length s = 1 then s else hd s # ''.'' @ tl s)
           @ ''e+'' @ decimal (int (length ds) - 1))"

definition number_text :: "int \<Rightarrow> string" where
  \<comment> \<open>for a double that is not negative\<close>
  "number_text x =
     (let v = shortest x in if v < 10 ^ 21 then decimal v else exponent_form v)"

fun String :: "jsnum \<Rightarrow> string" where
  "String (Num n) = (if n < 0 then CHR ''-'' # number_text (- n) else number_text n)"
| "String NaN = ''NaN''"
| "String Infinity = ''Infinity''"
| "String NegInfinity = ''-Infinity''"

section \<open>Data model\<close>

text \<open>
  The document is what \<open>JSON.parse\<close> gives for the data file. A field the program tests for
  truthiness before use is optional (\<open>None\<close> when absent); a list field that is absent is the
  empty list, and an absent \<open>type\<close> or \<open>priority\<close> is the empty string, which the program
  treats alike. \<open>points\<close> and \<open>progress\<close> are whole numbers, as the program stores them:
  the field holds the value written in the file, and the program computes with the double
  that \<open>JSON.parse\<close> reads it as (\<open>number\<close>, which leaves a double as it is).
\<close>

record capacity_t =
  totalHours :: int
  committed :: int
  buffer :: int

record task =
  task_id :: string
  title :: string
  task_type :: string
  status :: string
  priority :: string
  points :: "int option"
  sprint :: string
  owner :: "string option"
  branch :: "string option"
  worktree :: "string option"
  task_notes :: "string option"
  linkedTD :: "string option"
  acceptanceCriteria :: "string list"
  blockers :: "string list"
  createdAt :: string
  completedAt :: "string option"
  githubIssue :: "jsnum option"
  githubUrl :: "string option"

record techdebt =
  td_id :: string
  td_status :: string
  progress :: "int option"
  linkedTask :: "string option"

record document =
  project :: string
  version :: "string option"
  currentSprint :: string
  sprintStart :: string
  sprintEnd :: string
  capacity :: capacity_t
  tasks :: "task list"
  technicalDebt :: "techdebt list"
  lastUpdated :: string

record config =
  projectName :: string
  dataFile :: "string option"
  boardFile :: "string option"
  taskPrefix :: "string option"
  columns :: "string list option"
  githubProject_number :: "jsnum option"

definition default_columns :: "string list" where
  "default_columns = [''backlog'', ''ready'', ''in_progress'', ''review'', ''done'']"

definition config_columns :: "config option \<Rightarrow> string list" where
  \<comment> \<open>\<open>config?.columns || [...]\<close>: an array, even an empty one, is truthy\<close>
  "config_columns cfg =
     (case cfg of None \<Rightarrow> default_columns
      | Some c \<Rightarrow> (case columns c of None \<Rightarrow> default_columns | Some cols \<Rightarrow> cols))"

section \<open>Board renderer: \<open>cmdBoard\<close>\<close>

definition HBAR :: char where "HBAR = CHR 0x81"
definition DBAR :: char where "DBAR = CHR 0x82"

definition priorityIcons :: "string \<Rightarrow> string option" where
  \<comment> \<open>the own keys of the table; each icon is one supplementary-plane character, two
      code units\<close>
  "priorityIcons =
     map_of [(''critical'', [CHR 0x90, CHR 0x91]), (''high'', [CHR 0x90, CHR 0x92]),
             (''medium'', [CHR 0x90, CHR 0x93]), (''low'', [CHR 0x90, CHR 0x94])]"

definition neutralIcon :: string where
  \<comment> \<open>the fallback icon is a single code unit\<close>
  "neutralIcon = [CHR 0x95]"

definition padRight :: "string \<Rightarrow> nat \<Rightarrow> string" where
  "padRight str len =
     (if length str \<ge> len then take len str else str @ replicate (len - length str) CHR '' '')"

definition sprintTasks :: "document \<Rightarrow> task list" where
  "sprintTasks data = filter (\<lambda>t. sprint t = currentSprint data) (tasks data)"

text \<open>
  \<open>grouped\<close> is a plain object, \<open>{}\<close>: it has the properties the program gives it (\<open>own_lists\<close>)
  and a prototype, from which it inherits. The prototype is \<open>Object.prototype\<close> at first
  (\<open>proto_list = None\<close>). An assignment to a key creates the own property, except for the key
  \<open>__proto__\<close> on an engine that has this accessor: there the assignment of an array
  replaces the prototype with that array (\<open>proto_list = Some a\<close>), and a later read of
  \<open>__proto__\<close> gives the array.
\<close>

record groups =
  own_lists :: "string \<rightharpoonup> task list"
  proto_list :: "task list option"

definition set_column :: "engine \<Rightarrow> string \<Rightarrow> groups \<Rightarrow> groups" where
  \<comment> \<open>\<open>grouped[col] = []\<close>\<close>
  "set_column eng col g =
     (if col = ''__proto__'' \<and> object_prototype eng ''__proto__'' \<noteq> None
      then g\<lparr>proto_list := Some []\<rparr> else g\<lparr>own_lists := (own_lists g)(col \<mapsto> [])\<rparr>)"

definition push_task :: "engine \<Rightarrow> task \<Rightarrow> groups \<Rightarrow> exception + groups" where
  \<comment> \<open>\<open>if (grouped[task.status]) grouped[task.status].push(task)\<close>. The value read is
      an own list; or, through a prototype that is an array \<open>a\<close>: \<open>a\<close> itself under
      \<open>__proto__\<close>, its length under \<open>length\<close> (falsy when 0), one of its tasks under an
      index, a function under a key of \<open>Array.prototype\<close> or of \<open>Object.prototype\<close>; or,
      through \<open>Object.prototype\<close>, a function or an object; or \<open>undefined\<close>. A truthy
      value that is not a list has no \<open>push\<close>, and the call throws a \<open>TypeError\<close>.\<close>
  "push_task eng t g =
     (case own_lists g (status t) of
        Some l \<Rightarrow> Inr (g\<lparr>own_lists := (own_lists g)(status t \<mapsto> l @ [t])\<rparr>)
      | None \<Rightarrow>
         (case proto_list g of
            Some a \<Rightarrow>
              if status t = ''__proto__'' then Inr (g\<lparr>proto_list := Some (a @ [t])\<rparr>)
              else if status t = ''length'' then (if a = [] then Inr g else Inl TypeError)
              else if status t \<in> set (map (\<lambda>i. decimal (int i)) [0..<length a]) then Inl TypeError
              else if array_prototype eng (status t) \<or> object_prototype eng (status t) \<noteq> None
                   then Inl TypeError
              else Inr g
          | None \<Rightarrow> if object_prototype eng (status t) \<noteq> None then Inl TypeError else Inr g))"

definition grouped :: "engine \<Rightarrow> string list \<Rightarrow> task list \<Rightarrow> exception + groups" where
  \<comment> \<open>an empty list under every configured column, then every sprint task pushed under
      its status; the first exception ends the command\<close>
  "grouped eng cols ts =
     fold (\<lambda>t r. case r of Inl e \<Rightarrow> Inl e | Inr g \<Rightarrow> push_task eng t g) ts
       (Inr (fold (set_column eng) cols \<lparr> own_lists = Map.empty, proto_list = None \<rparr>))"

definition column_tasks :: "groups \<Rightarrow> string \<Rightarrow> task list" where
  \<comment> \<open>\<open>grouped[col]\<close> for a configured column\<close>
  "column_tasks g col =
     (case own_lists g col of
        Some l \<Rightarrow> l
      | None \<Rightarrow> (case proto_list g of Some a \<Rightarrow> (if col = ''__proto__'' then a else []) | None \<Rightarrow> []))"

definition nth_opt :: "'a list \<Rightarrow> nat \<Rightarrow> 'a option" where
  \<comment> \<open>an array read: \<open>undefined\<close> out of range\<close>
  "nth_opt xs i = (if i < length xs then Some (xs ! i) else None)"

definition colWidth :: "string list \<Rightarrow> nat" where
  \<comment> \<open>\<open>Math.floor(78 / columns.length)\<close>; with no column the width is never used\<close>
  "colWidth cols = 78 div length cols"

definition header_cells :: "string list \<Rightarrow> string list" where
  "header_cells cols =
     map (\<lambda>col. padRight (js_replace ''_'' '' '' (toUpperCase col)) (colWidth cols)) cols"

definition cell_text :: "engine \<Rightarrow> task \<Rightarrow> string" where
  \<comment> \<open>\<open>priorityIcons[task.priority] || neutral\<close>, a space and the id. The table is a
      plain object too: under an inherited key the value read is truthy, and its text
      takes the place of the icon.\<close>
  "cell_text eng t =
     (case priorityIcons (priority t) of
        Some icon \<Rightarrow> icon
      | None \<Rightarrow> (case object_prototype eng (priority t) of
                   Some text \<Rightarrow> text | None \<Rightarrow> neutralIcon))
       @ '' '' @ task_id t"

definition row_cell :: "engine \<Rightarrow> string list \<Rightarrow> groups \<Rightarrow> nat \<Rightarrow> string \<Rightarrow> string" where
  "row_cell eng cols g i col =
     (case nth_opt (column_tasks g col) i of
        Some t \<Rightarrow> padRight (cell_text eng t) (colWidth cols)
      | None \<Rightarrow> padRight [] (colWidth cols))"

definition row_cells :: "engine \<Rightarrow> string list \<Rightarrow> groups \<Rightarrow> nat \<Rightarrow> string list" where
  "row_cells eng cols g i = map (row_cell eng cols g i) cols"

definition maxRows :: "string list \<Rightarrow> groups \<Rightarrow> nat" where
  "maxRows cols g = fold max (map (\<lambda>col. length (column_tasks g col)) cols) 1"

text \<open>The summary under the grid.\<close>

definition points_or_0 :: "task \<Rightarrow> jsnum" where
  \<comment> \<open>\<open>t.points || 0\<close>\<close>
  "points_or_0 t = (case points t of None \<Rightarrow> Num 0 | Some n \<Rightarrow> or_zero (number n))"

definition donePoints :: "document \<Rightarrow> jsnum" where
  "donePoints data =
     fold (\<lambda>t sum. js_add sum (points_or_0 t))
       (filter (\<lambda>t. status t = ''done'') (sprintTasks data)) (Num 0)"

definition totalPoints :: "document \<Rightarrow> jsnum" where
  "totalPoints data = fold (\<lambda>t sum. js_add sum (points_or_0 t)) (sprintTasks data) (Num 0)"

definition progress_of :: "jsnum \<Rightarrow> jsnum \<Rightarrow> jsnum" where
  \<comment> \<open>\<open>totalPoints > 0 ? Math.round(donePoints / totalPoints * 100) : 0\<close>\<close>
  "progress_of d t = (if positive t then Math_round (js_mul (js_div d t) (Num 100)) else Num 0)"

text \<open>
  What the command prints: the two rules, the header cells, the cells of every row, and
  the three numbers of the progress line. The rows, and with them the progress line, are
  not reached when the grouping throws.
\<close>

record board =
  top_rule :: string
  header :: "string list"
  header_rule :: string
  grid_rows :: "string list list"
  shown_done :: jsnum
  shown_total :: jsnum
  shown_progress :: jsnum

definition cmdBoard :: "engine \<Rightarrow> document \<Rightarrow> config option \<Rightarrow> exception + board" where
  \<comment> \<open>\<open>Math.max(...lengths, 1)\<close> passes one argument per column and one more\<close>
  "cmdBoard eng data cfg =
     (let cols = config_columns cfg
      in case grouped eng cols (sprintTasks data) of
           Inl e \<Rightarrow> Inl e
         | Inr g \<Rightarrow>
             if max_arguments eng < int (length cols) + 1 then Inl RangeError
             else
             Inr \<lparr> top_rule = replicate 80 DBAR,
                   header = header_cells cols,
                   header_rule = replicate 80 HBAR,
                   grid_rows = map (row_cells eng cols g) [0..<maxRows cols g],
                   shown_done = donePoints data,
                   shown_total = totalPoints data,
                   shown_progress = progress_of (donePoints data) (totalPoints data) \<rparr>)"

section \<open>Task mutator: \<open>saveData\<close>, \<open>cmdMove\<close>, \<open>cmdAdd\<close>\<close>

text \<open>
  What a command prints is kept as a value per call of \<open>console.error\<close> or
  \<open>console.log\<close>, with the data the line is formatted from.
\<close>

datatype message =
    InvalidStatus "string list"
  | TaskNotFound string
  | UsageAdd
  | Moved string string string
  | Created string string
  | NoDebt
  | DebtHeader
  | DebtItem string string string jsnum
  | DebtLink string
  | Syncing string string
  | ClosedIssue jsnum string
  | ReopenedIssue jsnum string
  | AlreadySynced string jsnum
  | CreatingIssue string
  | CreatedIssue jsnum string
  | AddedToProject jsnum
  | ClosedTaskDone
  | ErrorFor string string
  | Pulling string string
  | MarkedDone string
  | DoneButOpen string jsnum
  | GhNotFound
  | PushSummary nat nat
  | PushErrors nat
  | PullSummary nat
  | PullErrors nat
  | UsageLink
  | Linked string jsnum
  | LinkedUrl string

text \<open>
  The state a command leaves: the in-memory document, what \<open>saveData\<close> wrote to the data
  file (\<open>None\<close> when it was not called), and the two console streams.
\<close>

record cmd_result =
  doc :: document
  written :: "document option"
  console_error :: "message list"
  console_log :: "message list"

definition saveData :: "string \<Rightarrow> document \<Rightarrow> document" where
  \<comment> \<open>stamps \<open>lastUpdated\<close> with the clock's timestamp and writes the whole document; the
      result is the document in memory, which is also the value that \<open>JSON.stringify\<close>
      turns into the file's new content\<close>
  "saveData now data = data\<lparr>lastUpdated := now\<rparr>"

definition failed :: "document \<Rightarrow> message \<Rightarrow> cmd_result" where
  \<comment> \<open>\<open>console.error(...); return;\<close>\<close>
  "failed data m = \<lparr> doc = data, written = None, console_error = [m], console_log = [] \<rparr>"

fun findIndex :: "('a \<Rightarrow> bool) \<Rightarrow> 'a list \<Rightarrow> nat option" where
  "findIndex P [] = None"
| "findIndex P (x # xs) = (if P x then Some 0 else map_option Suc (findIndex P xs))"

definition matches_id :: "string \<Rightarrow> task \<Rightarrow> bool" where
  "matches_id taskId t = (toLowerCase (task_id t) = toLowerCase taskId)"

definition cmdMove ::
  "string \<Rightarrow> string \<Rightarrow> document \<Rightarrow> config option \<Rightarrow> string \<Rightarrow> string \<Rightarrow> cmd_result" where
  \<comment> \<open>\<open>stamp_time\<close> and \<open>save_time\<close> are the clock's readings at the two \<open>new Date()\<close>.
      \<open>find\<close> gives the first matching task object, which is updated in place: position
      \<open>i\<close> of the task list.\<close>
  "cmdMove stamp_time save_time data cfg taskId newStatus =
     (let validStatuses = config_columns cfg in
      if newStatus \<notin> set validStatuses then failed data (InvalidStatus validStatuses)
      else
        (case findIndex (matches_id taskId) (tasks data) of
           None \<Rightarrow> failed data (TaskNotFound taskId)
         | Some i \<Rightarrow>
             (let task0 = tasks data ! i;
                  oldStatus = status task0;
                  task1 = task0\<lparr>status := newStatus\<rparr>;
                  task2 = (if newStatus = ''done'' \<and> \<not> truthy_str (completedAt task1)
                           then task1\<lparr>completedAt := Some (isoDate stamp_time)\<rparr> else task1);
                  data' = saveData save_time (data\<lparr>tasks := (tasks data)[i := task2]\<rparr>)
              in \<lparr> doc = data', written = Some data', console_error = [],
                   console_log = [Moved (task_id task2) oldStatus newStatus] \<rparr>)))"

definition config_taskPrefix :: "config option \<Rightarrow> string" where
  \<comment> \<open>\<open>config?.taskPrefix || 'TASK'\<close>\<close>
  "config_taskPrefix cfg =
     (case cfg of None \<Rightarrow> ''TASK''
      | Some c \<Rightarrow>
          (case taskPrefix c of None \<Rightarrow> ''TASK'' | Some p \<Rightarrow> (if p = [] then ''TASK'' else p)))"

definition id_number :: "string \<Rightarrow> string \<Rightarrow> jsnum" where
  \<comment> \<open>\<open>parseInt(t.id.replace(prefix + '-', '')) || 0\<close>\<close>
  "id_number prefix i = or_zero (parseInt (js_replace (prefix @ ''-'') [] i))"

definition maxNum :: "string \<Rightarrow> task list \<Rightarrow> jsnum" where
  "maxNum prefix ts =
     fold (\<lambda>n mx. Math_max mx n)
       (map (\<lambda>t. id_number prefix (task_id t)) (filter (\<lambda>t. startsWith (task_id t) prefix) ts))
       (Num 0)"

definition newId :: "string \<Rightarrow> task list \<Rightarrow> string" where
  "newId prefix ts =
     prefix @ ''-'' @ padStart 3 CHR ''0'' (String (js_add (maxNum prefix ts) (Num 1)))"

definition created_task :: "string \<Rightarrow> string \<Rightarrow> string \<Rightarrow> string \<Rightarrow> task" where
  \<comment> \<open>the object literal of \<open>cmdAdd\<close>; the fields it does not name are absent\<close>
  "created_task new title0 sprint0 today =
     \<lparr> task_id = new, title = title0, task_type = ''feature'', status = ''backlog'',
       priority = ''medium'', points = Some 0, sprint = sprint0, owner = None, branch = None,
       worktree = None, task_notes = None, linkedTD = None, acceptanceCriteria = [],
       blockers = [], createdAt = today, completedAt = None, githubIssue = None,
       githubUrl = None \<rparr>"

definition cmdAdd ::
  "string \<Rightarrow> string \<Rightarrow> document \<Rightarrow> config option \<Rightarrow> string list \<Rightarrow> cmd_result" where
  "cmdAdd stamp_time save_time data cfg args =
     (let title0 = join '' '' args in
      if title0 = [] then failed data UsageAdd
      else
        (let prefix = toUpperCase (config_taskPrefix cfg);
             new = newId prefix (tasks data);
             task0 = created_task new title0 (currentSprint data) (isoDate stamp_time);
             data' = saveData save_time (data\<lparr>tasks := tasks data @ [task0]\<rparr>)
         in \<lparr> doc = data', written = Some data', console_error = [],
              console_log = [Created new title0] \<rparr>))"

text \<open>Commands run one after the other, each on the document the one before left.\<close>

fun cmdMove_seq ::
  "document \<Rightarrow> config option \<Rightarrow> (string \<times> string \<times> string \<times> string) list \<Rightarrow> document" where
  "cmdMove_seq data cfg [] = data"
| "cmdMove_seq data cfg ((stamp_time, save_time, taskId, newStatus) # ms) =
     cmdMove_seq (doc (cmdMove stamp_time save_time data cfg taskId newStatus)) cfg ms"

fun cmdAdd_seq ::
  "document \<Rightarrow> config option \<Rightarrow> (string \<times> string \<times> string list) list \<Rightarrow> document" where
  "cmdAdd_seq data cfg [] = data"
| "cmdAdd_seq data cfg ((stamp_time, save_time, args) # cs) =
     cmdAdd_seq (doc (cmdAdd stamp_time save_time data cfg args)) cfg cs"
section \<open>Technical debt view: \<open>createProgressBar\<close>, \<open>cmdDebt\<close>\<close>

definition FULL :: char where "FULL = CHR 0x83"
definition EMPTY :: char where "EMPTY = CHR 0x84"

definition repeat :: "engine \<Rightarrow> char \<Rightarrow> jsnum \<Rightarrow> exception + string" where
  \<comment> \<open>\<open>String.prototype.repeat\<close> of a one-unit string. The count \<open>NaN\<close> is read as 0; a
      negative or infinite count throws, and so does a count for which the result would
      be longer than the engine's longest string\<close>
  "repeat eng c n =
     (case n of
        NaN \<Rightarrow> Inr []
      | Infinity \<Rightarrow> Inl RangeError
      | NegInfinity \<Rightarrow> Inl RangeError
      | Num k \<Rightarrow>
          if k < 0 \<or> max_string_length eng < k then Inl RangeError
          else Inr (replicate (nat k) c))"

definition template :: "engine \<Rightarrow> string list \<Rightarrow> exception + string" where
  \<comment> \<open>a template literal, once its parts are evaluated: their concatenation, which
      throws when it would be longer than the engine's longest string\<close>
  "template eng parts =
     (if max_string_length eng < int (length (concat parts)) then Inl RangeError
      else Inr (concat parts))"

definition filled :: "jsnum \<Rightarrow> jsnum \<Rightarrow> jsnum" where
  "filled percent width = Math_round (js_mul (js_div percent (Num 100)) width)"

definition createProgressBar :: "engine \<Rightarrow> jsnum \<Rightarrow> jsnum \<Rightarrow> exception + string" where
  "createProgressBar eng percent width =
     (case repeat eng FULL (filled percent width) of
        Inl e \<Rightarrow> Inl e
      | Inr a \<Rightarrow>
         (case repeat eng EMPTY (js_sub width (filled percent width)) of
            Inl e \<Rightarrow> Inl e
          | Inr b \<Rightarrow> template eng [''['', a, b, '']'']))"

definition progress_or_0 :: "techdebt \<Rightarrow> jsnum" where
  \<comment> \<open>\<open>td.progress || 0\<close>\<close>
  "progress_or_0 td = (case progress td of None \<Rightarrow> Num 0 | Some n \<Rightarrow> or_zero (number n))"

fun debt_lines :: "engine \<Rightarrow> techdebt list \<Rightarrow> exception + message list" where
  \<comment> \<open>the \<open>forEach\<close> over the items; an exception of \<open>createProgressBar\<close> is not caught\<close>
  "debt_lines eng [] = Inr []"
| "debt_lines eng (td # tds) =
     (case createProgressBar eng (progress_or_0 td) (Num 15) of
        Inl e \<Rightarrow> Inl e
      | Inr bar \<Rightarrow>
         (case debt_lines eng tds of
            Inl e \<Rightarrow> Inl e
          | Inr ls \<Rightarrow>
              Inr (DebtItem (td_id td) (td_status td) bar (progress_or_0 td)
                   # (case linkedTask td of
                        Some l \<Rightarrow> (if l \<noteq> [] then [DebtLink l] else [])
                      | None \<Rightarrow> []) @ ls)))"

definition cmdDebt :: "engine \<Rightarrow> document \<Rightarrow> exception + message list" where
  \<comment> \<open>the lines printed, or the exception that ends the process\<close>
  "cmdDebt eng data =
     (if technicalDebt data = [] then Inr [NoDebt]
      else (case debt_lines eng (technicalDebt data) of
              Inl e \<Rightarrow> Inl e | Inr ls \<Rightarrow> Inr (DebtHeader # ls)))"

section \<open>Issue-tracker bridge\<close>

text \<open>
  The bridge runs the \<open>gh\<close> and \<open>git\<close> command-line clients as subprocesses. What they
  answer is not the program's to decide, so the model takes it from a \<open>shell\<close>: one
  function per command, from the state of the outside world to the outcome the caller
  sees and the next state of the world. The world is threaded through every call in the
  order the program makes them, so an answer may depend on everything done before. The
  clock belongs to the world as well.

  \<open>git_remote\<close> stands for the whole of \<open>getRepoInfo\<close>: the subprocess and the match of
  its output against the pattern of a GitHub remote give an owner and a repository, or
  \<open>null\<close>. \<open>gh_issue_create\<close> receives the task, the repository and the labels, which
  the title and body of the command line are computed from; it answers with the message
  of the exception \<open>execSync\<close> throws or with the standard output.
\<close>

record repoInfo =
  repo_owner :: string
  repo :: string

record issue_status =
  state :: string
  issue_title :: string

record 'w shell =
  clock :: "'w \<Rightarrow> string"
  gh_version :: "'w \<Rightarrow> bool \<times> 'w"
  git_remote :: "'w \<Rightarrow> repoInfo option \<times> 'w"
  gh_label_create :: "string \<Rightarrow> repoInfo \<Rightarrow> 'w \<Rightarrow> 'w"
  gh_issue_create :: "task \<Rightarrow> repoInfo \<Rightarrow> string list \<Rightarrow> 'w \<Rightarrow> (string + string) \<times> 'w"
  gh_issue_close :: "jsnum \<Rightarrow> repoInfo \<Rightarrow> 'w \<Rightarrow> bool \<times> 'w"
  gh_issue_reopen :: "jsnum \<Rightarrow> repoInfo \<Rightarrow> 'w \<Rightarrow> bool \<times> 'w"
  gh_issue_view :: "jsnum \<Rightarrow> repoInfo \<Rightarrow> 'w \<Rightarrow> issue_status option \<times> 'w"
  gh_project_item_add :: "string \<Rightarrow> jsnum \<Rightarrow> string \<Rightarrow> 'w \<Rightarrow> bool \<times> 'w"

definition checkGhCli :: "'w shell \<Rightarrow> 'w \<Rightarrow> bool \<times> 'w" where
  "checkGhCli sh w = gh_version sh w"

definition getRepoInfo :: "'w shell \<Rightarrow> 'w \<Rightarrow> repoInfo option \<times> 'w" where
  "getRepoInfo sh w = git_remote sh w"

definition closeIssue :: "'w shell \<Rightarrow> jsnum \<Rightarrow> repoInfo \<Rightarrow> 'w \<Rightarrow> bool \<times> 'w" where
  "closeIssue sh issueNumber ri w = gh_issue_close sh issueNumber ri w"

definition reopenIssue :: "'w shell \<Rightarrow> jsnum \<Rightarrow> repoInfo \<Rightarrow> 'w \<Rightarrow> bool \<times> 'w" where
  "reopenIssue sh issueNumber ri w = gh_issue_reopen sh issueNumber ri w"

definition getIssueStatus ::
  "'w shell \<Rightarrow> jsnum \<Rightarrow> repoInfo \<Rightarrow> 'w \<Rightarrow> issue_status option \<times> 'w" where
  \<comment> \<open>\<open>null\<close> when the subprocess fails or its output does not parse: the failure is
      caught here and does not reach the caller as an exception\<close>
  "getIssueStatus sh issueNumber ri w = gh_issue_view sh issueNumber ri w"

definition addToProject :: "'w shell \<Rightarrow> string \<Rightarrow> jsnum \<Rightarrow> string \<Rightarrow> 'w \<Rightarrow> bool \<times> 'w" where
  "addToProject sh issueUrl projectNumber own w = gh_project_item_add sh issueUrl projectNumber own w"

definition trim :: "string \<Rightarrow> string" where
  "trim s = rev (dropWhile is_space (rev (dropWhile is_space s)))"

fun issues_match :: "string \<Rightarrow> string option" where
  \<comment> \<open>the group of the left-most match of \<open>/\/issues\/(\d+)/\<close>\<close>
  "issues_match [] = None"
| "issues_match (c # cs) =
     (if take 8 (c # cs) = ''/issues/'' \<and> takeWhile is_digit (drop 8 (c # cs)) \<noteq> []
      then Some (takeWhile is_digit (drop 8 (c # cs)))
      else issues_match cs)"

record issue =
  issue_url :: string
  issue_number :: jsnum

definition task_labels :: "task \<Rightarrow> string list \<Rightarrow> string list" where
  "task_labels t labels =
     labels
     @ (if priority t = ''critical'' then [''priority:critical'']
        else if priority t = ''high'' then [''priority:high''] else [])
     @ (if task_type t \<noteq> [] then [''type:'' @ task_type t] else [])"

definition createIssue ::
  "'w shell \<Rightarrow> task \<Rightarrow> repoInfo \<Rightarrow> string list \<Rightarrow> 'w \<Rightarrow> (string + issue) \<times> 'w" where
  \<comment> \<open>\<open>Inl\<close> is the message of the \<open>Error\<close> thrown. Every label is created first, a
      failure there being ignored.\<close>
  "createIssue sh t ri labels w =
     (let allLabels = task_labels t labels;
          w1 = fold (\<lambda>label. gh_label_create sh label ri) allLabels w
      in case gh_issue_create sh t ri allLabels w1 of
           (Inl msg, w2) \<Rightarrow> (Inl (''Failed to create issue: '' @ msg), w2)
         | (Inr result, w2) \<Rightarrow>
             (let issueUrl = trim result;
                  issueNumber = (case issues_match issueUrl of
                                   None \<Rightarrow> NaN | Some ds \<Rightarrow> parseInt ds)
              in (Inr \<lparr> issue_url = issueUrl, issue_number = issueNumber \<rparr>, w2)))"

type_synonym created_entry = "string \<times> jsnum \<times> string"
type_synonym updated_entry = "string \<times> string"
type_synonym error_entry = "string \<times> string"

record push_results =
  created :: "created_entry list"
  updated :: "updated_entry list"
  errors :: "error_entry list"

record pull_results =
  pull_updated :: "updated_entry list"
  pull_errors :: "error_entry list"

text \<open>The state of a reconciliation in progress: the world, the result lists, the console.\<close>

record ('w, 'r) run =
  world :: 'w
  results :: 'r
  console :: "message list"

definition issue_of :: "task \<Rightarrow> jsnum" where
  \<comment> \<open>\<open>task.githubIssue\<close> of a linked task\<close>
  "issue_of t = (case githubIssue t of Some n \<Rightarrow> n | None \<Rightarrow> NaN)"

definition syncTask ::
  "'w shell \<Rightarrow> repoInfo \<Rightarrow> jsnum option \<Rightarrow> task \<Rightarrow> ('w, push_results) run
   \<Rightarrow> task \<times> ('w, push_results) run" where
  \<comment> \<open>the body of the loop of \<open>syncToGitHub\<close>, with its \<open>try\<close> and \<open>catch\<close>: the only
      exception of the body is the one \<open>createIssue\<close> throws\<close>
  "syncTask sh ri projectNumber t s =
     (if truthy_issue (githubIssue t) then
        (case getIssueStatus sh (issue_of t) ri (world s) of
           (None, w1) \<Rightarrow> (t, s\<lparr>world := w1\<rparr>)
         | (Some issueStatus, w1) \<Rightarrow>
             (let isIssueClosed = (state issueStatus = ''CLOSED'');
                  isTaskDone = (status t = ''done'')
              in if isTaskDone \<and> \<not> isIssueClosed then
                   (t, s\<lparr>world := snd (closeIssue sh (issue_of t) ri w1),
                         results := (results s)\<lparr>updated := updated (results s) @ [(task_id t, ''closed'')]\<rparr>,
                         console := console s @ [ClosedIssue (issue_of t) (task_id t)]\<rparr>)
                 else if \<not> isTaskDone \<and> isIssueClosed then
                   (t, s\<lparr>world := snd (reopenIssue sh (issue_of t) ri w1),
                         results := (results s)\<lparr>updated := updated (results s) @ [(task_id t, ''reopened'')]\<rparr>,
                         console := console s @ [ReopenedIssue (issue_of t) (task_id t)]\<rparr>)
                 else
                   (t, s\<lparr>world := w1,
                         console := console s @ [AlreadySynced (task_id t) (issue_of t)]\<rparr>)))
      else
        (case createIssue sh t ri [] (world s) of
           (Inl msg, w1) \<Rightarrow>
             (t, s\<lparr>world := w1,
                   results := (results s)\<lparr>errors := errors (results s) @ [(task_id t, msg)]\<rparr>,
                   console := console s @ [CreatingIssue (task_id t), ErrorFor (task_id t) msg]\<rparr>)
         | (Inr i, w1) \<Rightarrow>
             (let t' = t\<lparr>githubIssue := Some (issue_number i), githubUrl := Some (issue_url i)\<rparr>;
                  (added, w2) = (if truthy_issue projectNumber
                                 then addToProject sh (issue_url i)
                                        (case projectNumber of Some n \<Rightarrow> n | None \<Rightarrow> NaN)
                                        (repo_owner ri) w1
                                 else (False, w1));
                  w3 = (if status t' = ''done'' then snd (closeIssue sh (issue_number i) ri w2) else w2)
              in (t', s\<lparr>world := w3,
                        results := (results s)\<lparr>created := created (results s)
                                      @ [(task_id t', issue_number i, issue_url i)]\<rparr>,
                        console := console s
                          @ [CreatingIssue (task_id t'), CreatedIssue (issue_number i) (task_id t')]
                          @ (if added then [AddedToProject (case projectNumber of Some n \<Rightarrow> n | None \<Rightarrow> NaN)] else [])
                          @ (if status t' = ''done'' then [ClosedTaskDone] else [])\<rparr>))))"

fun syncLoop ::
  "'w shell \<Rightarrow> repoInfo \<Rightarrow> jsnum option \<Rightarrow> (task \<Rightarrow> bool) \<Rightarrow> task list \<Rightarrow> ('w, push_results) run
   \<Rightarrow> task list \<times> ('w, push_results) run" where
  \<comment> \<open>\<open>for (const task of tasksToSync)\<close>: the tasks of the document that pass the filters
      are visited in list order; a visited task is an element of \<open>data.tasks\<close> and is
      updated there\<close>
  "syncLoop sh ri pn sel [] s = ([], s)"
| "syncLoop sh ri pn sel (t # ts) s =
     (if sel t then
        (case syncTask sh ri pn t s of
           (t', s1) \<Rightarrow> (case syncLoop sh ri pn sel ts s1 of (ts', s2) \<Rightarrow> (t' # ts', s2)))
      else (case syncLoop sh ri pn sel ts s of (ts', s2) \<Rightarrow> (t # ts', s2)))"

record sync_options =
  sprintOnly :: bool
  status_option :: "string option"

definition toSync :: "document \<Rightarrow> sync_options \<Rightarrow> task \<Rightarrow> bool" where
  "toSync data options t =
     ((if sprintOnly options then sprint t = currentSprint data else True)
      \<and> (if truthy_str (status_option options) then Some (status t) = status_option options
         else True))"

definition config_projectNumber :: "config option \<Rightarrow> jsnum option" where
  \<comment> \<open>\<open>config?.githubProject?.number\<close>\<close>
  "config_projectNumber cfg = (case cfg of None \<Rightarrow> None | Some c \<Rightarrow> githubProject_number c)"

definition syncToGitHub ::
  "'w shell \<Rightarrow> document \<Rightarrow> config option \<Rightarrow> sync_options \<Rightarrow> 'w
   \<Rightarrow> (exception + document \<times> push_results \<times> message list) \<times> 'w" where
  "syncToGitHub sh data cfg options w =
     (case checkGhCli sh w of
        (False, w1) \<Rightarrow> (Inl (Error ''GitHub CLI (gh) not found. Install from https://cli.github.com''), w1)
      | (True, w1) \<Rightarrow>
         (case getRepoInfo sh w1 of
            (None, w2) \<Rightarrow> (Inl (Error ''Not in a git repository with GitHub remote''), w2)
          | (Some ri, w2) \<Rightarrow>
             (case syncLoop sh ri (config_projectNumber cfg) (toSync data options) (tasks data)
                     \<lparr> world = w2, results = \<lparr> created = [], updated = [], errors = [] \<rparr>,
                       console = [Syncing (repo_owner ri) (repo ri)] \<rparr> of
                (ts', s) \<Rightarrow> (Inr (data\<lparr>tasks := ts'\<rparr>, results s, console s), world s))))"

definition pullTask ::
  "'w shell \<Rightarrow> repoInfo \<Rightarrow> task \<Rightarrow> ('w, pull_results) run \<Rightarrow> task \<times> ('w, pull_results) run" where
  \<comment> \<open>the body of the loop of \<open>pullFromGitHub\<close>. Nothing in its \<open>try\<close> block throws
      (\<open>getIssueStatus\<close> returns \<open>null\<close> on every failure), so the \<open>catch\<close> that would add
      to \<open>results.errors\<close> has no branch here.\<close>
  "pullTask sh ri t s =
     (if \<not> truthy_issue (githubIssue t) then (t, s)
      else
        (case getIssueStatus sh (issue_of t) ri (world s) of
           (None, w1) \<Rightarrow> (t, s\<lparr>world := w1\<rparr>)
         | (Some issueStatus, w1) \<Rightarrow>
             (let isIssueClosed = (state issueStatus = ''CLOSED'');
                  isTaskDone = (status t = ''done'')
              in if isIssueClosed \<and> \<not> isTaskDone then
                   (t\<lparr>status := ''done'', completedAt := Some (isoDate (clock sh w1))\<rparr>,
                    s\<lparr>world := w1,
                      results := (results s)\<lparr>pull_updated := pull_updated (results s)
                                    @ [(task_id t, ''marked done'')]\<rparr>,
                      console := console s @ [MarkedDone (task_id t)]\<rparr>)
                 else if \<not> isIssueClosed \<and> isTaskDone then
                   (t, s\<lparr>world := w1, console := console s @ [DoneButOpen (task_id t) (issue_of t)]\<rparr>)
                 else (t, s\<lparr>world := w1\<rparr>))))"

fun pullLoop ::
  "'w shell \<Rightarrow> repoInfo \<Rightarrow> task list \<Rightarrow> ('w, pull_results) run \<Rightarrow> task list \<times> ('w, pull_results) run" where
  "pullLoop sh ri [] s = ([], s)"
| "pullLoop sh ri (t # ts) s =
     (case pullTask sh ri t s of
        (t', s1) \<Rightarrow> (case pullLoop sh ri ts s1 of (ts', s2) \<Rightarrow> (t' # ts', s2)))"

definition pullFromGitHub ::
  "'w shell \<Rightarrow> document \<Rightarrow> config option \<Rightarrow> 'w
   \<Rightarrow> (exception + document \<times> pull_results \<times> message list) \<times> 'w" where
  "pullFromGitHub sh data cfg w =
     (case checkGhCli sh w of
        (False, w1) \<Rightarrow> (Inl (Error ''GitHub CLI (gh) not found''), w1)
      | (True, w1) \<Rightarrow>
         (case getRepoInfo sh w1 of
            (None, w2) \<Rightarrow> (Inl (Error ''Not in a git repository with GitHub remote''), w2)
          | (Some ri, w2) \<Rightarrow>
             (case pullLoop sh ri (tasks data)
                     \<lparr> world = w2, results = \<lparr> pull_updated = [], pull_errors = [] \<rparr>,
                       console = [Pulling (repo_owner ri) (repo ri)] \<rparr> of
                (ts', s) \<Rightarrow> (Inr (data\<lparr>tasks := ts'\<rparr>, results s, console s), world s))))"


section \<open>The dispatch of the sync commands\<close>

text \<open>
  How the process ends: its exit code, the exception nobody caught if there was one (the
  runtime then exits with code 1), the document in memory, what \<open>saveData\<close> wrote, the
  world outside, and the two console streams.
\<close>

record 'w outcome =
  exit_code :: nat
  uncaught :: "exception option"
  memory :: document
  saved :: "document option"
  outside :: 'w
  stderr :: "message list"
  stdout :: "message list"

definition case_push :: "'w shell \<Rightarrow> string list \<Rightarrow> config option \<Rightarrow> document \<Rightarrow> 'w \<Rightarrow> 'w outcome" where
  "case_push sh args cfg data w =
     (case checkGhCli sh w of
        (False, w1) \<Rightarrow>
          \<lparr> exit_code = 1, uncaught = None, memory = data, saved = None, outside = w1,
            stderr = [GhNotFound], stdout = [] \<rparr>
      | (True, w1) \<Rightarrow>
         (case syncToGitHub sh data cfg
                 \<lparr> sprintOnly = (''--all'' \<notin> set args), status_option = None \<rparr> w1 of
            (Inl e, w2) \<Rightarrow>
              \<lparr> exit_code = 1, uncaught = Some e, memory = data, saved = None, outside = w2,
                stderr = [], stdout = [] \<rparr>
          | (Inr (data1, res, lines), w2) \<Rightarrow>
              (let data2 = saveData (clock sh w2) data1
               in \<lparr> exit_code = 0, uncaught = None, memory = data2, saved = Some data2,
                    outside = w2, stderr = [],
                    stdout = lines @ [PushSummary (length (created res)) (length (updated res))]
                      @ (if errors res \<noteq> [] then [PushErrors (length (errors res))] else []) \<rparr>)))"

definition case_pull :: "'w shell \<Rightarrow> string list \<Rightarrow> config option \<Rightarrow> document \<Rightarrow> 'w \<Rightarrow> 'w outcome" where
  "case_pull sh args cfg data w =
     (case checkGhCli sh w of
        (False, w1) \<Rightarrow>
          \<lparr> exit_code = 1, uncaught = None, memory = data, saved = None, outside = w1,
            stderr = [GhNotFound], stdout = [] \<rparr>
      | (True, w1) \<Rightarrow>
         (case pullFromGitHub sh data cfg w1 of
            (Inl e, w2) \<Rightarrow>
              \<lparr> exit_code = 1, uncaught = Some e, memory = data, saved = None, outside = w2,
                stderr = [], stdout = [] \<rparr>
          | (Inr (data1, res, lines), w2) \<Rightarrow>
              (let data2 = saveData (clock sh w2) data1
               in \<lparr> exit_code = 0, uncaught = None, memory = data2, saved = Some data2,
                    outside = w2, stderr = [],
                    stdout = lines @ [PullSummary (length (pull_updated res))]
                      @ (if pull_errors res \<noteq> [] then [PullErrors (length (pull_errors res))]
                         else []) \<rparr>)))"

definition case_link :: "'w shell \<Rightarrow> string list \<Rightarrow> config option \<Rightarrow> document \<Rightarrow> 'w \<Rightarrow> 'w outcome" where
  \<comment> \<open>\<open>args[0]\<close> is the command; a missing argument is \<open>undefined\<close>, which \<open>parseInt\<close>
      reads as \<open>NaN\<close>\<close>
  "case_link sh args cfg data w =
     (let taskId = nth_opt args 1;
          issueNum = (case nth_opt args 2 of None \<Rightarrow> NaN | Some a \<Rightarrow> parseInt a)
      in if \<not> truthy_str taskId \<or> \<not> truthy_num issueNum then
           \<lparr> exit_code = 1, uncaught = None, memory = data, saved = None, outside = w,
             stderr = [UsageLink], stdout = [] \<rparr>
         else
           (case findIndex (matches_id (case taskId of Some i \<Rightarrow> i | None \<Rightarrow> [])) (tasks data) of
              None \<Rightarrow>
                \<lparr> exit_code = 1, uncaught = None, memory = data, saved = None, outside = w,
                  stderr = [TaskNotFound (case taskId of Some i \<Rightarrow> i | None \<Rightarrow> [])], stdout = [] \<rparr>
            | Some i \<Rightarrow>
               (case getRepoInfo sh w of
                  (Some ri, w1) \<Rightarrow>
                    (let url = ''https://github.com/'' @ repo_owner ri @ ''/'' @ repo ri @ ''/issues/''
                                 @ String issueNum;
                         t' = (tasks data ! i)\<lparr>githubIssue := Some issueNum, githubUrl := Some url\<rparr>;
                         data' = saveData (clock sh w1) (data\<lparr>tasks := (tasks data)[i := t']\<rparr>)
                     in \<lparr> exit_code = 0, uncaught = None, memory = data', saved = Some data',
                          outside = w1, stderr = [],
                          stdout = [Linked (task_id t') issueNum, LinkedUrl url] \<rparr>)
                | (None, w1) \<Rightarrow>
                    (let t' = (tasks data ! i)\<lparr>githubIssue := Some issueNum\<rparr>;
                         data' = saveData (clock sh w1) (data\<lparr>tasks := (tasks data)[i := t']\<rparr>)
                     in \<lparr> exit_code = 0, uncaught = None, memory = data', saved = Some data',
                          outside = w1, stderr = [], stdout = [Linked (task_id t') issueNum] \<rparr>))))"

section \<open>Specification-level notions and sample documents\<close>

definition plain_digits :: "string \<Rightarrow> bool" where
  "plain_digits s = (\<forall>c \<in> set s. \<exists>d < 10. c = digit_chars ! d)"

text \<open>
  The width rule of a cell, in the words of the specification: the left-most \<open>w\<close> units of
  a content that is at least \<open>w\<close> long, the content followed by spaces otherwise.
\<close>

definition fit :: "nat \<Rightarrow> string \<Rightarrow> string" where
  "fit w s = (if w \<le> length s then take w s else s @ replicate (w - length s) CHR '' '')"

text \<open>
  The number the program reads from an id under a prefix, when it is a finite number, and
  the condition that each of the ids under the prefix reads as a finite number below a
  bound.
\<close>

definition suffix :: "string \<Rightarrow> string \<Rightarrow> int" where
  "suffix prefix i = (case id_number prefix i of Num k \<Rightarrow> k | _ \<Rightarrow> 0)"

definition max_suffix :: "string \<Rightarrow> task list \<Rightarrow> int" where
  \<comment> \<open>the maximum of 0 and the numbers of the ids under the prefix\<close>
  "max_suffix prefix ts =
     Max (insert 0 ((\<lambda>u. suffix prefix (task_id u)) ` {u \<in> set ts. startsWith (task_id u) prefix}))"

definition suffixes_below :: "string \<Rightarrow> task list \<Rightarrow> int \<Rightarrow> bool" where
  "suffixes_below prefix ts b =
     (\<forall>u \<in> set ts. startsWith (task_id u) prefix \<longrightarrow>
        (case id_number prefix (task_id u) of Num k \<Rightarrow> k < b | _ \<Rightarrow> False))"

text \<open>
  The points of a task as a whole number (none count 0), for the sums of the
  specification.
\<close>

definition points_value :: "task \<Rightarrow> int" where
  "points_value t = (case points t of None \<Rightarrow> 0 | Some n \<Rightarrow> n)"

text \<open>
  What the processing of one task by push adds to the three result lists, in the world
  \<open>w\<close> it starts in: a linked task adds an update when its issue state could be read
  and differs from the task's; a task that is not linked adds a creation when its issue
  was created, and an error when the creation failed. Nothing else adds an error.
\<close>

definition push_created :: "'w shell \<Rightarrow> repoInfo \<Rightarrow> task \<Rightarrow> 'w \<Rightarrow> created_entry list" where
  "push_created sh ri t w =
     (if truthy_issue (githubIssue t) then []
      else (case fst (createIssue sh t ri [] w) of
              Inl msg \<Rightarrow> []
            | Inr i \<Rightarrow> [(task_id t, issue_number i, issue_url i)]))"

definition push_updated :: "'w shell \<Rightarrow> repoInfo \<Rightarrow> task \<Rightarrow> 'w \<Rightarrow> updated_entry list" where
  "push_updated sh ri t w =
     (if truthy_issue (githubIssue t) then
        (case fst (getIssueStatus sh (issue_of t) ri w) of
           None \<Rightarrow> []
         | Some st \<Rightarrow>
             if status t = ''done'' \<and> state st \<noteq> ''CLOSED'' then [(task_id t, ''closed'')]
             else if status t \<noteq> ''done'' \<and> state st = ''CLOSED'' then [(task_id t, ''reopened'')]
             else [])
      else [])"

definition push_errors :: "'w shell \<Rightarrow> repoInfo \<Rightarrow> task \<Rightarrow> 'w \<Rightarrow> error_entry list" where
  "push_errors sh ri t w =
     (if truthy_issue (githubIssue t) then []
      else (case fst (createIssue sh t ri [] w) of
              Inl msg \<Rightarrow> [(task_id t, msg)]
            | Inr i \<Rightarrow> []))"

definition push_results_of ::
  "exception + document \<times> push_results \<times> message list \<Rightarrow> push_results option" where
  \<comment> \<open>the result lists of a push that returned\<close>
  "push_results_of r = (case r of Inl e \<Rightarrow> None | Inr (d, res, lines) \<Rightarrow> Some res)"

text \<open>
  A sample engine: the keys of \<open>Object.prototype\<close> and of \<open>Array.prototype\<close> with the text
  of the values of the former, a longest string of \<open>2^29 - 24\<close> units and calls of up to
  65535 arguments.
\<close>

definition native :: "string \<Rightarrow> string" where
  "native name = ''function '' @ name @ ''() { [native code] }''"

definition sample_engine :: engine where
  "sample_engine =
     \<lparr> object_prototype = map_of
         [(''constructor'', native ''Object''),
          (''__defineGetter__'', native ''__defineGetter__''),
          (''__defineSetter__'', native ''__defineSetter__''),
          (''hasOwnProperty'', native ''hasOwnProperty''),
          (''__lookupGetter__'', native ''__lookupGetter__''),
          (''__lookupSetter__'', native ''__lookupSetter__''),
          (''isPrototypeOf'', native ''isPrototypeOf''),
          (''propertyIsEnumerable'', native ''propertyIsEnumerable''),
          (''toString'', native ''toString''),
          (''valueOf'', native ''valueOf''),
          (''toLocaleString'', native ''toLocaleString''),
          (''__proto__'', ''[object Object]'')],
       array_prototype = (\<lambda>k. k \<in> set
         [''constructor'', ''at'', ''concat'', ''copyWithin'', ''fill'', ''find'', ''findIndex'',
          ''findLast'', ''findLastIndex'', ''lastIndexOf'', ''pop'', ''push'', ''reverse'',
          ''shift'', ''unshift'', ''slice'', ''sort'', ''splice'', ''includes'', ''indexOf'',
          ''join'', ''keys'', ''entries'', ''values'', ''forEach'', ''filter'', ''flat'',
          ''flatMap'', ''map'', ''every'', ''some'', ''reduce'', ''reduceRight'',
          ''toLocaleString'', ''toString'', ''toReversed'', ''toSorted'', ''toSpliced'',
          ''with'']),
       max_string_length = 536870888,
       max_arguments = 65535 \<rparr>"




text \<open>The three numbers of the progress line of a board that was rendered.\<close>

definition summary_of :: "exception + board \<Rightarrow> (jsnum \<times> jsnum \<times> jsnum) option" where
  "summary_of r =
     (case r of Inl e \<Rightarrow> None | Inr b \<Rightarrow> Some (shown_done b, shown_total b, shown_progress b))"

definition sample_task :: "string \<Rightarrow> string \<Rightarrow> string \<Rightarrow> int \<Rightarrow> task" where
  "sample_task i st sp p =
     \<lparr> task_id = i, title = ''Sample'', task_type = ''feature'', status = st,
       priority = ''medium'', points = Some p, sprint = sp, owner = None, branch = None,
       worktree = None, task_notes = None, linkedTD = None, acceptanceCriteria = [],
       blockers = [], createdAt = ''2026-01-18'', completedAt = None, githubIssue = None,
       githubUrl = None \<rparr>"

definition sample_doc :: "task list \<Rightarrow> document" where
  "sample_doc ts =
     \<lparr> project = ''Demo'', version = Some ''1.0.0'', currentSprint = ''1'',
       sprintStart = ''2026-01-18'', sprintEnd = ''2026-01-31'',
       capacity = \<lparr> totalHours = 80, committed = 64, buffer = 16 \<rparr>,
       tasks = ts, technicalDebt = [], lastUpdated = ''2026-01-18T15:30:00.000Z'' \<rparr>"


definition move_doc :: document where
  "move_doc = sample_doc
     [(sample_task ''TASK-001'' ''done'' ''1'' 3)\<lparr>completedAt := Some ''2026-01-20''\<rparr>,
      sample_task ''TASK-002'' ''ready'' ''1'' 5]"

definition t1 :: string where "t1 = ''2026-02-03T10:00:00.000Z''"
definition t2 :: string where "t2 = ''2026-02-03T10:00:00.002Z''"
definition t3 :: string where "t3 = ''2026-02-04T08:30:00.000Z''"

definition add_doc :: document where
  "add_doc = sample_doc [sample_task ''TASK-001'' ''done'' ''1'' 3,
      sample_task ''TASK-007'' ''ready'' ''1'' 5, sample_task ''BUG-020'' ''ready'' ''1'' 1]"

definition progress_doc :: document where
  "progress_doc = sample_doc [sample_task ''TASK-001'' ''done'' ''1'' 3,
      sample_task ''TASK-002'' ''in_progress'' ''1'' 5, sample_task ''TASK-003'' ''done'' ''1'' 0,
      sample_task ''TASK-004'' ''done'' ''2'' 8]"

definition negative_doc :: document where
  \<comment> \<open>one done task of the sprint with \<open>-5\<close> points, which is what
      \<open>sprint edit task-001 points -5\<close> stores\<close>
  "negative_doc = sample_doc [sample_task ''TASK-001'' ''done'' ''1'' (- 5)]"

definition large_doc :: document where
  \<comment> \<open>two tasks of the sprint whose points are below \<open>2^53\<close> and add up to \<open>2^53 + 9\<close>\<close>
  "large_doc = sample_doc [sample_task ''TASK-001'' ''done'' ''1'' 45035996273705,
      sample_task ''TASK-002'' ''ready'' ''1'' 8962163258467296]"


definition last_id_doc :: document where
  \<comment> \<open>a task whose number is \<open>2^53\<close>\<close>
  "last_id_doc = sample_doc [sample_task ''TASK-9007199254740992'' ''ready'' ''1'' 3]"

definition bug_config :: config where
  "bug_config =
     \<lparr> projectName = ''Demo'', dataFile = None, boardFile = None, taskPrefix = Some ''bug'',
       columns = None, githubProject_number = None \<rparr>"

definition debt_doc :: document where
  "debt_doc = (sample_doc [])\<lparr>technicalDebt :=
      [\<lparr> td_id = ''TD-001'', td_status = ''partial'', progress = Some 104, linkedTask = None \<rparr>]\<rparr>"

section \<open>Sample shells\<close>

text \<open>
  A world that counts the issues created so far. The client is present, the remote is
  \<open>acme/app\<close>, creating the issue of \<open>TASK-002\<close> fails, issue 5 is closed, issue 6 is
  open and the state of any other issue cannot be fetched.
\<close>

definition sample_shell :: "nat shell" where
  "sample_shell =
     \<lparr> clock = (\<lambda>w. ''2026-02-03T09:00:00.000Z''),
       gh_version = (\<lambda>w. (True, w)),
       git_remote = (\<lambda>w. (Some \<lparr> repo_owner = ''acme'', repo = ''app'' \<rparr>, w)),
       gh_label_create = (\<lambda>label ri w. w),
       gh_issue_create = (\<lambda>t ri labels w.
          if task_id t = ''TASK-002'' then (Inl ''Command failed: gh issue create'', w)
          else (Inr (''https://github.com/acme/app/issues/'' @ decimal (int w + 1) @ [CHR 0x0A]),
                w + 1)),
       gh_issue_close = (\<lambda>n ri w. (True, w)),
       gh_issue_reopen = (\<lambda>n ri w. (True, w)),
       gh_issue_view = (\<lambda>n ri w.
          (if n = Num 5 then Some \<lparr> state = ''CLOSED'', issue_title = ''Five'' \<rparr>
           else if n = Num 6 then Some \<lparr> state = ''OPEN'', issue_title = ''Six'' \<rparr>
           else None, w)),
       gh_project_item_add = (\<lambda>u n own w. (True, w)) \<rparr>"

definition no_gh_shell :: "nat shell" where
  \<comment> \<open>the same, with the client absent\<close>
  "no_gh_shell = sample_shell\<lparr>gh_version := (\<lambda>w. (False, w))\<rparr>"

definition close_fails_shell :: "nat shell" where
  \<comment> \<open>the sample shell, with every \<open>gh issue close\<close> failing\<close>
  "close_fails_shell = sample_shell\<lparr>gh_issue_close := (\<lambda>n ri w. (False, w))\<rparr>"

definition push_doc :: document where
  "push_doc = sample_doc [sample_task ''TASK-001'' ''ready'' ''1'' 3,
      sample_task ''TASK-002'' ''ready'' ''1'' 5, sample_task ''TASK-003'' ''done'' ''1'' 2]"

definition pull_doc :: document where
  "pull_doc = sample_doc
     [(sample_task ''TASK-001'' ''in_progress'' ''1'' 3)
        \<lparr>completedAt := Some ''2026-01-20'', githubIssue := Some (Num 5)\<rparr>,
      (sample_task ''TASK-002'' ''done'' ''1'' 5)
        \<lparr>completedAt := Some ''2026-01-22'', githubIssue := Some (Num 6)\<rparr>,
      (sample_task ''TASK-003'' ''ready'' ''1'' 2)\<lparr>githubIssue := Some (Num 7)\<rparr>,
      sample_task ''TASK-004'' ''ready'' ''1'' 1]"

definition acme_app :: repoInfo where
  "acme_app = \<lparr> repo_owner = ''acme'', repo = ''app'' \<rparr>"

definition push_start :: "(nat, push_results) run" where
  "push_start = \<lparr> world = 0, results = \<lparr> created = [], updated = [], errors = [] \<rparr>, console = [] \<rparr>"

definition create_failed :: string where
  "create_failed = ''Failed to create issue: Command failed: gh issue create''"

definition pull_start :: "(nat, pull_results) run" where
  "pull_start = \<lparr> world = 0, results = \<lparr> pull_updated = [], pull_errors = [] \<rparr>, console = [] \<rparr>"

section \<open>Properties\<close>


subsection \<open>The board grid\<close>

lemma length_fit: "length (fit w s) = w"
  by (simp add: fit_def)






lemma push_task_plain:
  assumes "proto_list g = None"
  shows "push_task eng t g =
     (if status t \<in> dom (own_lists g)
      then Inr (g\<lparr>own_lists := (own_lists g)(status t \<mapsto> the (own_lists g (status t)) @ [t])\<rparr>)
      else if object_prototype eng (status t) \<noteq> None then Inl TypeError else Inr g)"
  using assms by (auto simp: push_task_def split: option.splits)


lemma push_task_Inr:
  assumes "proto_list g = None" and "push_task eng t g = Inr g1"
  shows "proto_list g1 = None \<and> dom (own_lists g1) = dom (own_lists g)
     \<and> (status t \<in> dom (own_lists g) \<or> object_prototype eng (status t) = None)"
proof (cases "status t \<in> dom (own_lists g)")
  case True
  then have "dom ((own_lists g)(status t \<mapsto> the (own_lists g (status t)) @ [t])) = dom (own_lists g)"
    by auto
  with True assms show ?thesis
    by (auto simp: push_task_plain)
next
  case False
  with assms show ?thesis
    by (auto simp: push_task_plain split: if_splits)
qed










subsection \<open>Moving a task\<close>

lemma findIndex_None: "findIndex P xs = None \<longleftrightarrow> (\<forall>x \<in> set xs. \<not> P x)"
  by (induction xs) auto

lemma findIndex_Some:
  "findIndex P xs = Some i \<Longrightarrow> i < length xs \<and> P (xs ! i) \<and> (\<forall>k < i. \<not> P (xs ! k))"
proof (induction xs arbitrary: i)
  case Nil
  then show ?case by simp
next
  case (Cons x xs)
  show ?case
  proof (cases "P x")
    case True
    with Cons.prems show ?thesis by simp
  next
    case False
    with Cons.prems obtain j where j: "findIndex P xs = Some j" "i = Suc j"
      by auto
    from Cons.IH[OF j(1)] False j(2) show ?thesis
      by (auto simp: nth_Cons split: nat.splits)
  qed
qed

lemma cmdMove_failed:
  "newStatus \<notin> set (config_columns cfg) \<or> (\<forall>t \<in> set (tasks data). \<not> matches_id taskId t)
   \<Longrightarrow> cmdMove st sv data cfg taskId newStatus =
        failed data (if newStatus \<notin> set (config_columns cfg)
                     then InvalidStatus (config_columns cfg) else TaskNotFound taskId)"
  by (auto simp: cmdMove_def Let_def findIndex_None[symmetric])

lemma cmdMove_failed_error:
  "newStatus \<notin> set (config_columns cfg) \<or> (\<forall>t \<in> set (tasks data). \<not> matches_id taskId t)
   \<Longrightarrow> console_error (cmdMove st sv data cfg taskId newStatus) \<noteq> []"
  by (simp add: cmdMove_failed failed_def)

lemma cmdMove_moved:
  assumes "newStatus \<in> set (config_columns cfg)" and "findIndex (matches_id taskId) (tasks data) = Some i"
  shows "cmdMove st sv data cfg taskId newStatus =
     (let t = tasks data ! i;
          c = (if newStatus = ''done'' \<and> \<not> truthy_str (completedAt t)
               then Some (isoDate st) else completedAt t);
          d = data\<lparr>tasks := (tasks data)[i := t\<lparr>status := newStatus, completedAt := c\<rparr>],
                     lastUpdated := sv\<rparr>
      in \<lparr> doc = d, written = Some d, console_error = [],
           console_log = [Moved (task_id t) (status t) newStatus] \<rparr>)"
  using assms by (simp add: cmdMove_def Let_def saveData_def)

lemma cmdMove_keeps_length: "length (tasks (doc (cmdMove st sv data cfg taskId newStatus))) = length (tasks data)"
  by (auto simp: cmdMove_def Let_def saveData_def failed_def split: option.splits)

lemma cmdMove_keeps_completedAt:
  assumes "j < length (tasks data)" and "truthy_str (completedAt (tasks data ! j))"
  shows "completedAt (tasks (doc (cmdMove st sv data cfg taskId newStatus)) ! j) = completedAt (tasks data ! j)"
proof (cases "newStatus \<in> set (config_columns cfg)")
  case False
  then show ?thesis by (simp add: cmdMove_failed failed_def)
next
  case True
  show ?thesis
  proof (cases "findIndex (matches_id taskId) (tasks data)")
    case None
    then show ?thesis by (simp add: cmdMove_def Let_def failed_def)
  next
    case (Some i)
    from findIndex_Some[OF Some] have "i < length (tasks data)" by simp
    with assms show ?thesis
      by (cases "i = j") (simp_all add: cmdMove_moved[OF True Some] Let_def)
  qed
qed

lemma cmdMove_seq_keeps_length: "length (tasks (cmdMove_seq data cfg ms)) = length (tasks data)"
  by (induction data cfg ms rule: cmdMove_seq.induct) (simp_all add: cmdMove_keeps_length)

lemma cmdMove_seq_keeps_completedAt:
  "j < length (tasks data) \<Longrightarrow> truthy_str (completedAt (tasks data ! j))
   \<Longrightarrow> completedAt (tasks (cmdMove_seq data cfg ms) ! j) = completedAt (tasks data ! j)"
proof (induction data cfg ms rule: cmdMove_seq.induct)
  case (1 data cfg)
  then show ?case by simp
next
  case (2 data cfg stamp_time save_time taskId newStatus ms)
  let ?d = "doc (cmdMove stamp_time save_time data cfg taskId newStatus)"
  have k: "completedAt (tasks ?d ! j) = completedAt (tasks data ! j)"
    using 2(2,3) by (rule cmdMove_keeps_completedAt)
  have "completedAt (tasks (cmdMove_seq ?d cfg ms) ! j) = completedAt (tasks ?d ! j)"
    using 2(2,3) by (intro 2(1)) (simp_all add: cmdMove_keeps_length k)
  with k show ?case by simp
qed

text \<open>
  Claim C1. \<open>cmdMove\<close> fails when the target status is not a configured column or when no
  task's id equals the given id up to letter case: it reports one error, leaves the
  document as it was and does not save. Otherwise it succeeds on the first task \<open>i\<close>
  whose id matches: the task list keeps its length, task \<open>i\<close> gets the target status, its
  \<open>completedAt\<close> becomes today's date exactly when the target is \<open>done\<close> and
  \<open>completedAt\<close> was unset (absent, \<open>null\<close> or empty) and keeps its value otherwise,
  no error is reported, and the document is saved as it stands in memory. And a
  \<open>completedAt\<close> that is set is the same after any sequence of moves, so also after
  moving away from \<open>done\<close> and back.
\<close>

theorem cmdMove_spec:
  "(newStatus \<notin> set (config_columns cfg) \<or> (\<forall>t \<in> set (tasks data). \<not> matches_id taskId t)
      \<longrightarrow> doc (cmdMove st sv data cfg taskId newStatus) = data
          \<and> written (cmdMove st sv data cfg taskId newStatus) = None
          \<and> console_error (cmdMove st sv data cfg taskId newStatus) =
              [if newStatus \<notin> set (config_columns cfg)
               then InvalidStatus (config_columns cfg) else TaskNotFound taskId])
   \<and> (newStatus \<in> set (config_columns cfg) \<and> (\<exists>t \<in> set (tasks data). matches_id taskId t)
      \<longrightarrow> (\<exists>i < length (tasks data).
             matches_id taskId (tasks data ! i)
           \<and> (\<forall>k < i. \<not> matches_id taskId (tasks data ! k))
           \<and> length (tasks (doc (cmdMove st sv data cfg taskId newStatus))) = length (tasks data)
           \<and> status (tasks (doc (cmdMove st sv data cfg taskId newStatus)) ! i) = newStatus
           \<and> completedAt (tasks (doc (cmdMove st sv data cfg taskId newStatus)) ! i) =
               (if newStatus = ''done'' \<and> \<not> truthy_str (completedAt (tasks data ! i))
                then Some (isoDate st) else completedAt (tasks data ! i))
           \<and> written (cmdMove st sv data cfg taskId newStatus) =
               Some (doc (cmdMove st sv data cfg taskId newStatus))
           \<and> console_error (cmdMove st sv data cfg taskId newStatus) = []))
   \<and> (\<forall>j < length (tasks data). truthy_str (completedAt (tasks data ! j))
      \<longrightarrow> completedAt (tasks (cmdMove_seq data cfg ms) ! j) = completedAt (tasks data ! j))"
proof (intro conjI impI allI)
  assume "newStatus \<notin> set (config_columns cfg) \<or> (\<forall>t \<in> set (tasks data). \<not> matches_id taskId t)"
  from cmdMove_failed[OF this, of st sv]
  show "doc (cmdMove st sv data cfg taskId newStatus) = data"
    and "written (cmdMove st sv data cfg taskId newStatus) = None"
    and "console_error (cmdMove st sv data cfg taskId newStatus) =
              [if newStatus \<notin> set (config_columns cfg)
               then InvalidStatus (config_columns cfg) else TaskNotFound taskId]"
    by (simp_all add: failed_def)
next
  assume a: "newStatus \<in> set (config_columns cfg) \<and> (\<exists>t \<in> set (tasks data). matches_id taskId t)"
  then obtain i where i: "findIndex (matches_id taskId) (tasks data) = Some i"
    using findIndex_None[of "matches_id taskId" "tasks data"] by (cases "findIndex (matches_id taskId) (tasks data)") auto
  from a have v: "newStatus \<in> set (config_columns cfg)" by simp
  from findIndex_Some[OF i] cmdMove_moved[OF v i, of st sv]
  show "\<exists>i < length (tasks data).
             matches_id taskId (tasks data ! i)
           \<and> (\<forall>k < i. \<not> matches_id taskId (tasks data ! k))
           \<and> length (tasks (doc (cmdMove st sv data cfg taskId newStatus))) = length (tasks data)
           \<and> status (tasks (doc (cmdMove st sv data cfg taskId newStatus)) ! i) = newStatus
           \<and> completedAt (tasks (doc (cmdMove st sv data cfg taskId newStatus)) ! i) =
               (if newStatus = ''done'' \<and> \<not> truthy_str (completedAt (tasks data ! i))
                then Some (isoDate st) else completedAt (tasks data ! i))
           \<and> written (cmdMove st sv data cfg taskId newStatus) =
               Some (doc (cmdMove st sv data cfg taskId newStatus))
           \<and> console_error (cmdMove st sv data cfg taskId newStatus) = []"
    by (intro exI[of _ i]) (simp add: Let_def)
next
  fix j assume "j < length (tasks data)" "truthy_str (completedAt (tasks data ! j))"
  then show "completedAt (tasks (cmdMove_seq data cfg ms) ! j) = completedAt (tasks data ! j)"
    by (rule cmdMove_seq_keeps_completedAt)
qed


text \<open>
  An invalid status, a move to \<open>done\<close> found by a lower-case id, and a completed task
  moved away from \<open>done\<close> and back on a later day.
\<close>

theorem cmdMove_spec_witness:
  "''blocked'' \<notin> set (config_columns None)
   \<and> doc (cmdMove t1 t2 move_doc None ''TASK-002'' ''blocked'') = move_doc
   \<and> written (cmdMove t1 t2 move_doc None ''TASK-002'' ''blocked'') = None
   \<and> console_error (cmdMove t1 t2 move_doc None ''TASK-002'' ''blocked'') =
        [InvalidStatus default_columns]
   \<and> ''done'' \<in> set (config_columns None)
   \<and> matches_id ''task-002'' (tasks move_doc ! 1)
   \<and> status (tasks (doc (cmdMove t1 t2 move_doc None ''task-002'' ''done'')) ! 1) = ''done''
   \<and> completedAt (tasks (doc (cmdMove t1 t2 move_doc None ''task-002'' ''done'')) ! 1) =
        Some ''2026-02-03''
   \<and> written (cmdMove t1 t2 move_doc None ''task-002'' ''done'') =
        Some (doc (cmdMove t1 t2 move_doc None ''task-002'' ''done''))
   \<and> truthy_str (completedAt (tasks move_doc ! 0))
   \<and> completedAt (tasks (cmdMove_seq move_doc None
        [(t1, t2, ''TASK-001'', ''in_progress''), (t3, t3, ''task-001'', ''done'')]) ! 0) =
        Some ''2026-01-20''"
proof -
  have cols: "config_columns None = default_columns"
    by (simp add: config_columns_def)
  have h1: "''blocked'' \<notin> set (config_columns None)"
    by (simp add: cols default_columns_def)
  have h2: "''done'' \<in> set (config_columns None)"
    by (simp add: cols default_columns_def)
  have len: "length (tasks move_doc) = 2"
    by (simp add: move_doc_def sample_doc_def)
  have m0: "\<not> matches_id ''task-002'' (tasks move_doc ! 0)"
    by code_simp
  have m1: "matches_id ''task-002'' (tasks move_doc ! 1)"
    by code_simp
  have h3: "\<exists>t \<in> set (tasks move_doc). matches_id ''task-002'' t"
    using m1 len by (metis nth_mem one_less_numeral_iff semiring_norm(76))
  have c1: "completedAt (tasks move_doc ! 1) = None"
    by (simp add: move_doc_def sample_doc_def sample_task_def)
  have c0: "completedAt (tasks move_doc ! 0) = Some ''2026-01-20''"
    by (simp add: move_doc_def sample_doc_def sample_task_def)
  have day: "isoDate t1 = ''2026-02-03''"
    by (simp add: isoDate_def t1_def)
  note spec = cmdMove_spec[of _ None move_doc _ t1 t2]
  from spec[of "''blocked''" "''TASK-002''" "[]"] h1
  have A: "doc (cmdMove t1 t2 move_doc None ''TASK-002'' ''blocked'') = move_doc
     \<and> written (cmdMove t1 t2 move_doc None ''TASK-002'' ''blocked'') = None
     \<and> console_error (cmdMove t1 t2 move_doc None ''TASK-002'' ''blocked'') =
          [InvalidStatus default_columns]"
    by (simp add: cols)
  let ?r = "cmdMove t1 t2 move_doc None ''task-002'' ''done''"
  from spec[of "''done''" "''task-002''" "[]"] h2 h3
  obtain i where i: "i < length (tasks move_doc)" "matches_id ''task-002'' (tasks move_doc ! i)"
      "status (tasks (doc ?r) ! i) = ''done''"
      "completedAt (tasks (doc ?r) ! i) =
         (if ''done'' = ''done'' \<and> \<not> truthy_str (completedAt (tasks move_doc ! i))
          then Some (isoDate t1) else completedAt (tasks move_doc ! i))"
      "written ?r = Some (doc ?r)"
    by blast
  from i(1,2) m0 len have "i = 1"
    by (cases i) auto
  with i c1 day have B: "status (tasks (doc ?r) ! 1) = ''done''
      \<and> completedAt (tasks (doc ?r) ! 1) = Some ''2026-02-03'' \<and> written ?r = Some (doc ?r)"
    by simp
  have t0: "truthy_str (completedAt (tasks move_doc ! 0))"
    by (simp add: c0)
  from spec[of "''done''" "''task-002''"
      "[(t1, t2, ''TASK-001'', ''in_progress''), (t3, t3, ''task-001'', ''done'')]"] t0 len
  have C: "completedAt (tasks (cmdMove_seq move_doc None
        [(t1, t2, ''TASK-001'', ''in_progress''), (t3, t3, ''task-001'', ''done'')]) ! 0) =
        Some ''2026-01-20''"
    by (simp add: c0)
  from h1 h2 m1 t0 A B C show ?thesis
    by simp
qed

lemma task_reset:
  "(t\<lparr>status := s, completedAt := c\<rparr>)\<lparr>status := status t, completedAt := completedAt t\<rparr> = (t::task)"
  by simp

text \<open>
  Claim C9. A move that reports no error changes the document in three places at most:
  the status of one task \<open>i\<close>, the \<open>completedAt\<close> of that task (only when the target is
  \<open>done\<close> and it was unset), and \<open>lastUpdated\<close>. Every other task is unchanged, the
  moved task with its old status and \<open>completedAt\<close> put back is the old task, and the
  technical debt, the capacity and the sprint data are unchanged.
\<close>

theorem cmdMove_frame:
  "console_error (cmdMove st sv data cfg taskId newStatus) = [] \<longrightarrow>
     (\<exists>i c. i < length (tasks data) \<and>
        doc (cmdMove st sv data cfg taskId newStatus) =
          data\<lparr>tasks := (tasks data)[i := (tasks data ! i)\<lparr>status := newStatus, completedAt := c\<rparr>],
               lastUpdated := sv\<rparr>
      \<and> (c \<noteq> completedAt (tasks data ! i)
           \<longrightarrow> newStatus = ''done'' \<and> \<not> truthy_str (completedAt (tasks data ! i)))
      \<and> length (tasks (doc (cmdMove st sv data cfg taskId newStatus))) = length (tasks data)
      \<and> (\<forall>j < length (tasks data). j \<noteq> i
           \<longrightarrow> tasks (doc (cmdMove st sv data cfg taskId newStatus)) ! j = tasks data ! j)
      \<and> (tasks (doc (cmdMove st sv data cfg taskId newStatus)) ! i)
           \<lparr>status := status (tasks data ! i), completedAt := completedAt (tasks data ! i)\<rparr> =
         tasks data ! i
      \<and> technicalDebt (doc (cmdMove st sv data cfg taskId newStatus)) = technicalDebt data
      \<and> capacity (doc (cmdMove st sv data cfg taskId newStatus)) = capacity data
      \<and> project (doc (cmdMove st sv data cfg taskId newStatus)) = project data
      \<and> version (doc (cmdMove st sv data cfg taskId newStatus)) = version data
      \<and> currentSprint (doc (cmdMove st sv data cfg taskId newStatus)) = currentSprint data
      \<and> sprintStart (doc (cmdMove st sv data cfg taskId newStatus)) = sprintStart data
      \<and> sprintEnd (doc (cmdMove st sv data cfg taskId newStatus)) = sprintEnd data
      \<and> lastUpdated (doc (cmdMove st sv data cfg taskId newStatus)) = sv)"
proof
  assume ok: "console_error (cmdMove st sv data cfg taskId newStatus) = []"
  have v: "newStatus \<in> set (config_columns cfg)"
    using ok cmdMove_failed_error[of newStatus cfg data taskId st sv] by blast
  obtain i where i: "findIndex (matches_id taskId) (tasks data) = Some i"
    using ok cmdMove_failed_error[of newStatus cfg data taskId st sv]
    by (cases "findIndex (matches_id taskId) (tasks data)") (auto simp: findIndex_None)
  from findIndex_Some[OF i] have lt: "i < length (tasks data)" by simp
  let ?c = "if newStatus = ''done'' \<and> \<not> truthy_str (completedAt (tasks data ! i))
            then Some (isoDate st) else completedAt (tasks data ! i)"
  show "\<exists>i c. i < length (tasks data) \<and>
        doc (cmdMove st sv data cfg taskId newStatus) =
          data\<lparr>tasks := (tasks data)[i := (tasks data ! i)\<lparr>status := newStatus, completedAt := c\<rparr>],
               lastUpdated := sv\<rparr>
      \<and> (c \<noteq> completedAt (tasks data ! i)
           \<longrightarrow> newStatus = ''done'' \<and> \<not> truthy_str (completedAt (tasks data ! i)))
      \<and> length (tasks (doc (cmdMove st sv data cfg taskId newStatus))) = length (tasks data)
      \<and> (\<forall>j < length (tasks data). j \<noteq> i
           \<longrightarrow> tasks (doc (cmdMove st sv data cfg taskId newStatus)) ! j = tasks data ! j)
      \<and> (tasks (doc (cmdMove st sv data cfg taskId newStatus)) ! i)
           \<lparr>status := status (tasks data ! i), completedAt := completedAt (tasks data ! i)\<rparr> =
         tasks data ! i
      \<and> technicalDebt (doc (cmdMove st sv data cfg taskId newStatus)) = technicalDebt data
      \<and> capacity (doc (cmdMove st sv data cfg taskId newStatus)) = capacity data
      \<and> project (doc (cmdMove st sv data cfg taskId newStatus)) = project data
      \<and> version (doc (cmdMove st sv data cfg taskId newStatus)) = version data
      \<and> currentSprint (doc (cmdMove st sv data cfg taskId newStatus)) = currentSprint data
      \<and> sprintStart (doc (cmdMove st sv data cfg taskId newStatus)) = sprintStart data
      \<and> sprintEnd (doc (cmdMove st sv data cfg taskId newStatus)) = sprintEnd data
      \<and> lastUpdated (doc (cmdMove st sv data cfg taskId newStatus)) = sv"
    using lt by (intro exI[of _ i] exI[of _ ?c]) (simp add: cmdMove_moved[OF v i] Let_def)
qed

text \<open>The move of \<open>TASK-002\<close> to \<open>done\<close>: the other task and the rest of the document stay.\<close>

theorem cmdMove_frame_witness:
  "console_error (cmdMove t1 t2 move_doc None ''task-002'' ''done'') = []
   \<and> length (tasks (doc (cmdMove t1 t2 move_doc None ''task-002'' ''done''))) = 2
   \<and> technicalDebt (doc (cmdMove t1 t2 move_doc None ''task-002'' ''done'')) = []
   \<and> capacity (doc (cmdMove t1 t2 move_doc None ''task-002'' ''done'')) = capacity move_doc
   \<and> currentSprint (doc (cmdMove t1 t2 move_doc None ''task-002'' ''done'')) = ''1''
   \<and> lastUpdated (doc (cmdMove t1 t2 move_doc None ''task-002'' ''done'')) = t2
   \<and> tasks (doc (cmdMove t1 t2 move_doc None ''task-002'' ''done'')) ! 0 = tasks move_doc ! 0"
proof -
  have ok: "console_error (cmdMove t1 t2 move_doc None ''task-002'' ''done'') = []"
    by code_simp
  have same: "tasks (doc (cmdMove t1 t2 move_doc None ''task-002'' ''done'')) ! 0 = tasks move_doc ! 0"
    by code_simp
  have "length (tasks move_doc) = 2" "technicalDebt move_doc = []" "currentSprint move_doc = ''1''"
    by (simp_all add: move_doc_def sample_doc_def)
  with cmdMove_frame[of t1 t2 move_doc None "''task-002''" "''done''"] ok same
  show ?thesis by auto
qed
subsection \<open>Rounding to a double\<close>

lemma round_half_even_le: "y \<le> of_int m \<Longrightarrow> round_half_even y \<le> m"
proof -
  assume le: "y \<le> of_int m"
  then have f: "\<lfloor>y\<rfloor> \<le> m" by (simp add: floor_le_iff)
  show ?thesis
  proof (cases "\<lfloor>y\<rfloor> = m")
    case True
    with le have "y - of_int \<lfloor>y\<rfloor> \<le> 0" by simp
    then show ?thesis using True by (simp add: round_half_even_def Let_def)
  next
    case False
    with f have "\<lfloor>y\<rfloor> + 1 \<le> m" by simp
    with f show ?thesis by (simp add: round_half_even_def Let_def)
  qed
qed

lemma round_half_even_ge: "of_int m \<le> y \<Longrightarrow> m \<le> round_half_even y"
proof -
  assume "of_int m \<le> y"
  then have "m \<le> \<lfloor>y\<rfloor>" by (simp add: le_floor_iff)
  then show ?thesis by (simp add: round_half_even_def Let_def)
qed

lemma round_half_even_of_int: "round_half_even (of_int k) = k"
  by (simp add: round_half_even_def Let_def)

lemma round_half_even_nonneg: "0 \<le> y \<Longrightarrow> 0 \<le> round_half_even y"
  by (simp add: round_half_even_def Let_def)

lemma binade_lower:
  assumes "0 < x"
  shows "2 powi (binade x) \<le> x"
proof -
  obtain p q where pq: "quotient_of x = (p, q)" by (cases "quotient_of x")
  then have q: "0 < q" by (rule quotient_of_denom_pos)
  from pq have x: "x = of_int p / of_int q" by (rule quotient_of_div)
  with assms q have p: "0 < p" by (simp add: zero_less_divide_iff)
  let ?k = "bitlen p - bitlen q"
  show ?thesis
  proof (cases "2 powi ?k \<le> x")
    case True
    then show ?thesis by (simp add: binade_def pq)
  next
    case False
    from bitlen_bounds[OF p] have "2 ^ nat (bitlen p - 1) \<le> p" by simp
    then have lo: "(2::rat) ^ nat (bitlen p - 1) \<le> of_int p"
      by (metis of_int_le_iff of_int_numeral of_int_power)
    from bitlen_bounds[OF q] have "q < 2 ^ nat (bitlen q)" by simp
    then have hi: "of_int q \<le> (2::rat) ^ nat (bitlen q)"
      by (metis less_imp_le of_int_le_iff of_int_numeral of_int_power)
    have bp: "1 \<le> bitlen p" using p by (simp add: bitlen_alt_def)
    have bq: "0 \<le> bitlen q" by (rule bitlen_nonneg)
    have "(2::rat) powi (?k - 1) = 2 powi (bitlen p - 1) / 2 powi (bitlen q)"
      by (simp add: power_int_diff)
    also have "\<dots> = 2 ^ nat (bitlen p - 1) / 2 ^ nat (bitlen q)"
      using bp bq by (simp add: power_int_def)
    also have "\<dots> \<le> of_int p / of_int q"
      using lo hi q p by (intro frac_le) simp_all
    finally have "(2::rat) powi (?k - 1) \<le> x" by (simp only: x)
    moreover have "binade x = ?k - 1" using False by (simp add: binade_def pq)
    ultimately show ?thesis by simp
  qed
qed

lemma binade_upper:
  assumes "0 < x"
  shows "x < 2 powi (binade x + 1)"
proof -
  obtain p q where pq: "quotient_of x = (p, q)" by (cases "quotient_of x")
  then have q: "0 < q" by (rule quotient_of_denom_pos)
  from pq have x: "x = of_int p / of_int q" by (rule quotient_of_div)
  with assms q have p: "0 < p" by (simp add: zero_less_divide_iff)
  let ?k = "bitlen p - bitlen q"
  show ?thesis
  proof (cases "2 powi ?k \<le> x")
    case False
    then show ?thesis by (simp add: binade_def pq)
  next
    case True
    from bitlen_bounds[OF p] have "p < 2 ^ nat (bitlen p)" by simp
    then have hi: "of_int p < (2::rat) ^ nat (bitlen p)"
      by (metis of_int_less_iff of_int_numeral of_int_power)
    from bitlen_bounds[OF q] have "2 ^ nat (bitlen q - 1) \<le> q" by simp
    then have lo: "(2::rat) ^ nat (bitlen q - 1) \<le> of_int q"
      by (metis of_int_le_iff of_int_numeral of_int_power)
    have bq: "1 \<le> bitlen q" using q by (simp add: bitlen_alt_def)
    have bp: "0 \<le> bitlen p" by (rule bitlen_nonneg)
    have "x = of_int p / of_int q" by (rule x)
    also have "\<dots> < 2 ^ nat (bitlen p) / 2 ^ nat (bitlen q - 1)"
      using lo hi q p by (intro frac_less) simp_all
    also have "\<dots> = 2 powi (bitlen p) / 2 powi (bitlen q - 1)"
      using bp bq by (simp add: power_int_def)
    also have "\<dots> = (2::rat) powi (?k + 1)"
      by (simp add: power_int_diff power_int_add)
    finally have "x < 2 powi (?k + 1)" .
    moreover have "binade x = ?k" using True by (simp add: binade_def pq)
    ultimately show ?thesis by simp
  qed
qed

lemma binade_less:
  assumes "0 < x" and "x < 2 powi k"
  shows "binade x < k"
proof (rule ccontr)
  assume "\<not> binade x < k"
  then have "(2::rat) powi k \<le> 2 powi (binade x)"
    by (intro power_int_increasing) simp_all
  with binade_lower[OF assms(1)] assms(2) show False by simp
qed

lemma binade_ge:
  assumes "0 < x" and "2 powi k \<le> x"
  shows "k \<le> binade x"
proof (rule ccontr)
  assume "\<not> k \<le> binade x"
  then have "(2::rat) powi (binade x + 1) \<le> 2 powi k"
    by (intro power_int_increasing) simp_all
  with binade_upper[OF assms(1)] assms(2) show False by simp
qed

lemma ulp_pos: "0 < ulp x"
  by (simp add: ulp_def)

lemma to_double_nonneg: "0 \<le> x \<Longrightarrow> 0 \<le> to_double x"
  using ulp_pos[of x]
  by (auto simp: to_double_def sgn_if intro!: mult_nonneg_nonneg round_half_even_nonneg)

lemma to_double_minus: "to_double (- x) = - to_double x"
  by (simp add: to_double_def ulp_def sgn_minus)

lemma to_double_pos: "0 < x \<Longrightarrow> to_double x = of_int (round_half_even (x / ulp x)) * ulp x"
  by (simp add: to_double_def)

lemma ulp_small:
  assumes "0 < x" and "x < 2 ^ 53"
  shows "ulp x = 1 / 2 ^ nat (52 - max (binade x) (- 1022))"
proof -
  from assms(2) have "x < 2 powi 53" by simp
  from binade_less[OF assms(1) this] have e: "max (binade x) (- 1022) \<le> 52" by simp
  then show ?thesis
    using assms(1) by (simp add: ulp_def power_int_def inverse_eq_divide power_one_over)
qed

lemma to_double_le_int:
  assumes "0 \<le> x" and "x \<le> of_int n" and "n < 2 ^ 53"
  shows "to_double x \<le> of_int n"
proof (cases "x = 0")
  case True
  with assms show ?thesis by (simp add: to_double_def)
next
  case False
  with assms have pos: "0 < x" by simp
  have "of_int n < (2::rat) ^ 53"
    using assms(3) by (metis of_int_less_iff of_int_numeral of_int_power)
  with assms(2) have x53: "x < 2 ^ 53" by simp
  define j where "j = nat (52 - max (binade x) (- 1022))"
  have u: "ulp x = 1 / 2 ^ j"
    unfolding j_def by (rule ulp_small[OF pos x53])
  have "x / (1 / 2 ^ j) \<le> of_int (n * 2 ^ j)"
    using assms(2) by (simp add: mult_right_mono)
  from round_half_even_le[OF this]
  have "(of_int (round_half_even (x / (1 / 2 ^ j))) :: rat) \<le> of_int (n * 2 ^ j)"
    by (simp only: of_int_le_iff)
  then have "(of_int (round_half_even (x / (1 / 2 ^ j))) :: rat) * (1 / 2 ^ j) \<le> of_int (n * 2 ^ j) * (1 / 2 ^ j)"
    by (intro mult_right_mono) simp_all
  then show ?thesis
    unfolding to_double_pos[OF pos] u by simp
qed

lemma to_double_ge_int:
  assumes "of_int n \<le> x" and "0 < n" and "n \<le> 2 ^ 53"
  shows "of_int n \<le> to_double x"
proof -
  from assms(2) have "(0::rat) < of_int n" by simp
  with assms(1) have pos: "0 < x" by simp
  show ?thesis
  proof (cases "x < 2 ^ 53")
    case True
    define j where "j = nat (52 - max (binade x) (- 1022))"
    have u: "ulp x = 1 / 2 ^ j"
      unfolding j_def by (rule ulp_small[OF pos True])
    have "of_int (n * 2 ^ j) \<le> x / (1 / 2 ^ j)"
      using assms(1) by (simp add: mult_right_mono)
    from round_half_even_ge[OF this]
    have "(of_int (n * 2 ^ j) :: rat) \<le> of_int (round_half_even (x / (1 / 2 ^ j)))"
      by (simp only: of_int_le_iff)
    then have "(of_int (n * 2 ^ j) :: rat) * (1 / 2 ^ j) \<le> of_int (round_half_even (x / (1 / 2 ^ j))) * (1 / 2 ^ j)"
      by (intro mult_right_mono) simp_all
    then show ?thesis
      unfolding to_double_pos[OF pos] u by simp
  next
    case False
    then have "(2::rat) powi 53 \<le> x" by simp
    from binade_ge[OF pos this] have e: "53 \<le> binade x" .
    define j where "j = nat (binade x - 52)"
    have j: "1 \<le> j" using e by (simp add: j_def)
    have u: "ulp x = 2 ^ j"
      using e pos by (simp add: ulp_def j_def power_int_def)
    have "(2::rat) powi (binade x) \<le> x" by (rule binade_lower[OF pos])
    moreover have "(2::rat) powi (binade x) = 2 ^ 52 * 2 ^ j"
    proof -
      have "nat (binade x) = 52 + j" using e by (simp add: j_def)
      then have "(2::rat) ^ nat (binade x) = 2 ^ 52 * 2 ^ j" by (simp only: power_add)
      then show ?thesis using e by (simp add: power_int_def)
    qed
    ultimately have "of_int (2 ^ 52) \<le> x / 2 ^ j"
      by (simp add: pos_le_divide_eq)
    from round_half_even_ge[OF this]
    have r: "(2::rat) ^ 52 \<le> of_int (round_half_even (x / 2 ^ j))"
      by (metis of_int_le_iff of_int_numeral of_int_power)
    have "of_int n \<le> (2::rat) ^ 53"
      using assms(3) by (metis of_int_le_iff of_int_numeral of_int_power)
    also have "(2::rat) ^ 53 \<le> 2 ^ 52 * 2 ^ j"
    proof -
      from j have "(2::rat) ^ 1 \<le> 2 ^ j" by (intro power_increasing) simp_all
      then show ?thesis by simp
    qed
    also have "(2::rat) ^ 52 * 2 ^ j \<le> of_int (round_half_even (x / 2 ^ j)) * 2 ^ j"
      using r by (intro mult_right_mono) simp_all
    finally show ?thesis
      unfolding to_double_pos[OF pos] u .
  qed
qed

lemma to_double_of_int:
  assumes "\<bar>n\<bar> < 2 ^ 53"
  shows "to_double (of_int n) = of_int n"
proof -
  have pos: "to_double (of_int m) = of_int m" if "0 < m" "m < 2 ^ 53" for m
  proof (rule antisym)
    show "to_double (of_int m) \<le> of_int m"
      using that by (intro to_double_le_int) simp_all
    show "of_int m \<le> to_double (of_int m)"
      using that by (intro to_double_ge_int) simp_all
  qed
  consider "n = 0" | "0 < n" | "n < 0" by linarith
  then show ?thesis
  proof cases
    case 1
    then show ?thesis by (simp add: to_double_def)
  next
    case 2
    with assms show ?thesis by (intro pos) simp_all
  next
    case 3
    with assms have "to_double (of_int (- n)) = of_int (- n)" by (intro pos) simp_all
    then show ?thesis by (simp add: to_double_minus)
  qed
qed

lemma double_Num:
  assumes "\<bar>to_double x\<bar> < 2 ^ 1024"
  shows "double x = Num (to_double x)"
proof (cases "to_double x = 0")
  case True
  then show ?thesis by (simp add: double_def)
next
  case False
  then have "0 < \<bar>to_double x\<bar>" by simp
  moreover from assms have "\<bar>to_double x\<bar> < 2 powi 1024" by simp
  ultimately have "binade \<bar>to_double x\<bar> < 1024" by (rule binade_less)
  then show ?thesis by (simp add: double_def Let_def)
qed

lemma small_pow: "(2::rat) ^ 53 < 2 ^ 1024"
  by (rule power_strict_increasing) simp_all

lemma number_exact:
  assumes "\<bar>n\<bar> < 2 ^ 53"
  shows "number n = Num n"
proof -
  have t: "to_double (of_int n) = of_int n" by (rule to_double_of_int[OF assms])
  have "\<bar>of_int n :: rat\<bar> < 2 ^ 53"
    using assms by (metis of_int_abs of_int_less_iff of_int_numeral of_int_power)
  then have "\<bar>to_double (of_int n)\<bar> < 2 ^ 1024" unfolding t using small_pow by (rule less_trans)
  from double_Num[OF this] show ?thesis by (simp add: number_def t)
qed

lemma number_large:
  assumes "2 ^ 53 \<le> v"
  shows "number v = Infinity \<or> (\<exists>k. number v = Num k \<and> 2 ^ 53 \<le> k)"
proof -
  have "(of_int (2 ^ 53) :: rat) \<le> of_int v"
    using assms by (simp only: of_int_le_iff)
  then have "(of_int (2 ^ 53) :: rat) \<le> to_double (of_int v)"
    by (intro to_double_ge_int) simp_all
  then have "2 ^ 53 \<le> \<lfloor>to_double (of_int v)\<rfloor>"
    by (simp only: le_floor_iff)
  moreover from this have "0 < to_double (of_int v)" by (simp add: le_floor_iff)
  ultimately show ?thesis
    by (simp add: number_def double_def Let_def)
qed

lemma number_unique:
  assumes "0 \<le> x" and "x < 2 ^ 53" and "number v = Num x" and "0 \<le> v"
  shows "v = x"
proof (cases "v < 2 ^ 53")
  case True
  with assms(4) have "number v = Num v" by (intro number_exact) simp
  with assms(3) show ?thesis by simp
next
  case False
  then have "2 ^ 53 \<le> v" by simp
  from number_large[OF this] assms(2,3) show ?thesis by auto
qed

lemma number_negative:
  assumes "n < 0"
  shows "number n = NegInfinity \<or> (\<exists>k<0. number n = Num k)"
proof -
  have "(of_int 1 :: rat) \<le> of_int (- n)"
    using assms by (simp only: of_int_le_iff)
  then have "(of_int 1 :: rat) \<le> to_double (of_int (- n))"
    by (intro to_double_ge_int) simp_all
  then have "to_double (of_int n) \<le> - 1"
    by (simp add: to_double_minus)
  then have "to_double (of_int n) < 0" and "\<lfloor>to_double (of_int n)\<rfloor> < 0"
    by (simp_all add: floor_less_iff)
  then show ?thesis
    by (simp add: number_def double_def Let_def)
qed

lemma js_add_exact: "\<bar>a + b\<bar> < 2 ^ 53 \<Longrightarrow> js_add (Num a) (Num b) = Num (a + b)"
  by (simp add: number_exact)

subsection \<open>Creating a task\<close>

lemma fold_max_Max: "fold (\<lambda>n mx. max mx n) xs (a::int) = Max (insert a (set xs))"
proof (induction xs arbitrary: a)
  case Nil
  then show ?case by simp
next
  case (Cons x xs)
  have "Max (insert (max a x) (set xs)) = Max (insert a (insert x (set xs)))"
  proof (cases "set xs = {}")
    case True
    then show ?thesis by (simp add: max.commute)
  next
    case False
    then show ?thesis by (simp add: max.assoc)
  qed
  with Cons show ?case by simp
qed

lemma js_replace_prefix: "p \<noteq> [] \<Longrightarrow> js_replace p r (p @ s) = r @ s"
  by (cases p) simp_all

lemma digit_facts:
  assumes "d < 10"
  shows "is_digit (digit_chars ! d)"
    and "index_of (hd (toLowerCase [digit_chars ! d])) hex_chars = d"
    and "\<not> is_space (digit_chars ! d)"
    and "digit_chars ! d \<noteq> CHR ''-''" and "digit_chars ! d \<noteq> CHR ''+''"
    and "digit_chars ! d \<noteq> CHR ''x''" and "digit_chars ! d \<noteq> CHR ''X''"
proof -
  from assms have "d = 0 \<or> d = 1 \<or> d = 2 \<or> d = 3 \<or> d = 4 \<or> d = 5 \<or> d = 6 \<or> d = 7 \<or> d = 8 \<or> d = 9"
    by presburger
  then show "is_digit (digit_chars ! d)"
    and "index_of (hd (toLowerCase [digit_chars ! d])) hex_chars = d"
    and "\<not> is_space (digit_chars ! d)"
    and "digit_chars ! d \<noteq> CHR ''-''" and "digit_chars ! d \<noteq> CHR ''+''"
    and "digit_chars ! d \<noteq> CHR ''x''" and "digit_chars ! d \<noteq> CHR ''X''"
    by (elim disjE; simp add: is_digit_def digit_chars_def index_of_def toLowerCase_def
        hex_chars_def upper_letters_def lower_letters_def is_space_def)+
qed

lemma plain_digits_decimal: "plain_digits (decimal n)"
proof (induction n rule: decimal.induct)
  case (1 n)
  show ?case
  proof (cases "n < 10")
    case True
    then have "nat n < 10" by simp
    then have "\<exists>d<10. digit_chars ! nat n = digit_chars ! d" by blast
    with True show ?thesis by (subst decimal.simps) (simp add: plain_digits_def)
  next
    case False
    have "nat (n mod 10) < 10" by simp
    then have "\<exists>d<10. digit_chars ! nat (n mod 10) = digit_chars ! d" by blast
    with 1[OF False] False show ?thesis
      by (subst decimal.simps) (simp add: plain_digits_def)
  qed
qed

lemma decimal_nonempty: "decimal n \<noteq> []"
  by (subst decimal.simps) simp

lemma digits_value_snoc:
  "digits_value r (ds @ [c]) =
     digits_value r ds * r + int (index_of (hd (toLowerCase [c])) hex_chars)"
  by (simp add: digits_value_def)

lemma digits_value_decimal: "0 \<le> n \<Longrightarrow> digits_value 10 (decimal n) = n"
proof (induction n rule: decimal.induct)
  case (1 n)
  show ?case
  proof (cases "n < 10")
    case True
    with 1(2) have "nat n < 10" by simp
    from digit_facts(2)[OF this] True 1(2) show ?thesis
      by (subst decimal.simps) (simp add: digits_value_def)
  next
    case False
    have m: "nat (n mod 10) < 10" by simp
    from 1(2) have "0 \<le> n div 10" by simp
    from 1(1)[OF False this] False digit_facts(2)[OF m] show ?thesis
      by (subst decimal.simps) (simp add: digits_value_snoc)
  qed
qed

lemma digits_value_zeros: "digits_value 10 (replicate k CHR ''0'' @ s) = digits_value 10 s"
proof -
  have z: "index_of (hd (toLowerCase ''0'')) hex_chars = 0"
    by (simp add: index_of_def toLowerCase_def hex_chars_def upper_letters_def lower_letters_def)
  have "fold (\<lambda>c acc. acc * 10 + int (index_of (hd (toLowerCase [c])) hex_chars)) (replicate k CHR ''0'') 0 = 0"
    by (induction k) (simp_all add: z)
  then show ?thesis by (simp add: digits_value_def)
qed

lemma plain_digits_padStart:
  assumes "plain_digits s"
  shows "plain_digits (padStart k CHR ''0'' s)"
  unfolding plain_digits_def
proof
  fix c assume "c \<in> set (padStart k CHR ''0'' s)"
  then consider "c = CHR ''0''" | "c \<in> set s"
    by (auto simp: padStart_def)
  then show "\<exists>d<10. c = digit_chars ! d"
  proof cases
    case 1
    then have "c = digit_chars ! 0" by (simp add: digit_chars_def)
    then show ?thesis by (intro exI[of _ 0]) simp
  next
    case 2
    with assms show ?thesis by (simp add: plain_digits_def)
  qed
qed

lemma parseInt_plain_digits:
  assumes "plain_digits s" and "s \<noteq> []"
  shows "parseInt s = number (digits_value 10 s)"
proof -
  have all: "\<forall>c \<in> set s. is_digit c \<and> \<not> is_space c \<and> c \<noteq> CHR ''-'' \<and> c \<noteq> CHR ''+''
      \<and> c \<noteq> CHR ''x'' \<and> c \<noteq> CHR ''X''"
  proof
    fix c assume "c \<in> set s"
    with assms(1) obtain d where "d < 10" "c = digit_chars ! d"
      unfolding plain_digits_def by blast
    then show "is_digit c \<and> \<not> is_space c \<and> c \<noteq> CHR ''-'' \<and> c \<noteq> CHR ''+''
      \<and> c \<noteq> CHR ''x'' \<and> c \<noteq> CHR ''X''"
      using digit_facts[of d] by simp
  qed
  from assms(2) have hd_in: "hd s \<in> set s" by simp
  have sp: "dropWhile is_space s = s"
    using all hd_in assms(2) by (cases s) simp_all
  have sign: "(if s \<noteq> [] \<and> (hd s = CHR ''-'' \<or> hd s = CHR ''+'') then tl s else s) = s"
      "(s \<noteq> [] \<and> hd s = CHR ''-'') = False"
    using all hd_in by auto
  have "CHR ''x'' \<notin> set (take 2 s)" "CHR ''X'' \<notin> set (take 2 s)"
    using all set_take_subset[of 2 s] by blast+
  then have nohex: "(take 2 s = ''0x'' \<or> take 2 s = ''0X'') = False"
    by auto
  have tw: "takeWhile is_digit s = s"
    using all by (simp add: takeWhile_eq_all_conv)
  show ?thesis
    unfolding parseInt_def Let_def sp sign nohex if_False tw using assms(2) by simp
qed

text \<open>
  Below \<open>2^53\<close> every whole number is a double and no other whole number is read as it,
  so its text is its decimal form.
\<close>

lemma candidates_nonneg: "0 \<le> x \<Longrightarrow> v \<in> set (candidates_at x j) \<Longrightarrow> 0 \<le> v"
proof -
  assume x: "0 \<le> x" and v: "v \<in> set (candidates_at x j)"
  have "0 \<le> x div 10 ^ j" using x by (simp add: pos_imp_zdiv_nonneg_iff)
  then have "0 \<le> x div 10 ^ j * 10 ^ j" by simp
  with v show ?thesis
    by (auto simp: candidates_at_def Let_def split: if_splits)
qed

lemma find_SomeD: "find P xs = Some v \<Longrightarrow> P v \<and> v \<in> set xs"
  by (induction xs) (auto split: if_splits)

lemma shortest_exact:
  assumes "0 \<le> x" and "x < 2 ^ 53"
  shows "shortest x = x"
proof (cases "find (\<lambda>v. number v = Num x)
          (concat (map (candidates_at x) (rev [0..<length (decimal x)])))")
  case None
  then show ?thesis by (simp add: shortest_def)
next
  case (Some v)
  from find_SomeD[OF this]
  have "number v = Num x" and "v \<in> set (concat (map (candidates_at x) (rev [0..<length (decimal x)])))"
    by simp_all
  then have "number v = Num x" and "0 \<le> v"
    using candidates_nonneg[OF assms(1)] by auto
  with assms have "v = x" by (intro number_unique)
  with Some show ?thesis by (simp add: shortest_def)
qed

lemma String_exact:
  assumes "0 \<le> x" and "x < 2 ^ 53"
  shows "String (Num x) = decimal x"
proof -
  from assms(2) have "x < 10 ^ 21" by simp
  with assms show ?thesis
    by (simp add: number_text_def shortest_exact)
qed

lemma newId_suffix:
  assumes "0 \<le> m" and "m + 1 < 2 ^ 53"
  shows "String (js_add (Num m) (Num 1)) = decimal (m + 1)"
    and "id_number prefix (prefix @ ''-'' @ padStart 3 CHR ''0'' (decimal (m + 1))) = Num (m + 1)"
proof -
  from assms have e: "number (m + 1) = Num (m + 1)" by (intro number_exact) simp
  from assms show "String (js_add (Num m) (Num 1)) = decimal (m + 1)"
    unfolding js_add.simps e by (intro String_exact) simp_all
  let ?s = "padStart 3 CHR ''0'' (decimal (m + 1))"
  have pd: "plain_digits ?s"
    by (rule plain_digits_padStart) (rule plain_digits_decimal)
  have ne: "?s \<noteq> []"
    by (simp add: padStart_def decimal_nonempty)
  have "js_replace (prefix @ ''-'') [] (prefix @ ''-'' @ ?s) = ?s"
    using js_replace_prefix[of "prefix @ ''-''" "[]" ?s] by simp
  moreover have "parseInt ?s = Num (m + 1)"
    using assms unfolding parseInt_plain_digits[OF pd ne]
    by (simp add: padStart_def digits_value_zeros digits_value_decimal e)
  ultimately show "id_number prefix (prefix @ ''-'' @ ?s) = Num (m + 1)"
    by (simp add: id_number_def)
qed

lemma startsWith_append: "startsWith (p @ s) p"
  by (simp add: startsWith_def)

lemma fold_Math_max:
  "fold (\<lambda>n mx. Math_max mx n) (map Num ks) (Num a) = Num (fold (\<lambda>n mx. max mx n) ks a)"
  by (induction ks arbitrary: a) simp_all

lemma suffixes_below_Num:
  assumes "suffixes_below P ts b" and "u \<in> set ts" and "startsWith (task_id u) P"
  shows "id_number P (task_id u) = Num (suffix P (task_id u))" and "suffix P (task_id u) < b"
  using assms by (auto simp: suffixes_below_def suffix_def split: number.splits)

lemma maxNum_finite:
  assumes "suffixes_below P ts b"
  shows "maxNum P ts = Num (max_suffix P ts)"
proof -
  let ?us = "filter (\<lambda>t. startsWith (task_id t) P) ts"
  have eq: "map (\<lambda>t. id_number P (task_id t)) ?us = map Num (map (\<lambda>t. suffix P (task_id t)) ?us)"
    using suffixes_below_Num(1)[OF assms] by simp
  have "maxNum P ts = Num (fold (\<lambda>n mx. max mx n) (map (\<lambda>t. suffix P (task_id t)) ?us) 0)"
    unfolding maxNum_def eq fold_Math_max by (rule refl)
  also have "fold (\<lambda>n mx. max mx n) (map (\<lambda>t. suffix P (task_id t)) ?us) 0 = max_suffix P ts"
    by (simp add: fold_max_Max max_suffix_def)
  finally show ?thesis .
qed

lemma max_suffix_bounds:
  assumes "suffixes_below P ts b" and "0 < b"
  shows "0 \<le> max_suffix P ts" and "max_suffix P ts < b"
proof -
  let ?S = "insert 0 ((\<lambda>u. suffix P (task_id u)) ` {u \<in> set ts. startsWith (task_id u) P})"
  have fin: "finite ?S" by simp
  show "0 \<le> max_suffix P ts"
    unfolding max_suffix_def by (rule Max_ge) simp_all
  have "\<forall>k \<in> ?S. k < b"
    using suffixes_below_Num(2)[OF assms(1)] assms(2) by auto
  then show "max_suffix P ts < b"
    unfolding max_suffix_def using fin by (subst Max_less_iff) auto
qed

lemma max_suffix_upper:
  "u \<in> set ts \<Longrightarrow> startsWith (task_id u) P \<Longrightarrow> suffix P (task_id u) \<le> max_suffix P ts"
  unfolding max_suffix_def by (rule Max_ge) auto

lemma newId_finite:
  assumes "suffixes_below P ts b" and "0 < b" and "b < 2 ^ 53"
  shows "newId P ts = P @ ''-'' @ padStart 3 CHR ''0'' (decimal (max_suffix P ts + 1))"
    and "id_number P (newId P ts) = Num (max_suffix P ts + 1)"
proof -
  from max_suffix_bounds[OF assms(1,2)] assms(3)
  have m: "0 \<le> max_suffix P ts" "max_suffix P ts + 1 < 2 ^ 53" by simp_all
  show n: "newId P ts = P @ ''-'' @ padStart 3 CHR ''0'' (decimal (max_suffix P ts + 1))"
    unfolding newId_def maxNum_finite[OF assms(1)] newId_suffix(1)[OF m] by (rule refl)
  show "id_number P (newId P ts) = Num (max_suffix P ts + 1)"
    unfolding n by (rule newId_suffix(2)[OF m])
qed

lemma suffixes_below_snoc:
  assumes "suffixes_below P ts b" and "0 < b" and "b < 2 ^ 53" and "task_id t = newId P ts"
  shows "suffixes_below P (ts @ [t]) (b + 1)"
    and "max_suffix P (ts @ [t]) = max_suffix P ts + 1"
proof -
  have new: "id_number P (task_id t) = Num (max_suffix P ts + 1)"
    unfolding assms(4) by (rule newId_finite(2)[OF assms(1-3)])
  have sw: "startsWith (task_id t) P"
    by (simp add: assms(4) newId_def startsWith_append)
  from max_suffix_bounds[OF assms(1,2)] have m: "max_suffix P ts + 1 < b + 1" by simp
  show "suffixes_below P (ts @ [t]) (b + 1)"
    using assms(1) new m by (auto simp: suffixes_below_def split: number.splits)
  have s: "suffix P (task_id t) = max_suffix P ts + 1"
    by (simp add: suffix_def new)
  let ?S = "(\<lambda>u. suffix P (task_id u)) ` {u \<in> set ts. startsWith (task_id u) P}"
  have "{u \<in> set (ts @ [t]). startsWith (task_id u) P} = insert t {u \<in> set ts. startsWith (task_id u) P}"
    using sw by auto
  then have "max_suffix P (ts @ [t]) = Max (insert (max_suffix P ts + 1) (insert 0 ?S))"
    by (simp add: max_suffix_def s insert_commute)
  also have "\<dots> = max (max_suffix P ts + 1) (Max (insert 0 ?S))"
    by (rule Max_insert) simp_all
  also have "\<dots> = max_suffix P ts + 1"
    by (simp add: max_suffix_def)
  finally show "max_suffix P (ts @ [t]) = max_suffix P ts + 1" .
qed

lemma cmdAdd_usage: "join '' '' args = [] \<Longrightarrow> cmdAdd st sv data cfg args = failed data UsageAdd"
  by (simp add: cmdAdd_def)

lemma cmdAdd_created:
  assumes "join '' '' args \<noteq> []"
  shows "cmdAdd st sv data cfg args =
     (let P = toUpperCase (config_taskPrefix cfg);
          t = created_task (newId P (tasks data)) (join '' '' args) (currentSprint data) (isoDate st);
          d = data\<lparr>tasks := tasks data @ [t], lastUpdated := sv\<rparr>
      in \<lparr> doc = d, written = Some d, console_error = [],
           console_log = [Created (newId P (tasks data)) (join '' '' args)] \<rparr>)"
  using assms by (simp add: cmdAdd_def Let_def saveData_def)

lemma cmdAdd_seq_ids:
  assumes "\<forall>c \<in> set cs. join '' '' (snd (snd c)) \<noteq> []"
    and "suffixes_below (toUpperCase (config_taskPrefix cfg)) (tasks data) b"
    and "0 < b" and "b + int (length cs) \<le> 2 ^ 53"
  shows "\<exists>news. tasks (cmdAdd_seq data cfg cs) = tasks data @ news \<and> length news = length cs
     \<and> (\<forall>k < length cs. task_id (news ! k) =
           toUpperCase (config_taskPrefix cfg) @ ''-'' @ padStart 3 CHR ''0''
             (decimal (max_suffix (toUpperCase (config_taskPrefix cfg)) (tasks data) + 1 + int k)))"
  using assms
proof (induction data cfg cs arbitrary: b rule: cmdAdd_seq.induct)
  case (1 data cfg)
  then show ?case by simp
next
  case (2 data cfg stamp_time save_time args cs)
  let ?P = "toUpperCase (config_taskPrefix cfg)"
  let ?d = "doc (cmdAdd stamp_time save_time data cfg args)"
  let ?t = "created_task (newId ?P (tasks data)) (join '' '' args) (currentSprint data) (isoDate stamp_time)"
  from 2(2) have ne: "join '' '' args \<noteq> []" by simp
  have td: "tasks ?d = tasks data @ [?t]"
    by (simp add: cmdAdd_created[OF ne] Let_def)
  have tid: "task_id ?t = newId ?P (tasks data)"
    by (simp add: created_task_def)
  from 2(5) have b53: "b < 2 ^ 53" by simp
  from suffixes_below_snoc[OF 2(3,4) b53 tid]
  have sb: "suffixes_below ?P (tasks ?d) (b + 1)"
    and mx: "max_suffix ?P (tasks ?d) = max_suffix ?P (tasks data) + 1"
    by (simp_all add: td)
  from 2(2) have rest: "\<forall>c \<in> set cs. join '' '' (snd (snd c)) \<noteq> []" by simp
  from 2(4) have b1: "0 < b + 1" by simp
  from 2(5) have bl: "b + 1 + int (length cs) \<le> 2 ^ 53" by simp
  from 2(1)[OF rest sb b1 bl] obtain news where news: "tasks (cmdAdd_seq ?d cfg cs) = tasks ?d @ news"
      "length news = length cs"
      "\<forall>k < length cs. task_id (news ! k) =
           ?P @ ''-'' @ padStart 3 CHR ''0'' (decimal (max_suffix ?P (tasks ?d) + 1 + int k))"
    by blast
  have "\<forall>k < length ((stamp_time, save_time, args) # cs). task_id ((?t # news) ! k) =
           ?P @ ''-'' @ padStart 3 CHR ''0'' (decimal (max_suffix ?P (tasks data) + 1 + int k))"
  proof (intro allI impI)
    fix k assume k: "k < length ((stamp_time, save_time, args) # cs)"
    show "task_id ((?t # news) ! k) =
           ?P @ ''-'' @ padStart 3 CHR ''0'' (decimal (max_suffix ?P (tasks data) + 1 + int k))"
    proof (cases k)
      case 0
      then show ?thesis
        using tid newId_finite(1)[OF 2(3,4) b53] by simp
    next
      case (Suc k')
      with k have k': "k' < length cs" by simp
      have "max_suffix ?P (tasks ?d) + 1 + int k' = max_suffix ?P (tasks data) + 1 + int k"
        by (simp add: mx Suc)
      with news(3)[rule_format, OF k'] Suc show ?thesis by simp
    qed
  qed
  with news(1,2) td show ?case
    by (intro exI[of _ "?t # news"]) simp
qed

text \<open>
  Claim C4, as the program has it. With \<open>P\<close> the configured prefix in upper case (\<open>TASK\<close>
  when none is configured) and the title the arguments joined by spaces:

  \<^item> An empty title reports the usage error, leaves the document as it was and does not
    save.
  \<^item> A non-empty title appends exactly one task, with status \<open>backlog\<close>, priority
    \<open>medium\<close>, type \<open>feature\<close>, 0 points, the current sprint and today's date, and the
    document is saved. When every id under \<open>P\<close> reads as a number below \<open>2^53 - 1\<close>, the
    new id is \<open>P\<close>, a hyphen and the decimal form, padded with zeros to three digits, of
    one plus the maximum \<open>m\<close> of 0 and those numbers.
  \<^item> Creating \<open>N\<close> tasks in sequence, when every id under \<open>P\<close> reads as a number below
    \<open>2^53 - N\<close>, appends \<open>N\<close> tasks to the unchanged old list; the \<open>k\<close>-th new id is that
    of the number \<open>m + 1 + k\<close>, which the program reads back from it, no older id under
    \<open>P\<close> has a number above \<open>m\<close>, and no new id is the id of an older task: strictly
    increasing, none reused.
\<close>

theorem cmdAdd_spec:
  "(join '' '' args = [] \<longrightarrow>
      doc (cmdAdd st sv data cfg args) = data
    \<and> written (cmdAdd st sv data cfg args) = None
    \<and> console_error (cmdAdd st sv data cfg args) = [UsageAdd])
   \<and> (join '' '' args \<noteq> [] \<longrightarrow>
      (\<exists>t. tasks (doc (cmdAdd st sv data cfg args)) = tasks data @ [t]
          \<and> title t = join '' '' args \<and> status t = ''backlog'' \<and> priority t = ''medium''
          \<and> task_type t = ''feature'' \<and> points t = Some 0 \<and> sprint t = currentSprint data
          \<and> createdAt t = isoDate st
          \<and> doc (cmdAdd st sv data cfg args) = data\<lparr>tasks := tasks data @ [t], lastUpdated := sv\<rparr>
          \<and> written (cmdAdd st sv data cfg args) = Some (doc (cmdAdd st sv data cfg args))
          \<and> console_error (cmdAdd st sv data cfg args) = []
          \<and> (suffixes_below (toUpperCase (config_taskPrefix cfg)) (tasks data) (2 ^ 53 - 1) \<longrightarrow>
                task_id t = toUpperCase (config_taskPrefix cfg) @ ''-'' @ padStart 3 CHR ''0''
                  (decimal (1 + max_suffix (toUpperCase (config_taskPrefix cfg)) (tasks data))))))
   \<and> ((\<forall>c \<in> set cs. join '' '' (snd (snd c)) \<noteq> []) \<and> int (length cs) < 2 ^ 53
        \<and> suffixes_below (toUpperCase (config_taskPrefix cfg)) (tasks data)
             (2 ^ 53 - int (length cs)) \<longrightarrow>
        length (tasks (cmdAdd_seq data cfg cs)) = length (tasks data) + length cs
      \<and> take (length (tasks data)) (tasks (cmdAdd_seq data cfg cs)) = tasks data
      \<and> (\<forall>u \<in> set (tasks data). startsWith (task_id u) (toUpperCase (config_taskPrefix cfg))
            \<longrightarrow> suffix (toUpperCase (config_taskPrefix cfg)) (task_id u)
                \<le> max_suffix (toUpperCase (config_taskPrefix cfg)) (tasks data))
      \<and> (\<forall>k < length cs.
            task_id (tasks (cmdAdd_seq data cfg cs) ! (length (tasks data) + k)) =
              toUpperCase (config_taskPrefix cfg) @ ''-'' @ padStart 3 CHR ''0''
                (decimal (max_suffix (toUpperCase (config_taskPrefix cfg)) (tasks data) + 1 + int k))
          \<and> id_number (toUpperCase (config_taskPrefix cfg))
              (task_id (tasks (cmdAdd_seq data cfg cs) ! (length (tasks data) + k))) =
              Num (max_suffix (toUpperCase (config_taskPrefix cfg)) (tasks data) + 1 + int k)
          \<and> task_id (tasks (cmdAdd_seq data cfg cs) ! (length (tasks data) + k))
              \<notin> task_id ` set (tasks data)))"
proof (intro conjI impI)
  assume e: "join '' '' args = []"
  show "doc (cmdAdd st sv data cfg args) = data"
    and "written (cmdAdd st sv data cfg args) = None"
    and "console_error (cmdAdd st sv data cfg args) = [UsageAdd]"
    by (simp_all add: cmdAdd_usage[OF e] failed_def)
next
  let ?P = "toUpperCase (config_taskPrefix cfg)"
  assume ne: "join '' '' args \<noteq> []"
  let ?t = "created_task (newId ?P (tasks data)) (join '' '' args) (currentSprint data) (isoDate st)"
  have i: "task_id ?t = ?P @ ''-'' @ padStart 3 CHR ''0'' (decimal (1 + max_suffix ?P (tasks data)))"
    if "suffixes_below ?P (tasks data) (2 ^ 53 - 1)"
    using newId_finite(1)[OF that] by (simp add: created_task_def add.commute)
  have "tasks (doc (cmdAdd st sv data cfg args)) = tasks data @ [?t]
          \<and> title ?t = join '' '' args \<and> status ?t = ''backlog'' \<and> priority ?t = ''medium''
          \<and> task_type ?t = ''feature'' \<and> points ?t = Some 0 \<and> sprint ?t = currentSprint data
          \<and> createdAt ?t = isoDate st
          \<and> doc (cmdAdd st sv data cfg args) = data\<lparr>tasks := tasks data @ [?t], lastUpdated := sv\<rparr>
          \<and> written (cmdAdd st sv data cfg args) = Some (doc (cmdAdd st sv data cfg args))
          \<and> console_error (cmdAdd st sv data cfg args) = []"
    by (simp add: cmdAdd_created[OF ne] Let_def, simp add: created_task_def)
  with i show "\<exists>t. tasks (doc (cmdAdd st sv data cfg args)) = tasks data @ [t]
          \<and> title t = join '' '' args \<and> status t = ''backlog'' \<and> priority t = ''medium''
          \<and> task_type t = ''feature'' \<and> points t = Some 0 \<and> sprint t = currentSprint data
          \<and> createdAt t = isoDate st
          \<and> doc (cmdAdd st sv data cfg args) = data\<lparr>tasks := tasks data @ [t], lastUpdated := sv\<rparr>
          \<and> written (cmdAdd st sv data cfg args) = Some (doc (cmdAdd st sv data cfg args))
          \<and> console_error (cmdAdd st sv data cfg args) = []
          \<and> (suffixes_below ?P (tasks data) (2 ^ 53 - 1) \<longrightarrow>
                task_id t = ?P @ ''-'' @ padStart 3 CHR ''0''
                  (decimal (1 + max_suffix ?P (tasks data))))"
    by (intro exI[of _ ?t]) blast
next
  let ?P = "toUpperCase (config_taskPrefix cfg)"
  let ?m = "max_suffix ?P (tasks data)"
  let ?B = "2 ^ 53 - int (length cs)"
  assume a: "(\<forall>c \<in> set cs. join '' '' (snd (snd c)) \<noteq> []) \<and> int (length cs) < 2 ^ 53
        \<and> suffixes_below ?P (tasks data) ?B"
  then have sb: "suffixes_below ?P (tasks data) ?B" and B0: "0 < ?B"
    and Bl: "?B + int (length cs) \<le> 2 ^ 53"
    by simp_all
  from a cmdAdd_seq_ids[OF _ sb B0 Bl] obtain news where
    news: "tasks (cmdAdd_seq data cfg cs) = tasks data @ news" "length news = length cs"
      "\<forall>k < length cs. task_id (news ! k) =
           ?P @ ''-'' @ padStart 3 CHR ''0'' (decimal (?m + 1 + int k))"
    by blast
  show "length (tasks (cmdAdd_seq data cfg cs)) = length (tasks data) + length cs"
    and "take (length (tasks data)) (tasks (cmdAdd_seq data cfg cs)) = tasks data"
    using news(1,2) by simp_all
  show upper: "\<forall>u \<in> set (tasks data). startsWith (task_id u) ?P \<longrightarrow> suffix ?P (task_id u) \<le> ?m"
    using max_suffix_upper by blast
  show "\<forall>k < length cs.
            task_id (tasks (cmdAdd_seq data cfg cs) ! (length (tasks data) + k)) =
              ?P @ ''-'' @ padStart 3 CHR ''0'' (decimal (?m + 1 + int k))
          \<and> id_number ?P (task_id (tasks (cmdAdd_seq data cfg cs) ! (length (tasks data) + k))) =
              Num (?m + 1 + int k)
          \<and> task_id (tasks (cmdAdd_seq data cfg cs) ! (length (tasks data) + k))
              \<notin> task_id ` set (tasks data)"
  proof (intro allI impI)
    fix k assume k: "k < length cs"
    let ?new = "task_id (tasks (cmdAdd_seq data cfg cs) ! (length (tasks data) + k))"
    have i: "?new = ?P @ ''-'' @ padStart 3 CHR ''0'' (decimal (?m + 1 + int k))"
      using news k by simp
    from max_suffix_bounds[OF sb B0] k
    have m: "0 \<le> ?m + int k" "?m + int k + 1 < 2 ^ 53"
      by simp_all
    from newId_suffix(2)[OF m, of ?P] i
    have n: "id_number ?P ?new = Num (?m + 1 + int k)"
      by (simp add: ac_simps)
    have "?new \<notin> task_id ` set (tasks data)"
    proof
      assume "?new \<in> task_id ` set (tasks data)"
      then obtain u where u: "u \<in> set (tasks data)" "task_id u = ?new" by auto
      have "startsWith ?new ?P" unfolding i by (rule startsWith_append)
      with u have sw: "startsWith (task_id u) ?P" by simp
      from upper u(1) sw have "suffix ?P (task_id u) \<le> ?m" by blast
      moreover have "suffix ?P (task_id u) = ?m + 1 + int k"
        by (simp add: suffix_def u(2) n)
      ultimately show False by simp
    qed
    with i n show "?new = ?P @ ''-'' @ padStart 3 CHR ''0'' (decimal (?m + 1 + int k))
          \<and> id_number ?P ?new = Num (?m + 1 + int k)
          \<and> ?new \<notin> task_id ` set (tasks data)"
      by simp
  qed
qed

text \<open>
  No argument at all; a title of two words on a document whose largest \<open>TASK\<close> number is
  7 and whose largest \<open>BUG\<close> number is 20; the configured prefix \<open>bug\<close> on the same
  document; two creations in sequence.
\<close>

theorem cmdAdd_spec_witness:
  "join '' '' [] = []
   \<and> doc (cmdAdd t1 t2 add_doc None []) = add_doc
   \<and> written (cmdAdd t1 t2 add_doc None []) = None
   \<and> join '' '' [''Fix'', ''bug''] = ''Fix bug''
   \<and> suffixes_below ''TASK'' (tasks add_doc) (2 ^ 53 - 1)
   \<and> map task_id (tasks (doc (cmdAdd t1 t2 add_doc None [''Fix'', ''bug'']))) =
        [''TASK-001'', ''TASK-007'', ''BUG-020'', ''TASK-008'']
   \<and> status (last (tasks (doc (cmdAdd t1 t2 add_doc None [''Fix'', ''bug''])))) = ''backlog''
   \<and> points (last (tasks (doc (cmdAdd t1 t2 add_doc None [''Fix'', ''bug''])))) = Some 0
   \<and> createdAt (last (tasks (doc (cmdAdd t1 t2 add_doc None [''Fix'', ''bug''])))) = ''2026-02-03''
   \<and> written (cmdAdd t1 t2 add_doc None [''Fix'', ''bug'']) =
        Some (doc (cmdAdd t1 t2 add_doc None [''Fix'', ''bug'']))
   \<and> toUpperCase (config_taskPrefix (Some bug_config)) = ''BUG''
   \<and> suffixes_below ''BUG'' (tasks add_doc) (2 ^ 53 - 1)
   \<and> task_id (last (tasks (doc (cmdAdd t1 t2 add_doc (Some bug_config) [''Crash''])))) = ''BUG-021''
   \<and> suffixes_below ''TASK'' (tasks add_doc) (2 ^ 53 - 2)
   \<and> length (tasks (cmdAdd_seq add_doc None [(t1, t2, [''A'']), (t3, t3, [''B''])])) = 5
   \<and> task_id (tasks (cmdAdd_seq add_doc None [(t1, t2, [''A'']), (t3, t3, [''B''])]) ! 3) = ''TASK-008''
   \<and> task_id (tasks (cmdAdd_seq add_doc None [(t1, t2, [''A'']), (t3, t3, [''B''])]) ! 4) = ''TASK-009''"
proof -
  have len: "length (tasks add_doc) = 3"
    by (simp add: add_doc_def sample_doc_def)
  have day: "isoDate t1 = ''2026-02-03''"
    by (simp add: isoDate_def t1_def)
  have P: "toUpperCase (config_taskPrefix None) = ''TASK''"
    by code_simp
  have Q: "toUpperCase (config_taskPrefix (Some bug_config)) = ''BUG''"
    by code_simp
  have sb1: "suffixes_below ''TASK'' (tasks add_doc) (2 ^ 53 - 1)"
    by code_simp
  have sb2: "suffixes_below ''TASK'' (tasks add_doc) (2 ^ 53 - 2)"
    by code_simp
  have sb3: "suffixes_below ''BUG'' (tasks add_doc) (2 ^ 53 - 1)"
    by code_simp
  have "maxNum ''TASK'' (tasks add_doc) = Num 7" by code_simp
  with maxNum_finite[OF sb1] have m: "max_suffix ''TASK'' (tasks add_doc) = 7" by simp
  have "maxNum ''BUG'' (tasks add_doc) = Num 20" by code_simp
  with maxNum_finite[OF sb3] have mb: "max_suffix ''BUG'' (tasks add_doc) = 20" by simp
  have d8: "''TASK'' @ ''-'' @ padStart 3 CHR ''0'' (decimal 8) = ''TASK-008''" by code_simp
  have d9: "''TASK'' @ ''-'' @ padStart 3 CHR ''0'' (decimal 9) = ''TASK-009''" by code_simp
  have d21: "''BUG'' @ ''-'' @ padStart 3 CHR ''0'' (decimal 21) = ''BUG-021''" by code_simp
  have e: "join '' '' [] = []" by simp
  from cmdAdd_spec[of "[]" t1 t2 add_doc None "[]"] e
  have A: "doc (cmdAdd t1 t2 add_doc None []) = add_doc \<and> written (cmdAdd t1 t2 add_doc None []) = None"
    by blast
  have ne: "join '' '' [''Fix'', ''bug''] = ''Fix bug''" by simp
  let ?r = "cmdAdd t1 t2 add_doc None [''Fix'', ''bug'']"
  from cmdAdd_spec[of "[''Fix'', ''bug'']" t1 t2 add_doc None "[]"] ne sb1
  obtain t where t: "tasks (doc ?r) = tasks add_doc @ [t]" "status t = ''backlog''"
      "points t = Some 0" "createdAt t = isoDate t1" "written ?r = Some (doc ?r)"
      "task_id t = ''TASK'' @ ''-'' @ padStart 3 CHR ''0'' (decimal (1 + max_suffix ''TASK'' (tasks add_doc)))"
    unfolding P by auto
  then have B: "status (last (tasks (doc ?r))) = ''backlog'' \<and> points (last (tasks (doc ?r))) = Some 0
      \<and> createdAt (last (tasks (doc ?r))) = ''2026-02-03'' \<and> written ?r = Some (doc ?r)"
    by (simp add: day)
  have "map task_id (tasks add_doc) = [''TASK-001'', ''TASK-007'', ''BUG-020'']"
    by (simp add: add_doc_def sample_doc_def sample_task_def)
  with t(1,6) m d8
  have ids: "map task_id (tasks (doc ?r)) = [''TASK-001'', ''TASK-007'', ''BUG-020'', ''TASK-008'']"
    by simp
  let ?q = "cmdAdd t1 t2 add_doc (Some bug_config) [''Crash'']"
  have nc: "join '' '' [''Crash''] \<noteq> []" by simp
  from cmdAdd_spec[of "[''Crash'']" t1 t2 add_doc "Some bug_config" "[]"] nc sb3
  obtain u where u: "tasks (doc ?q) = tasks add_doc @ [u]"
      "task_id u = ''BUG'' @ ''-'' @ padStart 3 CHR ''0'' (decimal (1 + max_suffix ''BUG'' (tasks add_doc)))"
    unfolding Q by auto
  with mb d21 have E: "task_id (last (tasks (doc ?q))) = ''BUG-021''" by simp
  let ?cs = "[(t1, t2, [''A'']), (t3, t3, [''B''])]"
  have all: "(\<forall>c \<in> set ?cs. join '' '' (snd (snd c)) \<noteq> []) \<and> int (length ?cs) < 2 ^ 53
      \<and> suffixes_below ''TASK'' (tasks add_doc) (2 ^ 53 - int (length ?cs))"
    using sb2 by simp
  from cmdAdd_spec[of "[]" t1 t2 add_doc None ?cs] all
  have seq: "length (tasks (cmdAdd_seq add_doc None ?cs)) = length (tasks add_doc) + length ?cs"
    "\<forall>k < length ?cs. task_id (tasks (cmdAdd_seq add_doc None ?cs) ! (length (tasks add_doc) + k)) =
        ''TASK'' @ ''-'' @ padStart 3 CHR ''0'' (decimal (max_suffix ''TASK'' (tasks add_doc) + 1 + int k))"
    unfolding P by blast+
  from seq(2)[rule_format, of 0] seq(2)[rule_format, of 1] d8 d9 len m
  have C: "task_id (tasks (cmdAdd_seq add_doc None ?cs) ! 3) = ''TASK-008''"
    "task_id (tasks (cmdAdd_seq add_doc None ?cs) ! 4) = ''TASK-009''"
    by simp_all
  from seq(1) len have D: "length (tasks (cmdAdd_seq add_doc None ?cs)) = 5" by simp
  from e A ne ids B C D E Q sb1 sb2 sb3 show ?thesis by simp
qed

text \<open>
  Claim C4 as it is written holds for every document. On a document that has the task
  \<open>TASK-9007199254740992\<close>, whose number is \<open>2^53\<close>, the next number \<open>2^53 + 1\<close> is not
  a double: the sum rounds back to \<open>2^53\<close>, the new task gets the id of the old one, and
  the id is not that of one plus the maximum.
\<close>

theorem cmdAdd_counterexample:
  "map task_id (tasks last_id_doc) = [''TASK-9007199254740992'']
   \<and> id_number ''TASK'' ''TASK-9007199254740992'' = Num 9007199254740992
   \<and> map task_id (tasks (doc (cmdAdd t1 t2 last_id_doc None [''Next'']))) =
        [''TASK-9007199254740992'', ''TASK-9007199254740992'']
   \<and> ''TASK'' @ ''-'' @ padStart 3 CHR ''0'' (decimal (1 + 9007199254740992)) = ''TASK-9007199254740993''"
  by code_simp

subsection \<open>The progress figure of the board\<close>

lemma points_or_0_exact:
  assumes "\<bar>points_value t\<bar> < 2 ^ 53"
  shows "points_or_0 t = Num (points_value t)"
  using assms by (simp add: points_or_0_def points_value_def number_exact split: option.splits)

lemma fold_js_add_exact:
  assumes "\<bar>a\<bar> + sum_list (map (\<lambda>t. \<bar>points_value t\<bar>) ts) < 2 ^ 53"
  shows "fold (\<lambda>t sum. js_add sum (points_or_0 t)) ts (Num a) = Num (a + sum_list (map points_value ts))"
  using assms
proof (induction ts arbitrary: a)
  case Nil
  then show ?case by simp
next
  case (Cons t ts)
  have nn: "0 \<le> sum_list (map (\<lambda>t. \<bar>points_value t\<bar>) ts)"
    by (rule sum_list_nonneg) auto
  with Cons.prems have "\<bar>points_value t\<bar> < 2 ^ 53" and "\<bar>a + points_value t\<bar> < 2 ^ 53"
    by simp_all
  then have step: "js_add (Num a) (points_or_0 t) = Num (a + points_value t)"
    by (simp add: points_or_0_exact number_exact)
  from Cons.prems have "\<bar>a + points_value t\<bar> + sum_list (map (\<lambda>t. \<bar>points_value t\<bar>) ts) < 2 ^ 53"
    by simp
  from Cons.IH[OF this] step show ?case by (simp add: add.assoc)
qed

lemma sum_abs_filter:
  "sum_list (map (\<lambda>t. \<bar>points_value t\<bar>) (filter P ts)) \<le> sum_list (map (\<lambda>t. \<bar>points_value t\<bar>) ts)"
  by (induction ts) auto

lemma progress_3_8: "Math_round (js_mul (js_div (Num 3) (Num 8)) (Num 100)) = Num 38"
  by code_simp

text \<open>
  The figure is computed on doubles: 29 done points of 200 are 14.5 percent exactly, but
  the double nearest to \<open>29 / 200\<close> times 100 rounds to \<open>14.499999999999998\<close>, and the
  program shows 14.
\<close>

lemma progress_29_200:
  "Math_round (js_mul (js_div (Num 29) (Num 200)) (Num 100)) = Num 14
   \<and> \<lfloor>(29 / 200 * 100 :: rat) + 1 / 2\<rfloor> = 15"
  by code_simp

text \<open>
  The sums are sums of doubles as well: 45035996273705 done points and 8962163258467296
  points to do add up to \<open>2^53 + 9\<close>, which the addition rounds to \<open>2^53 + 8\<close>, and the
  program shows 1 percent; with the exact total the quotient would round to 0.
\<close>

lemma progress_large_sums:
  "totalPoints large_doc = Num 9007199254741000
   \<and> donePoints large_doc = Num 45035996273705
   \<and> progress_of (donePoints large_doc) (totalPoints large_doc) = Num 1
   \<and> 45035996273705 + 8962163258467296 = (9007199254741001 :: int)
   \<and> progress_of (Num 45035996273705) (Num 9007199254741001) = Num 0"
  by code_simp

text \<open>
  Claim C5, as the program has it. The active tasks are those whose sprint is the current
  sprint; absent points count 0.

  \<^item> A board that is rendered shows the number of done points, the number of all points
    and the progress \<open>totalPoints > 0 ? Math.round(donePoints / totalPoints * 100) : 0\<close>,
    so 0 also when \<open>totalPoints\<close> is 0 or negative. The two numbers are the sums of the
    points of the active tasks with status \<open>done\<close> and of all active tasks, added up in
    list order as doubles; the division and the multiplication are those of doubles and
    the rounding is that of \<open>Math.round\<close>.
  \<^item> When the absolute values of the points of the active tasks add up to less than
    \<open>2^53\<close>, the two numbers are the exact sums \<open>d\<close> and \<open>t\<close>, and the progress is
    \<open>Math.round(d / t * 100)\<close> for positive \<open>t\<close> and 0 otherwise.
  \<^item> For active points 3, 5, 0 with the done ones summing to 3 the progress is 38.
\<close>

theorem cmdBoard_progress_spec:
  "(\<forall>b. cmdBoard eng data cfg = Inr b \<longrightarrow>
        shown_done b = donePoints data \<and> shown_total b = totalPoints data
      \<and> shown_progress b =
          (if positive (totalPoints data)
           then Math_round (js_mul (js_div (donePoints data) (totalPoints data)) (Num 100))
           else Num 0))
   \<and> (sum_list (map (\<lambda>t. \<bar>points_value t\<bar>)
          (filter (\<lambda>t. sprint t = currentSprint data) (tasks data))) < 2 ^ 53 \<longrightarrow>
        donePoints data = Num (sum_list (map points_value (filter (\<lambda>t. status t = ''done'')
            (filter (\<lambda>t. sprint t = currentSprint data) (tasks data)))))
      \<and> totalPoints data = Num (sum_list (map points_value
            (filter (\<lambda>t. sprint t = currentSprint data) (tasks data))))
      \<and> progress_of (donePoints data) (totalPoints data) =
          (let active = filter (\<lambda>t. sprint t = currentSprint data) (tasks data);
               d = sum_list (map points_value (filter (\<lambda>t. status t = ''done'') active));
               t = sum_list (map points_value active)
           in if 0 < t then Math_round (js_mul (js_div (Num d) (Num t)) (Num 100)) else Num 0))
   \<and> (map points_value (filter (\<lambda>t. sprint t = currentSprint data) (tasks data)) = [3, 5, 0]
        \<and> sum_list (map points_value (filter (\<lambda>t. status t = ''done'')
              (filter (\<lambda>t. sprint t = currentSprint data) (tasks data)))) = 3
        \<longrightarrow> progress_of (donePoints data) (totalPoints data) = Num 38)"
proof -
  let ?active = "filter (\<lambda>t. sprint t = currentSprint data) (tasks data)"
  let ?done = "filter (\<lambda>t. status t = ''done'') ?active"
  have shown: "shown_done b = donePoints data \<and> shown_total b = totalPoints data
      \<and> shown_progress b =
          (if positive (totalPoints data)
           then Math_round (js_mul (js_div (donePoints data) (totalPoints data)) (Num 100))
           else Num 0)"
    if "cmdBoard eng data cfg = Inr b" for b
    using that by (auto simp: cmdBoard_def Let_def progress_of_def split: sum.splits if_splits)
  have exact: "donePoints data = Num (sum_list (map points_value ?done))
      \<and> totalPoints data = Num (sum_list (map points_value ?active))"
    if b: "sum_list (map (\<lambda>t. \<bar>points_value t\<bar>) ?active) < 2 ^ 53"
  proof -
    from b have "\<bar>0\<bar> + sum_list (map (\<lambda>t. \<bar>points_value t\<bar>) ?active) < 2 ^ 53" by simp
    from fold_js_add_exact[OF this]
    have t: "totalPoints data = Num (sum_list (map points_value ?active))"
      by (simp add: totalPoints_def sprintTasks_def)
    from b sum_abs_filter[of "\<lambda>t. status t = ''done''" ?active]
    have "\<bar>0\<bar> + sum_list (map (\<lambda>t. \<bar>points_value t\<bar>) ?done) < 2 ^ 53" by simp
    from fold_js_add_exact[OF this]
    have "donePoints data = Num (sum_list (map points_value ?done))"
      by (simp add: donePoints_def sprintTasks_def)
    with t show ?thesis by simp
  qed
  have formula: "progress_of (donePoints data) (totalPoints data) =
          (let active = ?active;
               d = sum_list (map points_value (filter (\<lambda>t. status t = ''done'') active));
               t = sum_list (map points_value active)
           in if 0 < t then Math_round (js_mul (js_div (Num d) (Num t)) (Num 100)) else Num 0)"
    if b: "sum_list (map (\<lambda>t. \<bar>points_value t\<bar>) ?active) < 2 ^ 53"
    using exact[OF b] by (simp add: progress_of_def Let_def)
  have example: "progress_of (donePoints data) (totalPoints data) = Num 38"
    if e: "map points_value ?active = [3, 5, 0] \<and> sum_list (map points_value ?done) = 3"
  proof -
    have "map (\<lambda>t. \<bar>points_value t\<bar>) ?active = map abs (map points_value ?active)"
      by (simp add: comp_def)
    with e have "sum_list (map (\<lambda>t. \<bar>points_value t\<bar>) ?active) < 2 ^ 53"
      by simp
    from exact[OF this] e have "donePoints data = Num 3" "totalPoints data = Num 8"
      by simp_all
    then show ?thesis using progress_3_8 by (simp add: progress_of_def)
  qed
  from shown exact formula example show ?thesis by blast
qed

text \<open>
  Three active tasks with points 3, 5, 0, two of them done, as the sample engine renders
  them; and an empty document.
\<close>

theorem cmdBoard_progress_spec_witness:
  "map points_value (filter (\<lambda>t. sprint t = currentSprint progress_doc) (tasks progress_doc)) = [3, 5, 0]
   \<and> sum_list (map points_value (filter (\<lambda>t. status t = ''done'')
        (filter (\<lambda>t. sprint t = currentSprint progress_doc) (tasks progress_doc)))) = 3
   \<and> progress_of (donePoints progress_doc) (totalPoints progress_doc) = Num 38
   \<and> summary_of (cmdBoard sample_engine progress_doc None) = Some (Num 3, Num 8, Num 38)
   \<and> summary_of (cmdBoard sample_engine (sample_doc []) None) = Some (Num 0, Num 0, Num 0)"
proof -
  have a: "map points_value (filter (\<lambda>t. sprint t = currentSprint progress_doc) (tasks progress_doc)) = [3, 5, 0]"
    by (simp add: progress_doc_def sample_doc_def sample_task_def points_value_def)
  have b: "sum_list (map points_value (filter (\<lambda>t. status t = ''done'')
        (filter (\<lambda>t. sprint t = currentSprint progress_doc) (tasks progress_doc)))) = 3"
    by (simp add: progress_doc_def sample_doc_def sample_task_def points_value_def)
  from cmdBoard_progress_spec[of sample_engine progress_doc None] a b
  have c: "progress_of (donePoints progress_doc) (totalPoints progress_doc) = Num 38"
    by blast
  have d: "summary_of (cmdBoard sample_engine progress_doc None) = Some (Num 3, Num 8, Num 38)"
    by code_simp
  have e: "summary_of (cmdBoard sample_engine (sample_doc []) None) = Some (Num 0, Num 0, Num 0)"
    by code_simp
  from a b c d e show ?thesis by simp
qed

text \<open>
  Claim C5 as it is written asks for \<open>round(d / t * 100)\<close> whenever \<open>t\<close> is not 0. When the
  only task of the sprint is done and has \<open>-5\<close> points, as after
  \<open>sprint edit task-001 points -5\<close>, both sums are \<open>-5\<close>, for which the formula gives 100,
  and the program shows 0.
\<close>

theorem cmdBoard_progress_counterexample:
  "map points (tasks negative_doc) = [Some (- 5)]
   \<and> totalPoints negative_doc = Num (- 5) \<and> donePoints negative_doc = Num (- 5)
   \<and> Math_round (js_mul (js_div (donePoints negative_doc) (totalPoints negative_doc)) (Num 100))
        = Num 100
   \<and> summary_of (cmdBoard sample_engine negative_doc None) = Some (Num (- 5), Num (- 5), Num 0)"
  by code_simp

subsection \<open>The progress bar of the debt view\<close>

lemma floor_half_bounds: "0 \<le> y \<Longrightarrow> y \<le> of_int w \<Longrightarrow> 0 \<le> \<lfloor>y + 1 / 2\<rfloor> \<and> \<lfloor>y + 1 / 2\<rfloor> \<le> w"
  for y :: rat
proof -
  assume "0 \<le> y" "y \<le> of_int w"
  then have "0 \<le> y + 1 / 2" "y + 1 / 2 < of_int (w + 1)" by simp_all
  then show ?thesis
    by (metis floor_less_iff zero_le_floor zle_add1_eq_le)
qed

lemma double_small:
  assumes "0 \<le> x" and "x \<le> of_int n" and "n < 2 ^ 53"
  shows "double x = Num (to_double x)" and "0 \<le> to_double x" and "to_double x \<le> of_int n"
proof -
  show lo: "0 \<le> to_double x" by (rule to_double_nonneg[OF assms(1)])
  show hi: "to_double x \<le> of_int n" by (rule to_double_le_int[OF assms])
  have "of_int n < (2::rat) ^ 53"
    using assms(3) by (metis of_int_less_iff of_int_numeral of_int_power)
  with hi small_pow have "to_double x < 2 ^ 1024" by simp
  with lo have "\<bar>to_double x\<bar> < 2 ^ 1024" by simp
  then show "double x = Num (to_double x)" by (rule double_Num)
qed

lemma filled_bounds:
  assumes "0 \<le> percent" "percent \<le> 100" "0 \<le> width" "width < 2 ^ 53"
  shows "\<exists>f. filled (Num percent) (Num width) = Num f \<and> 0 \<le> f \<and> f \<le> width"
proof -
  let ?x = "to_double (of_int percent / 100)"
  have q: "(0::rat) \<le> of_int percent / 100" "of_int percent / 100 \<le> (of_int 1 :: rat)"
    using assms(1,2) by simp_all
  from double_small[OF q] have x: "js_div (Num percent) (Num 100) = Num ?x" "0 \<le> ?x" "?x \<le> 1"
    by simp_all
  let ?y = "to_double (?x * of_int width)"
  have w0: "(0::rat) \<le> of_int width" using assms(3) by simp
  have p: "0 \<le> ?x * of_int width" "?x * of_int width \<le> of_int width"
    using x(2,3) w0 by (simp_all add: mult_left_le_one_le)
  from double_small[OF p assms(4)]
  have y: "js_mul (Num ?x) (Num width) = Num ?y" "0 \<le> ?y" "?y \<le> of_int width"
    by simp_all
  have "filled (Num percent) (Num width) = Num \<lfloor>?y + 1 / 2\<rfloor>"
    unfolding filled_def x(1) y(1) by simp
  with floor_half_bounds[OF y(2,3)] show ?thesis
    by blast
qed

lemma repeat_Num:
  "repeat eng c (Num k) =
     (if k < 0 \<or> max_string_length eng < k then Inl RangeError else Inr (replicate (nat k) c))"
  by (simp add: repeat_def)

lemma createProgressBar_cases:
  assumes "0 \<le> width" and "width < 2 ^ 53" and "filled percent (Num width) = Num f"
  shows "createProgressBar eng percent (Num width) =
     (if 0 \<le> f \<and> f \<le> width \<and> width + 2 \<le> max_string_length eng
      then Inr (''['' @ replicate (nat f) FULL @ replicate (nat (width - f)) EMPTY @ '']'')
      else Inl RangeError)"
proof -
  consider "f < 0" | "width < f" | "0 \<le> f" "f \<le> width" by linarith
  then show ?thesis
  proof cases
    case 1
    then show ?thesis
      by (simp add: createProgressBar_def assms(3) repeat_Num)
  next
    case 2
    then have "width - f < 0" by simp
    from number_negative[OF this]
    have "repeat eng EMPTY (js_sub (Num width) (Num f)) = Inl RangeError"
      by (auto simp: js_sub_def repeat_def)
    with 2 show ?thesis
      by (auto simp: createProgressBar_def assms(3) repeat_Num split: sum.splits)
  next
    case 3
    with assms(1,2) have "\<bar>width + - f\<bar> < 2 ^ 53" by simp
    then have s: "js_sub (Num width) (Num f) = Num (width - f)"
      by (simp add: js_sub_def number_exact)
    have len: "int (length (concat [''['', replicate (nat f) FULL, replicate (nat (width - f)) EMPTY, '']''])) = width + 2"
      using 3 by simp
    show ?thesis
      unfolding createProgressBar_def assms(3) s repeat_Num template_def len
      using 3 by auto
  qed
qed

lemma createProgressBar_infinite:
  assumes "filled percent width = Infinity \<or> filled percent width = NegInfinity"
  shows "createProgressBar eng percent width = Inl RangeError"
  using assms by (auto simp: createProgressBar_def repeat_def)

lemma filled_104: "filled (Num 104) (Num 15) = Num 16"
  by code_simp

text \<open>
  Claim C10, as the program has it. \<open>width\<close> is a whole number from 0 up to \<open>2^53\<close>.

  \<^item> For \<open>0 \<le> percent \<le> 100\<close> and a \<open>width\<close> for which a string of \<open>width + 2\<close> units is
    within the engine's limit, \<open>createProgressBar\<close> returns a bar of exactly \<open>width\<close>
    cells between the brackets, \<open>Math.round(percent / 100 * width)\<close> of them filled and
    the rest empty.
  \<^item> For any percent, when that rounded number is a finite number \<open>f\<close>, the function
    returns the bar when \<open>0 \<le> f \<le> width\<close> and \<open>width + 2\<close> is within the limit, and
    throws a \<open>RangeError\<close> otherwise; when the rounded number is infinite it throws.
  \<^item> At width 15 a percent of 104 rounds to 16 filled cells and throws on every engine,
    and the debt view, which passes each item's progress unvalidated, ends with that
    exception on a document whose item has progress 104. On the sample engine a bar of
    \<open>2^31\<close> cells throws at percent 100.
\<close>

theorem createProgressBar_spec:
  "(0 \<le> percent \<and> percent \<le> 100 \<and> 0 \<le> width \<and> width < 2 ^ 53
      \<and> width + 2 \<le> max_string_length eng \<longrightarrow>
      (\<exists>f. filled (Num percent) (Num width) = Num f \<and> 0 \<le> f \<and> f \<le> width
         \<and> createProgressBar eng (Num percent) (Num width) =
              Inr (''['' @ replicate (nat f) FULL @ replicate (nat (width - f)) EMPTY @ '']'')
         \<and> nat f + nat (width - f) = nat width))
   \<and> (0 \<le> width \<and> width < 2 ^ 53 \<and> filled p (Num width) = Num f \<longrightarrow>
        createProgressBar eng p (Num width) =
          (if 0 \<le> f \<and> f \<le> width \<and> width + 2 \<le> max_string_length eng
           then Inr (''['' @ replicate (nat f) FULL @ replicate (nat (width - f)) EMPTY @ '']'')
           else Inl RangeError))
   \<and> (filled p w = Infinity \<or> filled p w = NegInfinity \<longrightarrow>
        createProgressBar eng p w = Inl RangeError)
   \<and> filled (Num 104) (Num 15) = Num 16
   \<and> createProgressBar eng (Num 104) (Num 15) = Inl RangeError
   \<and> cmdDebt eng debt_doc = Inl RangeError
   \<and> createProgressBar sample_engine (Num 100) (Num (2 ^ 31)) = Inl RangeError"
proof (intro conjI impI)
  assume a: "0 \<le> percent \<and> percent \<le> 100 \<and> 0 \<le> width \<and> width < 2 ^ 53
      \<and> width + 2 \<le> max_string_length eng"
  then obtain f where f: "filled (Num percent) (Num width) = Num f" "0 \<le> f" "f \<le> width"
    using filled_bounds[of percent width] by blast
  from a f have "createProgressBar eng (Num percent) (Num width) =
      Inr (''['' @ replicate (nat f) FULL @ replicate (nat (width - f)) EMPTY @ '']'')"
    by (simp add: createProgressBar_cases[where f = f])
  moreover from f have "nat f + nat (width - f) = nat width" by linarith
  ultimately show "\<exists>f. filled (Num percent) (Num width) = Num f \<and> 0 \<le> f \<and> f \<le> width
         \<and> createProgressBar eng (Num percent) (Num width) =
              Inr (''['' @ replicate (nat f) FULL @ replicate (nat (width - f)) EMPTY @ '']'')
         \<and> nat f + nat (width - f) = nat width"
    using f by blast
next
  assume "0 \<le> width \<and> width < 2 ^ 53 \<and> filled p (Num width) = Num f"
  then show "createProgressBar eng p (Num width) =
          (if 0 \<le> f \<and> f \<le> width \<and> width + 2 \<le> max_string_length eng
           then Inr (''['' @ replicate (nat f) FULL @ replicate (nat (width - f)) EMPTY @ '']'')
           else Inl RangeError)"
    by (intro createProgressBar_cases) simp_all
next
  assume "filled p w = Infinity \<or> filled p w = NegInfinity"
  then show "createProgressBar eng p w = Inl RangeError"
    by (rule createProgressBar_infinite)
next
  show "filled (Num 104) (Num 15) = Num 16" by (rule filled_104)
  show t: "createProgressBar eng (Num 104) (Num 15) = Inl RangeError"
    using createProgressBar_cases[of 15 "Num 104" 16 eng] filled_104 by simp
  have "progress_or_0 \<lparr> td_id = ''TD-001'', td_status = ''partial'', progress = Some 104, linkedTask = None \<rparr> = Num 104"
    by (simp add: progress_or_0_def number_exact)
  with t show "cmdDebt eng debt_doc = Inl RangeError"
    by (simp add: cmdDebt_def debt_doc_def sample_doc_def)
  have "filled (Num 100) (Num (2 ^ 31)) = Num (2 ^ 31)" by code_simp
  from createProgressBar_cases[OF _ _ this, of sample_engine]
  show "createProgressBar sample_engine (Num 100) (Num (2 ^ 31)) = Inl RangeError"
    by (simp add: sample_engine_def)
qed

text \<open>Half of 15 cells on the sample engine: 7.5 rounds up to 8 filled cells, 7 stay empty.\<close>

theorem createProgressBar_spec_witness:
  "(0::int) \<le> 50 \<and> (50::int) \<le> 100 \<and> (0::int) \<le> 15 \<and> (15::int) < 2 ^ 53
   \<and> 15 + 2 \<le> max_string_length sample_engine
   \<and> filled (Num 50) (Num 15) = Num 8
   \<and> createProgressBar sample_engine (Num 50) (Num 15) =
        Inr (''['' @ replicate 8 FULL @ replicate 7 EMPTY @ '']'')
   \<and> length (''['' @ replicate 8 FULL @ replicate 7 EMPTY @ '']'') = 17"
proof -
  have f: "filled (Num 50) (Num 15) = Num 8" by code_simp
  have l: "15 + 2 \<le> max_string_length sample_engine" by (simp add: sample_engine_def)
  have pre: "(0::int) \<le> 50 \<and> (50::int) \<le> 100 \<and> (0::int) \<le> 15 \<and> (15::int) < 2 ^ 53
      \<and> 15 + 2 \<le> max_string_length sample_engine"
    using l by simp
  from createProgressBar_spec[of 50 15 sample_engine "Num 50" 8 "Num 15"] pre
  have "\<exists>f. filled (Num 50) (Num 15) = Num f \<and> 0 \<le> f \<and> f \<le> 15
         \<and> createProgressBar sample_engine (Num 50) (Num 15) =
              Inr (''['' @ replicate (nat f) FULL @ replicate (nat (15 - f)) EMPTY @ '']'')
         \<and> nat f + nat (15 - f) = nat 15"
    by blast
  then obtain f' where "filled (Num 50) (Num 15) = Num f'"
    "createProgressBar sample_engine (Num 50) (Num 15) =
        Inr (''['' @ replicate (nat f') FULL @ replicate (nat (15 - f')) EMPTY @ '']'')"
    by blast
  with f l show ?thesis by simp
qed

text \<open>
  Claim C10 as it is written has every percent above 100 throw. At percent 101 and width
  15 the filled count is \<open>Math.round(15.15) = 15\<close>, the empty count is 0, and the function
  returns a full bar of 15 cells.
\<close>

theorem createProgressBar_counterexample:
  "(100::int) < 101 \<and> filled (Num 101) (Num 15) = Num 15
   \<and> createProgressBar sample_engine (Num 101) (Num 15) = Inr (''['' @ replicate 15 FULL @ '']'')"
proof -
  have f: "filled (Num 101) (Num 15) = Num 15" by code_simp
  from createProgressBar_cases[OF _ _ f, of sample_engine] show ?thesis
    by (simp add: f sample_engine_def)
qed

subsection \<open>Push\<close>

lemma syncTask_throws:
  assumes "\<not> truthy_issue (githubIssue t)" and "createIssue sh t ri [] (world s) = (Inl msg, w1)"
  shows "syncTask sh ri pn t s =
     (t, s\<lparr>world := w1,
           results := (results s)\<lparr>errors := errors (results s) @ [(task_id t, msg)]\<rparr>,
           console := console s @ [CreatingIssue (task_id t), ErrorFor (task_id t) msg]\<rparr>)"
  using assms by (simp add: syncTask_def)

lemma syncTask_created:
  "created (results (snd (syncTask sh ri pn t s))) =
     created (results s) @ push_created sh ri t (world s)"
  by (auto simp: syncTask_def push_created_def Let_def split: prod.splits option.splits sum.splits)

lemma syncTask_updated:
  "updated (results (snd (syncTask sh ri pn t s))) =
     updated (results s) @ push_updated sh ri t (world s)"
  by (auto simp: syncTask_def push_updated_def Let_def split: prod.splits option.splits sum.splits)

lemma syncTask_errors:
  "errors (results (snd (syncTask sh ri pn t s))) =
     errors (results s) @ push_errors sh ri t (world s)"
  by (auto simp: syncTask_def push_errors_def Let_def split: prod.splits option.splits sum.splits)

lemma push_entries_le_1:
  "length (push_created sh ri t w) + length (push_updated sh ri t w) + length (push_errors sh ri t w) \<le> 1"
  by (auto simp: push_created_def push_updated_def push_errors_def split: option.splits sum.splits)

lemma push_errors_none:
  assumes "truthy_issue (githubIssue t) \<or> (\<exists>i. fst (createIssue sh t ri [] w) = Inr i)"
  shows "push_errors sh ri t w = []"
  using assms by (auto simp: push_errors_def)

lemma push_entries_failed:
  assumes "\<not> truthy_issue (githubIssue t)" and "fst (createIssue sh t ri [] w) = Inl msg"
  shows "push_errors sh ri t w = [(task_id t, msg)]" and "push_created sh ri t w = []"
    and "push_updated sh ri t w = []"
  using assms by (simp_all add: push_errors_def push_created_def push_updated_def)

lemma syncLoop_append:
  "syncLoop sh ri pn sel (ts1 @ ts2) s =
     (fst (syncLoop sh ri pn sel ts1 s)
        @ fst (syncLoop sh ri pn sel ts2 (snd (syncLoop sh ri pn sel ts1 s))),
      snd (syncLoop sh ri pn sel ts2 (snd (syncLoop sh ri pn sel ts1 s))))"
  by (induction ts1 arbitrary: s) (auto split: prod.splits)

lemma syncLoop_Cons_selected:
  "sel t \<Longrightarrow> syncLoop sh ri pn sel (t # ts) s =
     (fst (syncTask sh ri pn t s) # fst (syncLoop sh ri pn sel ts (snd (syncTask sh ri pn t s))),
      snd (syncLoop sh ri pn sel ts (snd (syncTask sh ri pn t s))))"
  by (simp split: prod.splits)

lemma syncLoop_Cons_skipped:
  "\<not> sel t \<Longrightarrow> syncLoop sh ri pn sel (t # ts) s =
     (t # fst (syncLoop sh ri pn sel ts s), snd (syncLoop sh ri pn sel ts s))"
  by (simp split: prod.splits)

lemma syncToGitHub_returns:
  assumes "fst (checkGhCli sh w)" and "fst (getRepoInfo sh (snd (checkGhCli sh w))) \<noteq> None"
  shows "\<exists>r. fst (syncToGitHub sh data cfg options w) = Inr r"
  using assms by (auto simp: syncToGitHub_def split: prod.splits bool.splits option.splits)

lemma syncLoop_three:
  assumes "sel a" "sel b" "sel c"
  shows "snd (syncLoop sh ri pn sel [a, b, c] s) =
         snd (syncTask sh ri pn c (snd (syncTask sh ri pn b (snd (syncTask sh ri pn a s)))))"
  using assms by (simp split: prod.splits)

lemma three_tasks:
  assumes sel: "sel a \<and> sel b \<and> sel c"
    and a: "truthy_issue (githubIssue a) \<or> (\<exists>i. fst (createIssue sh a ri [] (world s)) = Inr i)"
    and b: "\<not> truthy_issue (githubIssue b)
            \<and> fst (createIssue sh b ri [] (world (snd (syncTask sh ri pn a s)))) = Inl msg"
    and c: "truthy_issue (githubIssue c)
            \<or> (\<exists>i. fst (createIssue sh c ri []
                    (world (snd (syncTask sh ri pn b (snd (syncTask sh ri pn a s)))))) = Inr i)"
  shows "errors (results (snd (syncLoop sh ri pn sel [a, b, c] s))) =
           errors (results s) @ [(task_id b, msg)]"
    and "created (results (snd (syncLoop sh ri pn sel [a, b, c] s))) =
           created (results s) @ push_created sh ri a (world s)
             @ push_created sh ri c (world (snd (syncTask sh ri pn b (snd (syncTask sh ri pn a s)))))"
    and "updated (results (snd (syncLoop sh ri pn sel [a, b, c] s))) =
           updated (results s) @ push_updated sh ri a (world s)
             @ push_updated sh ri c (world (snd (syncTask sh ri pn b (snd (syncTask sh ri pn a s)))))"
proof -
  let ?sa = "snd (syncTask sh ri pn a s)"
  let ?sb = "snd (syncTask sh ri pn b ?sa)"
  let ?sc = "snd (syncTask sh ri pn c ?sb)"
  from sel have fin: "snd (syncLoop sh ri pn sel [a, b, c] s) = ?sc"
    by (intro syncLoop_three) simp_all
  from b have fb: "push_errors sh ri b (world ?sa) = [(task_id b, msg)]"
      "push_created sh ri b (world ?sa) = []" "push_updated sh ri b (world ?sa) = []"
    by (simp_all add: push_entries_failed)
  from a have ea: "push_errors sh ri a (world s) = []" by (rule push_errors_none)
  from c have ec: "push_errors sh ri c (world ?sb) = []" by (rule push_errors_none)
  show "errors (results (snd (syncLoop sh ri pn sel [a, b, c] s))) =
           errors (results s) @ [(task_id b, msg)]"
    unfolding fin by (simp add: syncTask_errors ea fb ec)
  show "created (results (snd (syncLoop sh ri pn sel [a, b, c] s))) =
           created (results s) @ push_created sh ri a (world s) @ push_created sh ri c (world ?sb)"
    unfolding fin by (simp add: syncTask_created fb)
  show "updated (results (snd (syncLoop sh ri pn sel [a, b, c] s))) =
           updated (results s) @ push_updated sh ri a (world s) @ push_updated sh ri c (world ?sb)"
    unfolding fin by (simp add: syncTask_updated fb)
qed

text \<open>
  Claim C3, as the program has it. \<open>push_created\<close>, \<open>push_updated\<close> and \<open>push_errors\<close> are
  what the processing of one task adds to the three lists, as defined above.

  \<^item> The processing of a task appends exactly these entries, at most one in all.
  \<^item> When the task is not linked and the creation of its issue fails, the task is left as
    it was and the entries are exactly one error entry with the task's id and the
    message, and nothing else. This is the only failure that adds an error entry: a linked
    task adds none, and a task whose issue is created adds none, whatever the outcome of
    reading, closing or reopening an issue, of creating a label, or of adding the issue
    to a project.
  \<^item> The loop processes the first task of the list when it is selected, skips it when it
    is not, and goes on with the remaining tasks from the state this leaves, whether the
    task failed or not; the loop over a list followed by another is the loop over the
    first followed by the loop over the second. So tasks are processed in list order.
  \<^item> For three selected tasks of which only the second fails at the creation of its
    issue, the result has exactly one more error entry, that of the second task, and the
    created and updated lists gain the entries of the first task followed by those of the
    third.
  \<^item> Once the client and the repository are found, \<open>syncToGitHub\<close> returns its results
    whatever fails per task.
\<close>

theorem syncToGitHub_fault_isolation:
  "created (results (snd (syncTask sh ri pn t s))) =
      created (results s) @ push_created sh ri t (world s)
   \<and> updated (results (snd (syncTask sh ri pn t s))) =
      updated (results s) @ push_updated sh ri t (world s)
   \<and> errors (results (snd (syncTask sh ri pn t s))) =
      errors (results s) @ push_errors sh ri t (world s)
   \<and> length (push_created sh ri t (world s)) + length (push_updated sh ri t (world s))
        + length (push_errors sh ri t (world s)) \<le> 1
   \<and> (\<not> truthy_issue (githubIssue t) \<and> fst (createIssue sh t ri [] (world s)) = Inl msg \<longrightarrow>
        fst (syncTask sh ri pn t s) = t
      \<and> push_errors sh ri t (world s) = [(task_id t, msg)]
      \<and> push_created sh ri t (world s) = []
      \<and> push_updated sh ri t (world s) = [])
   \<and> (truthy_issue (githubIssue t) \<or> (\<exists>i. fst (createIssue sh t ri [] (world s)) = Inr i) \<longrightarrow>
        push_errors sh ri t (world s) = [])
   \<and> (sel t \<longrightarrow>
        syncLoop sh ri pn sel (t # ts) s =
          (fst (syncTask sh ri pn t s) # fst (syncLoop sh ri pn sel ts (snd (syncTask sh ri pn t s))),
           snd (syncLoop sh ri pn sel ts (snd (syncTask sh ri pn t s)))))
   \<and> (\<not> sel t \<longrightarrow>
        syncLoop sh ri pn sel (t # ts) s =
          (t # fst (syncLoop sh ri pn sel ts s), snd (syncLoop sh ri pn sel ts s)))
   \<and> syncLoop sh ri pn sel (ts1 @ ts2) s =
        (fst (syncLoop sh ri pn sel ts1 s)
           @ fst (syncLoop sh ri pn sel ts2 (snd (syncLoop sh ri pn sel ts1 s))),
         snd (syncLoop sh ri pn sel ts2 (snd (syncLoop sh ri pn sel ts1 s))))
   \<and> ((sel a \<and> sel b \<and> sel c)
        \<and> (truthy_issue (githubIssue a) \<or> (\<exists>i. fst (createIssue sh a ri [] (world s)) = Inr i))
        \<and> (\<not> truthy_issue (githubIssue b)
            \<and> fst (createIssue sh b ri [] (world (snd (syncTask sh ri pn a s)))) = Inl msg)
        \<and> (truthy_issue (githubIssue c)
            \<or> (\<exists>i. fst (createIssue sh c ri []
                    (world (snd (syncTask sh ri pn b (snd (syncTask sh ri pn a s)))))) = Inr i))
      \<longrightarrow> errors (results (snd (syncLoop sh ri pn sel [a, b, c] s))) =
            errors (results s) @ [(task_id b, msg)]
        \<and> created (results (snd (syncLoop sh ri pn sel [a, b, c] s))) =
            created (results s) @ push_created sh ri a (world s)
              @ push_created sh ri c (world (snd (syncTask sh ri pn b (snd (syncTask sh ri pn a s)))))
        \<and> updated (results (snd (syncLoop sh ri pn sel [a, b, c] s))) =
            updated (results s) @ push_updated sh ri a (world s)
              @ push_updated sh ri c (world (snd (syncTask sh ri pn b (snd (syncTask sh ri pn a s))))))
   \<and> (fst (checkGhCli sh w) \<and> fst (getRepoInfo sh (snd (checkGhCli sh w))) \<noteq> None \<longrightarrow>
        (\<exists>r. fst (syncToGitHub sh data cfg options w) = Inr r))"
proof (intro conjI impI)
  show "created (results (snd (syncTask sh ri pn t s))) =
      created (results s) @ push_created sh ri t (world s)"
    by (rule syncTask_created)
  show "updated (results (snd (syncTask sh ri pn t s))) =
      updated (results s) @ push_updated sh ri t (world s)"
    by (rule syncTask_updated)
  show "errors (results (snd (syncTask sh ri pn t s))) =
      errors (results s) @ push_errors sh ri t (world s)"
    by (rule syncTask_errors)
  show "length (push_created sh ri t (world s)) + length (push_updated sh ri t (world s))
        + length (push_errors sh ri t (world s)) \<le> 1"
    by (rule push_entries_le_1)
next
  assume a: "\<not> truthy_issue (githubIssue t) \<and> fst (createIssue sh t ri [] (world s)) = Inl msg"
  then obtain w1 where c: "createIssue sh t ri [] (world s) = (Inl msg, w1)"
    by (cases "createIssue sh t ri [] (world s)") auto
  from a have u: "\<not> truthy_issue (githubIssue t)" by simp
  show "fst (syncTask sh ri pn t s) = t"
    by (simp add: syncTask_throws[OF u c])
  from a show "push_errors sh ri t (world s) = [(task_id t, msg)]"
    and "push_created sh ri t (world s) = []" and "push_updated sh ri t (world s) = []"
    by (simp_all add: push_entries_failed)
next
  assume "truthy_issue (githubIssue t) \<or> (\<exists>i. fst (createIssue sh t ri [] (world s)) = Inr i)"
  then show "push_errors sh ri t (world s) = []"
    by (rule push_errors_none)
next
  assume "sel t"
  then show "syncLoop sh ri pn sel (t # ts) s =
          (fst (syncTask sh ri pn t s) # fst (syncLoop sh ri pn sel ts (snd (syncTask sh ri pn t s))),
           snd (syncLoop sh ri pn sel ts (snd (syncTask sh ri pn t s))))"
    by (rule syncLoop_Cons_selected)
next
  assume "\<not> sel t"
  then show "syncLoop sh ri pn sel (t # ts) s =
          (t # fst (syncLoop sh ri pn sel ts s), snd (syncLoop sh ri pn sel ts s))"
    by (rule syncLoop_Cons_skipped)
next
  show "syncLoop sh ri pn sel (ts1 @ ts2) s =
        (fst (syncLoop sh ri pn sel ts1 s)
           @ fst (syncLoop sh ri pn sel ts2 (snd (syncLoop sh ri pn sel ts1 s))),
         snd (syncLoop sh ri pn sel ts2 (snd (syncLoop sh ri pn sel ts1 s))))"
    by (rule syncLoop_append)
next
  assume h: "(sel a \<and> sel b \<and> sel c)
        \<and> (truthy_issue (githubIssue a) \<or> (\<exists>i. fst (createIssue sh a ri [] (world s)) = Inr i))
        \<and> (\<not> truthy_issue (githubIssue b)
            \<and> fst (createIssue sh b ri [] (world (snd (syncTask sh ri pn a s)))) = Inl msg)
        \<and> (truthy_issue (githubIssue c)
            \<or> (\<exists>i. fst (createIssue sh c ri []
                    (world (snd (syncTask sh ri pn b (snd (syncTask sh ri pn a s)))))) = Inr i))"
  then have 1: "sel a \<and> sel b \<and> sel c"
    and 2: "truthy_issue (githubIssue a) \<or> (\<exists>i. fst (createIssue sh a ri [] (world s)) = Inr i)"
    and 3: "\<not> truthy_issue (githubIssue b)
            \<and> fst (createIssue sh b ri [] (world (snd (syncTask sh ri pn a s)))) = Inl msg"
    and 4: "truthy_issue (githubIssue c)
            \<or> (\<exists>i. fst (createIssue sh c ri []
                    (world (snd (syncTask sh ri pn b (snd (syncTask sh ri pn a s)))))) = Inr i)"
    by blast+
  show "errors (results (snd (syncLoop sh ri pn sel [a, b, c] s))) =
            errors (results s) @ [(task_id b, msg)]"
    by (rule three_tasks(1)[OF 1 2 3 4])
  show "created (results (snd (syncLoop sh ri pn sel [a, b, c] s))) =
            created (results s) @ push_created sh ri a (world s)
              @ push_created sh ri c (world (snd (syncTask sh ri pn b (snd (syncTask sh ri pn a s)))))"
    by (rule three_tasks(2)[OF 1 2 3 4])
  show "updated (results (snd (syncLoop sh ri pn sel [a, b, c] s))) =
            updated (results s) @ push_updated sh ri a (world s)
              @ push_updated sh ri c (world (snd (syncTask sh ri pn b (snd (syncTask sh ri pn a s)))))"
    by (rule three_tasks(3)[OF 1 2 3 4])
next
  assume "fst (checkGhCli sh w) \<and> fst (getRepoInfo sh (snd (checkGhCli sh w))) \<noteq> None"
  then have 1: "fst (checkGhCli sh w)" and 2: "fst (getRepoInfo sh (snd (checkGhCli sh w))) \<noteq> None"
    by simp_all
  show "\<exists>r. fst (syncToGitHub sh data cfg options w) = Inr r"
    by (rule syncToGitHub_returns[OF 1 2])
qed

text \<open>
  Three tasks of the current sprint that are not linked, the issue of the second cannot
  be created: one error entry for \<open>TASK-002\<close>, the created entries of \<open>TASK-001\<close> and
  \<open>TASK-003\<close> in that order, and only these two tasks linked.
\<close>

theorem syncToGitHub_fault_isolation_witness:
  "\<not> truthy_issue (githubIssue (tasks push_doc ! 1))
   \<and> fst (createIssue sample_shell (tasks push_doc ! 1) acme_app []
        (world (snd (syncTask sample_shell acme_app None (tasks push_doc ! 0) push_start)))) =
        Inl create_failed
   \<and> errors (results (snd (syncTask sample_shell acme_app None (tasks push_doc ! 1)
        (snd (syncTask sample_shell acme_app None (tasks push_doc ! 0) push_start))))) =
        [(''TASK-002'', create_failed)]
   \<and> errors (results (snd (syncLoop sample_shell acme_app None (\<lambda>t. True) (tasks push_doc)
        push_start))) = [(''TASK-002'', create_failed)]
   \<and> created (results (snd (syncLoop sample_shell acme_app None (\<lambda>t. True) (tasks push_doc)
        push_start))) =
        [(''TASK-001'', Num 1, ''https://github.com/acme/app/issues/1''),
         (''TASK-003'', Num 2, ''https://github.com/acme/app/issues/2'')]
   \<and> updated (results (snd (syncLoop sample_shell acme_app None (\<lambda>t. True) (tasks push_doc)
        push_start))) = []
   \<and> fst (checkGhCli sample_shell 0)
   \<and> fst (syncToGitHub sample_shell push_doc None \<lparr> sprintOnly = True, status_option = None \<rparr> 0) =
        Inr (push_doc\<lparr>tasks :=
               [(tasks push_doc ! 0)\<lparr>githubIssue := Some (Num 1),
                   githubUrl := Some ''https://github.com/acme/app/issues/1''\<rparr>,
                tasks push_doc ! 1,
                (tasks push_doc ! 2)\<lparr>githubIssue := Some (Num 2),
                   githubUrl := Some ''https://github.com/acme/app/issues/2''\<rparr>]\<rparr>,
             \<lparr> created = [(''TASK-001'', Num 1, ''https://github.com/acme/app/issues/1''),
                          (''TASK-003'', Num 2, ''https://github.com/acme/app/issues/2'')],
               updated = [],
               errors = [(''TASK-002'', create_failed)] \<rparr>,
             [Syncing ''acme'' ''app'', CreatingIssue ''TASK-001'', CreatedIssue (Num 1) ''TASK-001'',
              CreatingIssue ''TASK-002'', ErrorFor ''TASK-002'' create_failed,
              CreatingIssue ''TASK-003'', CreatedIssue (Num 2) ''TASK-003'', ClosedTaskDone])"
proof -
  let ?a = "tasks push_doc ! 0"
  let ?b = "tasks push_doc ! 1"
  let ?c = "tasks push_doc ! 2"
  let ?s1 = "snd (syncTask sample_shell acme_app None ?a push_start)"
  let ?s2 = "snd (syncTask sample_shell acme_app None ?b ?s1)"
  have u: "\<not> truthy_issue (githubIssue ?b)"
    by code_simp
  have c: "fst (createIssue sample_shell ?b acme_app [] (world ?s1)) = Inl create_failed"
    by code_simp
  have e0: "errors (results push_start) = []" "created (results push_start) = []"
      "updated (results push_start) = []"
    by (simp_all add: push_start_def)
  have e1: "errors (results ?s1) = []"
    by code_simp
  have i: "task_id ?b = ''TASK-002''"
    by (simp add: push_doc_def sample_doc_def sample_task_def)
  have ts: "tasks push_doc = [?a, ?b, ?c]"
    by (simp add: push_doc_def sample_doc_def)
  have "fst (createIssue sample_shell ?a acme_app [] (world push_start)) =
      Inr \<lparr> issue_url = ''https://github.com/acme/app/issues/1'', issue_number = Num 1 \<rparr>"
    by code_simp
  then have ha: "truthy_issue (githubIssue ?a)
      \<or> (\<exists>i. fst (createIssue sample_shell ?a acme_app [] (world push_start)) = Inr i)"
    by blast
  have "fst (createIssue sample_shell ?c acme_app [] (world ?s2)) =
      Inr \<lparr> issue_url = ''https://github.com/acme/app/issues/2'', issue_number = Num 2 \<rparr>"
    by code_simp
  then have hc: "truthy_issue (githubIssue ?c)
      \<or> (\<exists>i. fst (createIssue sample_shell ?c acme_app [] (world ?s2)) = Inr i)"
    by blast
  have pa: "push_created sample_shell acme_app ?a (world push_start) =
      [(''TASK-001'', Num 1, ''https://github.com/acme/app/issues/1'')]"
    "push_updated sample_shell acme_app ?a (world push_start) = []"
    by code_simp+
  have pc: "push_created sample_shell acme_app ?c (world ?s2) =
      [(''TASK-003'', Num 2, ''https://github.com/acme/app/issues/2'')]"
    "push_updated sample_shell acme_app ?c (world ?s2) = []"
    by code_simp+
  note spec = syncToGitHub_fault_isolation[where sel = "\<lambda>t. True" and sh = sample_shell
      and ri = acme_app and pn = None and msg = create_failed]
  from spec[where t = ?b and s = ?s1] u c
  have "errors (results ?s2) = errors (results ?s1) @ push_errors sample_shell acme_app ?b (world ?s1)"
    and "push_errors sample_shell acme_app ?b (world ?s1) = [(task_id ?b, create_failed)]"
    by blast+
  then have A: "errors (results ?s2) = [(''TASK-002'', create_failed)]"
    by (simp only: e1 i append_Nil)
  from spec[where a = ?a and b = ?b and c = ?c and s = push_start] ha u c hc
  have "errors (results (snd (syncLoop sample_shell acme_app None (\<lambda>t. True) [?a, ?b, ?c]
        push_start))) = errors (results push_start) @ [(task_id ?b, create_failed)]"
    and "created (results (snd (syncLoop sample_shell acme_app None (\<lambda>t. True) [?a, ?b, ?c]
        push_start))) = created (results push_start)
          @ push_created sample_shell acme_app ?a (world push_start)
          @ push_created sample_shell acme_app ?c (world ?s2)"
    and "updated (results (snd (syncLoop sample_shell acme_app None (\<lambda>t. True) [?a, ?b, ?c]
        push_start))) = updated (results push_start)
          @ push_updated sample_shell acme_app ?a (world push_start)
          @ push_updated sample_shell acme_app ?c (world ?s2)"
    by blast+
  then have T: "errors (results (snd (syncLoop sample_shell acme_app None (\<lambda>t. True)
        (tasks push_doc) push_start))) = [(''TASK-002'', create_failed)]"
    and C: "created (results (snd (syncLoop sample_shell acme_app None (\<lambda>t. True)
        (tasks push_doc) push_start))) =
        [(''TASK-001'', Num 1, ''https://github.com/acme/app/issues/1''),
         (''TASK-003'', Num 2, ''https://github.com/acme/app/issues/2'')]"
    and U: "updated (results (snd (syncLoop sample_shell acme_app None (\<lambda>t. True)
        (tasks push_doc) push_start))) = []"
    by (simp_all only: ts[symmetric] e0 i pa pc append_Nil append_Cons)
  have g: "fst (checkGhCli sample_shell 0)"
    by code_simp
  have B: "fst (syncToGitHub sample_shell push_doc None \<lparr> sprintOnly = True, status_option = None \<rparr> 0) =
        Inr (push_doc\<lparr>tasks :=
               [(tasks push_doc ! 0)\<lparr>githubIssue := Some (Num 1),
                   githubUrl := Some ''https://github.com/acme/app/issues/1''\<rparr>,
                tasks push_doc ! 1,
                (tasks push_doc ! 2)\<lparr>githubIssue := Some (Num 2),
                   githubUrl := Some ''https://github.com/acme/app/issues/2''\<rparr>]\<rparr>,
             \<lparr> created = [(''TASK-001'', Num 1, ''https://github.com/acme/app/issues/1''),
                          (''TASK-003'', Num 2, ''https://github.com/acme/app/issues/2'')],
               updated = [],
               errors = [(''TASK-002'', create_failed)] \<rparr>,
             [Syncing ''acme'' ''app'', CreatingIssue ''TASK-001'', CreatedIssue (Num 1) ''TASK-001'',
              CreatingIssue ''TASK-002'', ErrorFor ''TASK-002'' create_failed,
              CreatingIssue ''TASK-003'', CreatedIssue (Num 2) ''TASK-003'', ClosedTaskDone])"
    by code_simp
  from u c A T C U g B show ?thesis by simp
qed

text \<open>
  Claim C3 as it is written has every failure while processing a task recorded as an
  error entry. With every \<open>gh issue close\<close> failing, a push over four tasks of the sprint
  meets two failures: the state of issue 7, to which \<open>TASK-003\<close> is linked, cannot be
  read, and issue 6 of the done task \<open>TASK-002\<close> cannot be closed. The errors list is
  empty, and \<open>TASK-002\<close> is reported as closed.
\<close>

theorem syncToGitHub_fault_isolation_counterexample:
  "map task_id (tasks pull_doc) = [''TASK-001'', ''TASK-002'', ''TASK-003'', ''TASK-004'']
   \<and> fst (getIssueStatus close_fails_shell (Num 7) acme_app 0) = None
   \<and> fst (closeIssue close_fails_shell (Num 6) acme_app 0) = False
   \<and> push_results_of
        (fst (syncToGitHub close_fails_shell pull_doc None
                \<lparr> sprintOnly = True, status_option = None \<rparr> 0)) =
        Some \<lparr> created = [(''TASK-004'', Num 1, ''https://github.com/acme/app/issues/1'')],
               updated = [(''TASK-001'', ''reopened''), (''TASK-002'', ''closed'')],
               errors = [] \<rparr>"
  by code_simp

subsection \<open>Pull\<close>

lemma pullTask_unlinked: "\<not> truthy_issue (githubIssue t) \<Longrightarrow> pullTask sh ri t s = (t, s)"
  by (simp add: pullTask_def)

lemma pullTask_fetch_fails:
  assumes "truthy_issue (githubIssue t)" and "fst (getIssueStatus sh (issue_of t) ri (world s)) = None"
  shows "pullTask sh ri t s = (t, s\<lparr>world := snd (getIssueStatus sh (issue_of t) ri (world s))\<rparr>)"
  using assms by (cases "getIssueStatus sh (issue_of t) ri (world s)") (simp add: pullTask_def)

lemma pullTask_closed:
  assumes "truthy_issue (githubIssue t)"
    and "getIssueStatus sh (issue_of t) ri (world s) = (Some i, w1)"
    and "state i = ''CLOSED''" and "status t \<noteq> ''done''"
  shows "pullTask sh ri t s =
     (t\<lparr>status := ''done'', completedAt := Some (isoDate (clock sh w1))\<rparr>,
      s\<lparr>world := w1,
        results := (results s)\<lparr>pull_updated := pull_updated (results s) @ [(task_id t, ''marked done'')]\<rparr>,
        console := console s @ [MarkedDone (task_id t)]\<rparr>)"
  using assms by (simp add: pullTask_def)

lemma pullTask_reopened:
  assumes "truthy_issue (githubIssue t)"
    and "getIssueStatus sh (issue_of t) ri (world s) = (Some i, w1)"
    and "state i \<noteq> ''CLOSED''" and "status t = ''done''"
  shows "pullTask sh ri t s =
     (t, s\<lparr>world := w1, console := console s @ [DoneButOpen (task_id t) (issue_of t)]\<rparr>)"
  using assms by (simp add: pullTask_def)

lemma pullTask_errors: "pull_errors (results (snd (pullTask sh ri t s))) = pull_errors (results s)"
  by (auto simp: pullTask_def Let_def split: prod.splits option.splits)

lemma pullLoop_Cons:
  "pullLoop sh ri (t # ts) s =
     (fst (pullTask sh ri t s) # fst (pullLoop sh ri ts (snd (pullTask sh ri t s))),
      snd (pullLoop sh ri ts (snd (pullTask sh ri t s))))"
  by (simp split: prod.splits)

lemma pullLoop_errors: "pull_errors (results (snd (pullLoop sh ri ts s))) = pull_errors (results s)"
proof (induction ts arbitrary: s)
  case Nil
  then show ?case by simp
next
  case (Cons t ts)
  show ?case
    unfolding pullLoop_Cons snd_conv by (simp add: Cons pullTask_errors)
qed

lemma pullFromGitHub_errors:
  assumes "fst (pullFromGitHub sh data cfg w) = Inr (d, r, l)"
  shows "pull_errors r = []"
proof -
  from assms obtain ri w2 ts' s' where
    p: "pullLoop sh ri (tasks data)
          \<lparr> world = w2, results = \<lparr> pull_updated = [], pull_errors = [] \<rparr>,
            console = [Pulling (repo_owner ri) (repo ri)] \<rparr> = (ts', s')"
    and r: "r = results s'"
    by (auto simp: pullFromGitHub_def split: prod.splits bool.splits option.splits)
  from pullLoop_errors[of sh ri "tasks data"
      "\<lparr> world = w2, results = \<lparr> pull_updated = [], pull_errors = [] \<rparr>,
         console = [Pulling (repo_owner ri) (repo ri)] \<rparr>"]
  show ?thesis
    unfolding p r by simp
qed

text \<open>
  Claim C7, as the program has it. A linked task whose issue state cannot be fetched is
  skipped: the task, the result lists and the console are as before, and the loop goes on
  with the remaining tasks. No error entry is recorded for it: \<open>getIssueStatus\<close> returns
  \<open>null\<close> on a failure and the loop skips on \<open>null\<close>, so the errors list of a pull is
  empty in every run. An unlinked task is skipped with no subprocess call, no update and
  no error entry.
\<close>

theorem pullFromGitHub_fetch_failure:
  "(truthy_issue (githubIssue t) \<and> fst (getIssueStatus sh (issue_of t) ri (world s)) = None \<longrightarrow>
      fst (pullTask sh ri t s) = t
    \<and> results (snd (pullTask sh ri t s)) = results s
    \<and> console (snd (pullTask sh ri t s)) = console s
    \<and> pullLoop sh ri (t # ts) s =
        (t # fst (pullLoop sh ri ts (snd (pullTask sh ri t s))),
         snd (pullLoop sh ri ts (snd (pullTask sh ri t s)))))
   \<and> (\<not> truthy_issue (githubIssue t) \<longrightarrow>
        pullTask sh ri t s = (t, s)
      \<and> pullLoop sh ri (t # ts) s = (t # fst (pullLoop sh ri ts s), snd (pullLoop sh ri ts s)))
   \<and> pull_errors (results (snd (pullLoop sh ri ts s))) = pull_errors (results s)
   \<and> (\<forall>d r l. fst (pullFromGitHub sh data cfg w) = Inr (d, r, l) \<longrightarrow> pull_errors r = [])"
proof (intro conjI impI allI)
  assume "truthy_issue (githubIssue t) \<and> fst (getIssueStatus sh (issue_of t) ri (world s)) = None"
  then have p: "pullTask sh ri t s = (t, s\<lparr>world := snd (getIssueStatus sh (issue_of t) ri (world s))\<rparr>)"
    using pullTask_fetch_fails by blast
  then show "fst (pullTask sh ri t s) = t" and "results (snd (pullTask sh ri t s)) = results s"
    and "console (snd (pullTask sh ri t s)) = console s"
    by simp_all
  from p show "pullLoop sh ri (t # ts) s =
        (t # fst (pullLoop sh ri ts (snd (pullTask sh ri t s))),
         snd (pullLoop sh ri ts (snd (pullTask sh ri t s))))"
    unfolding pullLoop_Cons by simp
next
  assume "\<not> truthy_issue (githubIssue t)"
  then have p: "pullTask sh ri t s = (t, s)" by (rule pullTask_unlinked)
  then show "pullTask sh ri t s = (t, s)" .
  from p show "pullLoop sh ri (t # ts) s = (t # fst (pullLoop sh ri ts s), snd (pullLoop sh ri ts s))"
    unfolding pullLoop_Cons by simp
next
  show "pull_errors (results (snd (pullLoop sh ri ts s))) = pull_errors (results s)"
    by (rule pullLoop_errors)
next
  fix d r l assume "fst (pullFromGitHub sh data cfg w) = Inr (d, r, l)"
  then show "pull_errors r = []" by (rule pullFromGitHub_errors)
qed

text \<open>\<open>TASK-003\<close> is linked to issue 7, whose state cannot be fetched; \<open>TASK-004\<close> is unlinked.\<close>

theorem pullFromGitHub_fetch_failure_witness:
  "truthy_issue (githubIssue (tasks pull_doc ! 2))
   \<and> fst (getIssueStatus sample_shell (issue_of (tasks pull_doc ! 2)) acme_app (world pull_start)) = None
   \<and> pullTask sample_shell acme_app (tasks pull_doc ! 2) pull_start = (tasks pull_doc ! 2, pull_start)
   \<and> \<not> truthy_issue (githubIssue (tasks pull_doc ! 3))
   \<and> pullTask sample_shell acme_app (tasks pull_doc ! 3) pull_start = (tasks pull_doc ! 3, pull_start)
   \<and> pull_errors (results (snd (pullLoop sample_shell acme_app (tasks pull_doc) pull_start))) = []"
proof -
  have l: "truthy_issue (githubIssue (tasks pull_doc ! 2))" by code_simp
  have f: "fst (getIssueStatus sample_shell (issue_of (tasks pull_doc ! 2)) acme_app (world pull_start)) = None"
    by code_simp
  have u: "\<not> truthy_issue (githubIssue (tasks pull_doc ! 3))" by code_simp
  note spec = pullFromGitHub_fetch_failure[where sh = sample_shell and ri = acme_app and s = pull_start]
  from spec[where t = "tasks pull_doc ! 2"] l f
  have "fst (pullTask sample_shell acme_app (tasks pull_doc ! 2) pull_start) = tasks pull_doc ! 2"
    "results (snd (pullTask sample_shell acme_app (tasks pull_doc ! 2) pull_start)) = results pull_start"
    "console (snd (pullTask sample_shell acme_app (tasks pull_doc ! 2) pull_start)) = console pull_start"
    by blast+
  moreover have "world (snd (pullTask sample_shell acme_app (tasks pull_doc ! 2) pull_start)) = world pull_start"
    by code_simp
  ultimately have A: "pullTask sample_shell acme_app (tasks pull_doc ! 2) pull_start = (tasks pull_doc ! 2, pull_start)"
    by (cases "pullTask sample_shell acme_app (tasks pull_doc ! 2) pull_start") simp
  from spec[where t = "tasks pull_doc ! 3"] u
  have B: "pullTask sample_shell acme_app (tasks pull_doc ! 3) pull_start = (tasks pull_doc ! 3, pull_start)"
    by blast
  from spec[where t = "tasks pull_doc ! 3" and ts = "tasks pull_doc"]
  have C: "pull_errors (results (snd (pullLoop sample_shell acme_app (tasks pull_doc) pull_start))) = []"
    by (simp add: pull_start_def)
  from l f A u B C show ?thesis by simp
qed

text \<open>
  Claim C7 as it is written records an error entry for the task whose fetch fails. The
  pull of the sample document, where the fetch for \<open>TASK-003\<close> fails, returns an empty
  errors list.
\<close>

theorem pullFromGitHub_fetch_failure_counterexample:
  "truthy_issue (githubIssue (tasks pull_doc ! 2))
   \<and> fst (getIssueStatus sample_shell (issue_of (tasks pull_doc ! 2)) acme_app 0) = None
   \<and> fst (pullFromGitHub sample_shell pull_doc None 0) =
       Inr (pull_doc\<lparr>tasks :=
              [(tasks pull_doc ! 0)\<lparr>status := ''done'', completedAt := Some ''2026-02-03''\<rparr>,
               tasks pull_doc ! 1, tasks pull_doc ! 2, tasks pull_doc ! 3]\<rparr>,
            \<lparr> pull_updated = [(''TASK-001'', ''marked done'')], pull_errors = [] \<rparr>,
            [Pulling ''acme'' ''app'', MarkedDone ''TASK-001'', DoneButOpen ''TASK-002'' (Num 6)])"
  by code_simp

text \<open>
  Claim C2 says that a pull which marks a task done stamps \<open>completedAt\<close> only if it was
  unset, and leaves a done task with an open issue as it is, with a warning and no update
  entry. The second half holds (\<open>pullTask_reopened\<close>). The first does not hold of the
  program, which assigns today's date unconditionally (\<open>pullTask_closed\<close>): \<open>TASK-001\<close>
  was completed on 2026-01-20 and moved back to \<open>in_progress\<close>, its issue 5 is closed,
  and the pull of 2026-02-03 replaces the date. \<open>cmdMove\<close> guards the same assignment
  with \<open>!task.completedAt\<close>.
\<close>

theorem pullFromGitHub_overwrites_completedAt:
  "truthy_issue (githubIssue (tasks pull_doc ! 0))
   \<and> status (tasks pull_doc ! 0) = ''in_progress''
   \<and> completedAt (tasks pull_doc ! 0) = Some ''2026-01-20''
   \<and> fst (getIssueStatus sample_shell (issue_of (tasks pull_doc ! 0)) acme_app 0) =
        Some \<lparr> state = ''CLOSED'', issue_title = ''Five'' \<rparr>
   \<and> isoDate (clock sample_shell 0) = ''2026-02-03''
   \<and> completedAt (fst (pullTask sample_shell acme_app (tasks pull_doc ! 0) pull_start)) =
        Some ''2026-02-03''
   \<and> status (fst (pullTask sample_shell acme_app (tasks pull_doc ! 0) pull_start)) = ''done''
   \<and> pull_updated (results (snd (pullTask sample_shell acme_app (tasks pull_doc ! 0) pull_start))) =
        [(''TASK-001'', ''marked done'')]"
  by code_simp


subsection \<open>The sync commands and the client\<close>

text \<open>
  Claim C8, as the program has it. \<open>push\<close> and \<open>pull\<close> check the client first, and when
  it is absent they report it on the error stream and exit with code 1: nothing is saved,
  the document is untouched, and the world is the one the version check left, so no other
  subprocess has run. \<open>link\<close> does not check the client: its outcome is the same
  whatever the version check would answer.
\<close>

theorem sync_commands_check_client:
  "(\<not> fst (checkGhCli sh w) \<longrightarrow>
      case_push sh args cfg data w =
        \<lparr> exit_code = 1, uncaught = None, memory = data, saved = None,
          outside = snd (checkGhCli sh w), stderr = [GhNotFound], stdout = [] \<rparr>
    \<and> case_pull sh args cfg data w =
        \<lparr> exit_code = 1, uncaught = None, memory = data, saved = None,
          outside = snd (checkGhCli sh w), stderr = [GhNotFound], stdout = [] \<rparr>)
   \<and> case_link (sh\<lparr>gh_version := v\<rparr>) args cfg data w = case_link sh args cfg data w"
proof (intro conjI impI)
  assume a: "\<not> fst (checkGhCli sh w)"
  then have c: "checkGhCli sh w = (False, snd (checkGhCli sh w))"
    by (cases "checkGhCli sh w") simp
  show "case_push sh args cfg data w =
        \<lparr> exit_code = 1, uncaught = None, memory = data, saved = None,
          outside = snd (checkGhCli sh w), stderr = [GhNotFound], stdout = [] \<rparr>"
    by (subst case_push_def, subst c) simp
  show "case_pull sh args cfg data w =
        \<lparr> exit_code = 1, uncaught = None, memory = data, saved = None,
          outside = snd (checkGhCli sh w), stderr = [GhNotFound], stdout = [] \<rparr>"
    by (subst case_pull_def, subst c) simp
next
  have g: "getRepoInfo (sh\<lparr>gh_version := v\<rparr>) = getRepoInfo sh"
    by (simp add: getRepoInfo_def fun_eq_iff)
  have c: "clock (sh\<lparr>gh_version := v\<rparr>) = clock sh"
    by simp
  show "case_link (sh\<lparr>gh_version := v\<rparr>) args cfg data w = case_link sh args cfg data w"
    unfolding case_link_def g c by (rule refl)
qed

text \<open>The sample shell with the client absent.\<close>

theorem sync_commands_check_client_witness:
  "\<not> fst (checkGhCli no_gh_shell 0)
   \<and> exit_code (case_push no_gh_shell [''push''] None push_doc 0) = 1
   \<and> stderr (case_push no_gh_shell [''push''] None push_doc 0) = [GhNotFound]
   \<and> saved (case_push no_gh_shell [''push''] None push_doc 0) = None
   \<and> memory (case_push no_gh_shell [''push''] None push_doc 0) = push_doc
   \<and> exit_code (case_pull no_gh_shell [''pull''] None pull_doc 0) = 1
   \<and> saved (case_pull no_gh_shell [''pull''] None pull_doc 0) = None
   \<and> memory (case_pull no_gh_shell [''pull''] None pull_doc 0) = pull_doc"
proof -
  have a: "\<not> fst (checkGhCli no_gh_shell 0)"
    by (simp add: checkGhCli_def no_gh_shell_def)
  from sync_commands_check_client[where sh = no_gh_shell and w = 0 and args = "[''push'']"
      and cfg = None and data = push_doc] a
  have P: "case_push no_gh_shell [''push''] None push_doc 0 =
        \<lparr> exit_code = 1, uncaught = None, memory = push_doc, saved = None,
          outside = snd (checkGhCli no_gh_shell 0), stderr = [GhNotFound], stdout = [] \<rparr>"
    by blast
  from sync_commands_check_client[where sh = no_gh_shell and w = 0 and args = "[''pull'']"
      and cfg = None and data = pull_doc] a
  have Q: "case_pull no_gh_shell [''pull''] None pull_doc 0 =
        \<lparr> exit_code = 1, uncaught = None, memory = pull_doc, saved = None,
          outside = snd (checkGhCli no_gh_shell 0), stderr = [GhNotFound], stdout = [] \<rparr>"
    by blast
  from a show ?thesis
    unfolding P Q by simp
qed

text \<open>
  Claim C8 as it is written has \<open>link\<close> fail when the client is absent. With the client
  absent, \<open>link task-004 42\<close> links the task, saves and exits with code 0.
\<close>

theorem sync_commands_check_client_counterexample:
  "\<not> fst (checkGhCli no_gh_shell 0)
   \<and> exit_code (case_link no_gh_shell [''link'', ''task-004'', ''42''] None pull_doc 0) = 0
   \<and> stderr (case_link no_gh_shell [''link'', ''task-004'', ''42''] None pull_doc 0) = []
   \<and> githubIssue (tasks pull_doc ! 3) = None
   \<and> githubIssue (tasks (memory (case_link no_gh_shell [''link'', ''task-004'', ''42''] None pull_doc 0)) ! 3)
        = Some (Num 42)
   \<and> saved (case_link no_gh_shell [''link'', ''task-004'', ''42''] None pull_doc 0)
        = Some (memory (case_link no_gh_shell [''link'', ''task-004'', ''42''] None pull_doc 0))"
  by code_simp
end
